(* ===== verification/Prelude.thy ===== *)
theory Prelude
  imports Main "HOL-Library.Word" "HOL-Library.Code_Target_Numeral"
begin

text \<open>
  Shared vocabulary of the development: the outcome of a Go call, Go errors, state threading,
  byte slices with spare capacity, decimal and hexadecimal numerals as \<^verbatim>\<open>strconv\<close> and
  \<^verbatim>\<open>net\<close> write and read them, and the few generic list facts the components share.
\<close>

type_synonym byte = "8 word"

section \<open>Outcomes of Go calls\<close>

text \<open>
  A call returns a value, returns an error, panics, or never returns (a loop of the code that has
  run out of the fuel the model gives it).
\<close>

datatype ('e, 'a) outcome = Ret 'a | Err 'e | Panic | Stuck

text \<open>The error values the program compares or prints.\<close>

datatype go_error =
    Errno int
  | ErrText string
  | ErrKeyNotFound
  | ErrNoSuchLoadbalancer

named_theorems outcome_simps

fun obind :: "('e, 'a) outcome \<Rightarrow> ('a \<Rightarrow> ('e, 'b) outcome) \<Rightarrow> ('e, 'b) outcome" where
  "obind (Ret a) f = f a"
| "obind (Err e) f = Err e"
| "obind Panic f = Panic"
| "obind Stuck f = Stuck"

text \<open>Sequencing of effects: the state reached so far is kept on every exit.\<close>

fun sbind :: "('e, 'a) outcome \<times> 's \<Rightarrow> ('a \<Rightarrow> 's \<Rightarrow> ('e, 'b) outcome \<times> 's) \<Rightarrow> ('e, 'b) outcome \<times> 's" where
  "sbind (Ret a, s) f = f a s"
| "sbind (Err e, s) f = (Err e, s)"
| "sbind (Panic, s) f = (Panic, s)"
| "sbind (Stuck, s) f = (Stuck, s)"

lemma obind_Ret_iff [outcome_simps]: "obind m f = Ret b \<longleftrightarrow> (\<exists>a. m = Ret a \<and> f a = Ret b)"
  by (cases m) auto

lemma sbind_Ret_iff [outcome_simps]:
  "sbind r f = (Ret b, t) \<longleftrightarrow> (\<exists>a s. r = (Ret a, s) \<and> f a s = (Ret b, t))"
  by (cases "(r, f)" rule: sbind.cases) auto

section \<open>Go slices\<close>

text \<open>
  A slice shares its backing array: besides its elements it has spare capacity, and
  \<^verbatim>\<open>s[:n]\<close> reslices into it. It panics only past the capacity.
\<close>

datatype slice = Slice (elems: "byte list") (spare: "byte list")

definition slice_upto :: "nat \<Rightarrow> slice \<Rightarrow> ('e, slice) outcome" where
  "slice_upto n s =
     (let buf = elems s @ spare s in
      if n \<le> length buf then Ret (Slice (take n buf) (drop n buf)) else Panic)"

definition slice_from :: "nat \<Rightarrow> slice \<Rightarrow> ('e, slice) outcome" where
  "slice_from n s = (if n \<le> length (elems s) then Ret (Slice (drop n (elems s)) (spare s)) else Panic)"

lemma slice_upto_exact [simp]: "slice_upto (length xs) (Slice xs ys) = Ret (Slice xs ys)"
  by (simp add: slice_upto_def)

section \<open>Decimal and hexadecimal numerals\<close>

definition digit_char :: "nat \<Rightarrow> char" where
  "digit_char d = (if d < 10 then char_of (48 + d) else char_of (87 + d))"

fun numeral_in :: "nat \<Rightarrow> nat \<Rightarrow> string" where
  "numeral_in b n =
     (if b < 2 \<or> n < b then [digit_char n] else numeral_in b (n div b) @ [digit_char (n mod b)])"

declare numeral_in.simps [simp del]

abbreviation dec :: "nat \<Rightarrow> string" where "dec \<equiv> numeral_in 10"
abbreviation hex :: "nat \<Rightarrow> string" where "hex \<equiv> numeral_in 16"

text \<open>The value of a digit character, \<^verbatim>\<open>0-9\<close>, \<^verbatim>\<open>a-f\<close> or \<^verbatim>\<open>A-F\<close>.\<close>

definition digit_val :: "char \<Rightarrow> nat option" where
  "digit_val c =
     (let k = of_char c :: nat in
      if 48 \<le> k \<and> k \<le> 57 then Some (k - 48)
      else if 97 \<le> k \<and> k \<le> 102 then Some (k - 87)
      else if 65 \<le> k \<and> k \<le> 70 then Some (k - 55)
      else None)"

definition is_digit :: "nat \<Rightarrow> char \<Rightarrow> bool" where
  "is_digit b c = (case digit_val c of None \<Rightarrow> False | Some d \<Rightarrow> d < b)"

text \<open>
  \<^verbatim>\<open>dtoi\<close> and \<^verbatim>\<open>xtoi\<close> of package \<^verbatim>\<open>net\<close>: the number at the front of a string, how many
  characters it takes, and whether there is one below \<^verbatim>\<open>0xFFFFFF\<close>.
\<close>

fun toi_loop :: "nat \<Rightarrow> nat \<Rightarrow> nat \<Rightarrow> string \<Rightarrow> nat \<times> nat \<times> bool" where
  "toi_loop b n i [] = (n, i, i \<noteq> 0)"
| "toi_loop b n i (c # cs) =
     (if is_digit b c then
        (let n' = n * b + the (digit_val c) in
         if n' \<ge> 16777215 then (0, i, False) else toi_loop b n' (Suc i) cs)
      else (n, i, i \<noteq> 0))"

definition dtoi :: "string \<Rightarrow> nat \<times> nat \<times> bool" where "dtoi = toi_loop 10 0 0"
definition xtoi :: "string \<Rightarrow> nat \<times> nat \<times> bool" where "xtoi = toi_loop 16 0 0"

lemma of_char_char_of [simp]: "n < 256 \<Longrightarrow> of_char (char_of n :: char) = (n :: nat)"
  by (simp add: of_char_of)

lemma digit_val_digit_char [simp]: "d < 16 \<Longrightarrow> digit_val (digit_char d) = Some d"
  by (auto simp: digit_val_def digit_char_def Let_def)

lemma is_digit_digit_char [simp]: "d < b \<Longrightarrow> b \<le> 16 \<Longrightarrow> is_digit b (digit_char d)"
  by (simp add: is_digit_def)

lemma numeral_in_nonempty [simp]: "numeral_in b n \<noteq> []"
  by (subst numeral_in.simps) simp

lemma numeral_in_digits: "b \<le> 16 \<Longrightarrow> 2 \<le> b \<Longrightarrow> c \<in> set (numeral_in b n) \<Longrightarrow> is_digit b c"
proof (induction b n rule: numeral_in.induct)
  case (1 b n)
  show ?case
  proof (cases "n < b")
    case True
    with 1 show ?thesis by (subst (asm) numeral_in.simps) auto
  next
    case False
    with 1 show ?thesis
      by (subst (asm) numeral_in.simps) auto
  qed
qed

text \<open>Reading back a printed number: the loop consumes exactly its digits.\<close>

definition stops_at :: "nat \<Rightarrow> string \<Rightarrow> bool" where
  "stops_at b s = (case s of [] \<Rightarrow> True | c # _ \<Rightarrow> \<not> is_digit b c)"

lemma toi_loop_stop: "stops_at b s \<Longrightarrow> toi_loop b n i s = (n, i, i \<noteq> 0)"
  by (cases s) (auto simp: stops_at_def)

lemma toi_loop_numeral:
  assumes "2 \<le> b" "b \<le> 16"
  shows "n < 16777215 \<Longrightarrow>
    toi_loop b 0 i (numeral_in b n @ s) = toi_loop b n (i + length (numeral_in b n)) s"
  using assms
proof (induction b n arbitrary: s rule: numeral_in.induct)
  case (1 b n)
  show ?case
  proof (cases "n < b")
    case True
    with 1 show ?thesis by (subst (1 2) numeral_in.simps) (auto simp: Let_def)
  next
    case False
    have small: "n div b < 16777215" using 1(2) div_le_dividend le_less_trans by blast
    have recomb: "n div b * b + n mod b = n" by simp
    have md: "n mod b < 16" using "1.prems" mod_less_divisor[of b n] by linarith
    have "toi_loop b 0 i (numeral_in b n @ s)
        = toi_loop b 0 i (numeral_in b (n div b) @ digit_char (n mod b) # s)"
      using False "1.prems" by (subst numeral_in.simps) auto
    also have "\<dots> = toi_loop b (n div b) (i + length (numeral_in b (n div b))) (digit_char (n mod b) # s)"
      using 1(1)[of "digit_char (n mod b) # s"] False small "1.prems" by simp
    also have "\<dots> = toi_loop b n (i + Suc (length (numeral_in b (n div b)))) s"
      using "1.prems" recomb md by (simp add: Let_def)
    finally show ?thesis
      using False "1.prems" by (subst (2) numeral_in.simps) auto
  qed
qed

lemma dtoi_dec:
  "n < 16777215 \<Longrightarrow> stops_at 10 s \<Longrightarrow> dtoi (dec n @ s) = (n, length (dec n), True)"
  by (simp add: dtoi_def toi_loop_numeral toi_loop_stop)

lemma xtoi_hex:
  "n < 16777215 \<Longrightarrow> stops_at 16 s \<Longrightarrow> xtoi (hex n @ s) = (n, length (hex n), True)"
  by (simp add: xtoi_def toi_loop_numeral toi_loop_stop)

text \<open>A printed number has a leading zero only when it is zero.\<close>

lemma hd_numeral_zero:
  "2 \<le> b \<Longrightarrow> b \<le> 16 \<Longrightarrow> hd (numeral_in b n) = CHR ''0'' \<Longrightarrow> n = 0"
proof (induction b n rule: numeral_in.induct)
  case (1 b n)
  show ?case
  proof (cases "n < b")
    case True
    with 1 have "digit_char n = CHR ''0''" by (subst (asm) numeral_in.simps) auto
    then have "digit_val (digit_char n) = Some 0" by (simp add: digit_val_def)
    with True 1 show ?thesis by simp
  next
    case False
    with 1 have "n div b = 0"
      by (subst (asm) numeral_in.simps) (auto simp: hd_append)
    with False 1 show ?thesis by (simp add: div_eq_0_iff)
  qed
qed

lemma length_numeral_zero [simp]: "2 \<le> b \<Longrightarrow> numeral_in b 0 = [CHR ''0'']"
  by (subst numeral_in.simps) (simp add: digit_char_def, code_simp)

text \<open>\<^verbatim>\<open>strconv\<close>: printing a signed number, and reading one (a sign, then at least one digit).\<close>

definition print_int :: "int \<Rightarrow> string" where
  "print_int i = (if i < 0 then CHR ''-'' # dec (nat (- i)) else dec (nat i))"

fun dec_value :: "nat \<Rightarrow> string \<Rightarrow> nat option" where
  "dec_value acc [] = Some acc"
| "dec_value acc (c # cs) =
     (if is_digit 10 c then dec_value (acc * 10 + the (digit_val c)) cs else None)"

definition parse_int :: "string \<Rightarrow> int option" where
  "parse_int s =
     (let neg = (s \<noteq> [] \<and> hd s = CHR ''-'');
          t = (if s \<noteq> [] \<and> (hd s = CHR ''-'' \<or> hd s = CHR ''+'') then tl s else s)
      in if t = [] then None
         else map_option (\<lambda>n. if neg then - int n else int n) (dec_value 0 t))"

lemma dec_value_append:
  "dec_value a (xs @ ys) = (case dec_value a xs of None \<Rightarrow> None | Some b \<Rightarrow> dec_value b ys)"
  by (induction xs arbitrary: a) auto

lemma dec_value_dec: "dec_value 0 (dec n) = Some n"
proof (induction n rule: less_induct)
  case (less n)
  show ?case
  proof (cases "n < 10")
    case True
    then show ?thesis by (subst numeral_in.simps) simp
  next
    case False
    then have "dec_value 0 (dec (n div 10)) = Some (n div 10)" using less by simp
    moreover have "n mod 10 < 16" by (rule less_trans [of _ 10]) simp_all
    ultimately show ?thesis
      using False by (subst numeral_in.simps) (simp add: dec_value_append)
  qed
qed

lemma hd_dec_digit: "is_digit 10 (hd (dec n))"
  using numeral_in_digits[of 10 "hd (dec n)" n] by simp

lemma parse_int_print [simp]: "parse_int (print_int i) = Some i"
proof -
  have "hd (dec n) \<noteq> CHR ''-''" "hd (dec n) \<noteq> CHR ''+''" for n
    using hd_dec_digit[of n] by (auto simp: is_digit_def digit_val_def)
  then show ?thesis by (simp add: parse_int_def print_int_def dec_value_dec)
qed

end
