(* ===== verification/Go_Net.thy ===== *)
theory Go_Net
  imports Prelude
begin

unbundle bit_operations_syntax

text \<open>
  The parts of Go's standard packages \<^verbatim>\<open>net\<close> and \<^verbatim>\<open>strings\<close> the program uses (Go 1.20, the
  version \<^verbatim>\<open>go.mod\<close> names): IP addresses as byte slices of length 4 or 16, with \<open>[]\<close> for
  \<^verbatim>\<open>nil\<close>; parsing and printing of addresses; networks in CIDR notation.
\<close>

type_synonym ip = "byte list"

definition v4InV6Prefix :: ip where
  "v4InV6Prefix = [0, 0, 0, 0, 0, 0, 0, 0, 0, 0, 255, 255]"

definition IPv4 :: "byte \<Rightarrow> byte \<Rightarrow> byte \<Rightarrow> byte \<Rightarrow> ip" where
  "IPv4 a b c d = v4InV6Prefix @ [a, b, c, d]"

definition To4 :: "ip \<Rightarrow> ip" where
  "To4 a =
     (if length a = 4 then a
      else if length a = 16 \<and> take 12 a = v4InV6Prefix then drop 12 a
      else [])"

definition To16 :: "ip \<Rightarrow> ip" where
  "To16 a = (if length a = 4 then v4InV6Prefix @ a else if length a = 16 then a else [])"

definition IP_Equal :: "ip \<Rightarrow> ip \<Rightarrow> bool" where
  "IP_Equal a x =
     (if length a = length x then a = x
      else if length a = 4 \<and> length x = 16 then take 12 x = v4InV6Prefix \<and> a = drop 12 x
      else if length a = 16 \<and> length x = 4 then take 12 a = v4InV6Prefix \<and> drop 12 a = x
      else False)"

definition IsUnspecified :: "ip \<Rightarrow> bool" where
  "IsUnspecified a = (IP_Equal a (IPv4 0 0 0 0) \<or> IP_Equal a (replicate 16 0))"

section \<open>Printing\<close>

text \<open>The 16-bit groups of a 16-byte address.\<close>

fun groups :: "ip \<Rightarrow> nat list" where
  "groups (a # b # r) = (256 * unat a + unat b) # groups r"
| "groups _ = []"

text \<open>The longest run of zero groups, as start and end; \<open>(0, 0)\<close> when there is none.\<close>

definition zeros_at :: "nat list \<Rightarrow> nat" where
  "zeros_at gs = length (takeWhile (\<lambda>g. g = 0) gs)"

fun longest_zeros :: "nat \<Rightarrow> nat \<Rightarrow> nat list \<Rightarrow> nat \<times> nat \<Rightarrow> nat \<times> nat" where
  "longest_zeros 0 i gs (e0, e1) = (e0, e1)"
| "longest_zeros (Suc k) i gs (e0, e1) =
     (if length gs \<le> i then (e0, e1)
      else let n = zeros_at (drop i gs) in
        if 0 < n \<and> e1 - e0 < n then longest_zeros k (Suc (i + n)) gs (i, i + n)
        else longest_zeros k (Suc i) gs (e0, e1))"

fun print_groups :: "nat \<Rightarrow> nat \<Rightarrow> nat list \<Rightarrow> nat \<times> nat \<Rightarrow> string" where
  "print_groups 0 i gs (e0, e1) = []"
| "print_groups (Suc k) i gs (e0, e1) =
     (if length gs \<le> i then []
      else if e0 < e1 \<and> i = e0 then
        ''::'' @ (if length gs \<le> e1 then [] else hex (gs ! e1) @ print_groups k (Suc e1) gs (e0, e1))
      else (if 0 < i then '':'' else []) @ hex (gs ! i) @ print_groups k (Suc i) gs (e0, e1))"

definition IP_String :: "ip \<Rightarrow> string" where
  "IP_String a =
     (if a = [] then ''<nil>''
      else if length (To4 a) = 4 then
        dec (unat (To4 a ! 0)) @ ''.'' @ dec (unat (To4 a ! 1)) @ ''.'' @
        dec (unat (To4 a ! 2)) @ ''.'' @ dec (unat (To4 a ! 3))
      else if length a \<noteq> 16 then
        ''?'' @ concat (map (\<lambda>b. [digit_char (unat b div 16), digit_char (unat b mod 16)]) a)
      else
        (let gs = groups a;
             (e0, e1) = longest_zeros 8 0 gs (0, 0)
         in print_groups 8 0 gs (if e1 - e0 \<le> 1 then (0, 0) else (e0, e1))))"

section \<open>Parsing\<close>

text \<open>
  The remaining octets of a dotted address: the number of octets still wanted, whether this is
  the first one, and the rest of the text.
\<close>

fun parseIPv4_octets :: "nat \<Rightarrow> bool \<Rightarrow> string \<Rightarrow> byte list option" where
  "parseIPv4_octets 0 first s = (if s = [] then Some [] else None)"
| "parseIPv4_octets (Suc k) first s =
     (if s = [] then None
      else if \<not> first \<and> hd s \<noteq> CHR ''.'' then None
      else let t = (if first then s else tl s); (n, c, ok) = dtoi t in
        if \<not> ok \<or> n > 255 then None
        else if c > 1 \<and> hd t = CHR ''0'' then None
        else map_option (\<lambda>bs. word_of_nat n # bs) (parseIPv4_octets k False (drop c t)))"

definition parseIPv4 :: "string \<Rightarrow> ip option" where
  "parseIPv4 s = map_option (\<lambda>bs. v4InV6Prefix @ bs) (parseIPv4_octets 4 True s)"

text \<open>
  The loop of \<^verbatim>\<open>parseIPv6\<close>: the groups that may still follow, the bytes read so far, the position
  of the ellipsis, the rest of the text. It returns the bytes, the ellipsis and what is left.
\<close>

fun parseIPv6_loop :: "nat \<Rightarrow> ip \<Rightarrow> nat option \<Rightarrow> string \<Rightarrow> (ip \<times> nat option \<times> string) option" where
  "parseIPv6_loop 0 a ell s = Some (a, ell, s)"
| "parseIPv6_loop (Suc r) a ell s =
     (let (n, c, ok) = xtoi s in
      if \<not> ok \<or> n > 65535 then None
      else if c < length s \<and> s ! c = CHR ''.'' then
        (if ell = None \<and> length a \<noteq> 12 then None
         else if length a + 4 > 16 then None
         else map_option (\<lambda>ip4. (a @ drop 12 ip4, ell, [])) (parseIPv4 s))
      else let a' = a @ [word_of_nat (n div 256), word_of_nat (n mod 256)]; s1 = drop c s in
        if s1 = [] then Some (a', ell, [])
        else if hd s1 \<noteq> CHR '':'' \<or> length s1 = 1 then None
        else if hd (tl s1) \<noteq> CHR '':'' then parseIPv6_loop r a' ell (tl s1)
        else if ell \<noteq> None then None
        else if tl (tl s1) = [] then Some (a', Some (length a'), [])
        else parseIPv6_loop r a' (Some (length a')) (tl (tl s1)))"

definition parseIPv6 :: "string \<Rightarrow> ip option" where
  "parseIPv6 s =
     (let lead = take 2 s = ''::'';
          t = (if lead then drop 2 s else s)
      in if lead \<and> t = [] then Some (replicate 16 0)
         else case parseIPv6_loop 8 [] (if lead then Some 0 else None) t of
           None \<Rightarrow> None
         | Some (a, ell, rest) \<Rightarrow>
             if rest \<noteq> [] then None
             else if length a < 16 then
               (case ell of None \<Rightarrow> None
                | Some e \<Rightarrow> Some (take e a @ replicate (16 - length a) 0 @ drop e a))
             else if ell \<noteq> None then None
             else Some a)"

fun ParseIP_at :: "string \<Rightarrow> string \<Rightarrow> ip option" where
  "ParseIP_at s [] = None"
| "ParseIP_at s (c # cs) =
     (if c = CHR ''.'' then parseIPv4 s
      else if c = CHR '':'' then parseIPv6 s
      else ParseIP_at s cs)"

definition ParseIP :: "string \<Rightarrow> ip" where
  "ParseIP s = (case ParseIP_at s s of None \<Rightarrow> [] | Some a \<Rightarrow> a)"

section \<open>Networks\<close>

record ipnet =
  net_IP :: ip
  net_Mask :: "byte list"

definition CIDRMask :: "nat \<Rightarrow> nat \<Rightarrow> byte list" where
  "CIDRMask ones bits =
     (if (bits = 32 \<or> bits = 128) \<and> ones \<le> bits then
        map (\<lambda>i. if 8 * i + 8 \<le> ones then 255
                 else if 8 * i \<ge> ones then 0
                 else NOT (drop_bit (ones - 8 * i) 255)) [0..<bits div 8]
      else [])"

definition IP_Mask :: "ip \<Rightarrow> byte list \<Rightarrow> ip" where
  "IP_Mask a mk =
     (let m = (if length mk = 16 \<and> length a = 4 \<and> take 12 mk = replicate 12 255
               then drop 12 mk else mk);
          x = (if length m = 4 \<and> length a = 16 \<and> take 12 a = v4InV6Prefix then drop 12 a else a)
      in if length x \<noteq> length m then [] else map2 (AND) x m)"

definition networkNumberAndMask :: "ipnet \<Rightarrow> ip \<times> byte list" where
  "networkNumberAndMask n =
     (let a = (if To4 (net_IP n) \<noteq> [] then To4 (net_IP n) else net_IP n); m = net_Mask n in
      if length a \<noteq> 4 \<and> length a \<noteq> 16 then ([], [])
      else if length m = 4 then (if length a = 4 then (a, m) else ([], []))
      else if length m = 16 then (a, if length a = 4 then drop 12 m else m)
      else ([], []))"

definition IPNet_Contains :: "ipnet \<Rightarrow> ip \<Rightarrow> bool" where
  "IPNet_Contains n a =
     (let (nn, m) = networkNumberAndMask n;
          x = (if To4 a \<noteq> [] then To4 a else a)
      in length x = length nn \<and>
         list_all (\<lambda>i. nn ! i AND m ! i = x ! i AND m ! i) [0..<length x])"

definition ParseCIDR :: "string \<Rightarrow> (go_error, ip \<times> ipnet) outcome" where
  "ParseCIDR s =
     (let bad = Err (ErrText (''invalid CIDR address: '' @ s));
          addr = takeWhile (\<lambda>c. c \<noteq> CHR ''/'') s;
          mk = drop (Suc (length addr)) s;
          (iplen, a) = (case parseIPv4 addr of
                          Some a \<Rightarrow> (4, a)
                        | None \<Rightarrow> (16, case parseIPv6 addr of Some a \<Rightarrow> a | None \<Rightarrow> []));
          (n, c, ok) = dtoi mk
      in if CHR ''/'' \<notin> set s then bad
         else if a = [] \<or> \<not> ok \<or> c \<noteq> length mk \<or> n > 8 * iplen then bad
         else let m = CIDRMask n (8 * iplen) in
           Ret (a, \<lparr>net_IP = IP_Mask a m, net_Mask = m\<rparr>))"

text \<open>The prefix length of a canonical mask, \<open>None\<close> for any other.\<close>

fun simpleMaskLength :: "byte list \<Rightarrow> nat option" where
  "simpleMaskLength [] = Some 0"
| "simpleMaskLength (v # vs) =
     (if v = 255 then map_option (\<lambda>n. 8 + n) (simpleMaskLength vs)
      else if list_all (\<lambda>w. w = 0) vs then
        find (\<lambda>n. v = NOT (drop_bit n 255)) [0..<8]
      else None)"

definition IPNet_String :: "ipnet \<Rightarrow> string" where
  "IPNet_String n =
     (let (nn, m) = networkNumberAndMask n
      in if nn = [] \<or> m = [] then ''<nil>''
         else case simpleMaskLength m of
           None \<Rightarrow> IP_String nn @ ''/'' @
             concat (map (\<lambda>b. [digit_char (unat b div 16), digit_char (unat b mod 16)]) m)
         | Some l \<Rightarrow> IP_String nn @ ''/'' @ dec l)"

section \<open>Facts\<close>

lemma length_v4InV6Prefix [simp]: "length v4InV6Prefix = 12"
  by (simp add: v4InV6Prefix_def)

lemma To16_length: "length (To16 a) = 16 \<or> To16 a = []"
  by (auto simp: To16_def)

lemma To16_idem [simp]: "To16 (To16 a) = To16 a"
  by (auto simp: To16_def)

lemma To16_16 [simp]: "length a = 16 \<Longrightarrow> To16 a = a"
  by (simp add: To16_def)

lemma To4_of_prefix [simp]: "length x = 4 \<Longrightarrow> To4 (v4InV6Prefix @ x) = x"
  by (simp add: To4_def)

text \<open>Two well-formed addresses are equal to Go when their 16-byte forms are the same.\<close>

lemma IP_Equal_To16:
  assumes "length a = 4 \<or> length a = 16" "length b = 4 \<or> length b = 16"
  shows "IP_Equal a b \<longleftrightarrow> To16 a = To16 b"
  using assms by (auto simp: IP_Equal_def To16_def append_eq_conv_conj) (metis append_take_drop_id)+

lemma IP_Equal_refl [simp]: "IP_Equal a a"
  by (simp add: IP_Equal_def)

lemma IP_Equal_sym: "IP_Equal a b = IP_Equal b a"
  by (auto simp: IP_Equal_def)

lemma stops_at_dot [simp]: "stops_at 10 (CHR ''.'' # s)" "stops_at b []"
  by (simp_all add: stops_at_def is_digit_def digit_val_def)

lemma not_digit_dot: "\<not> is_digit b (CHR ''.'')"
  by (simp add: is_digit_def digit_val_def)

lemma dec_no_dot: "CHR ''.'' \<notin> set (dec n)" "CHR '':'' \<notin> set (dec n)"
  using numeral_in_digits[of 10 "CHR ''.''" n] numeral_in_digits[of 10 "CHR '':''" n]
  by (auto simp: is_digit_def digit_val_def)

lemma dec_leading:
  assumes "1 < length (dec n)" shows "hd (dec n @ s) \<noteq> CHR ''0''"
proof
  assume "hd (dec n @ s) = CHR ''0''"
  then have "n = 0" using hd_numeral_zero[of 10 n] by (simp add: hd_append)
  with assms show False by simp
qed

lemma parseIPv4_octet_first:
  assumes "n < 256" "stops_at 10 s"
  shows "parseIPv4_octets (Suc k) True (dec n @ s) =
    map_option (\<lambda>bs. word_of_nat n # bs) (parseIPv4_octets k False s)"
  using assms dtoi_dec[of n s] dec_leading[of n s] by (auto simp: Let_def)

lemma parseIPv4_octet_next:
  assumes "n < 256" "stops_at 10 s"
  shows "parseIPv4_octets (Suc k) False (CHR ''.'' # dec n @ s) =
    map_option (\<lambda>bs. word_of_nat n # bs) (parseIPv4_octets k False s)"
  using assms dtoi_dec[of n s] dec_leading[of n s] by (auto simp: Let_def)

declare parseIPv4_octets.simps [simp del]

lemma unat_byte_lt [simp]: "unat (b :: byte) < 256"
  using unsigned_less[of b, where ?'a = nat] by simp

lemma parseIPv4_dotted:
  "parseIPv4 (dec (unat a) @ ''.'' @ dec (unat b) @ ''.'' @ dec (unat c) @ ''.'' @ dec (unat d))
   = Some (v4InV6Prefix @ [a, b, c, d])"
proof -
  have last: "parseIPv4_octets (Suc 0) False (CHR ''.'' # dec (unat d)) = Some [d]"
    using parseIPv4_octet_next[of "unat d" "[]" 0] by (simp add: parseIPv4_octets.simps(1))
  have four: "(4 :: nat) = Suc (Suc (Suc (Suc 0)))" by simp
  show ?thesis
    unfolding parseIPv4_def four by (simp add: parseIPv4_octet_first parseIPv4_octet_next last)
qed

lemma ParseIP_at_dot:
  "CHR '':'' \<notin> set p \<Longrightarrow> CHR ''.'' \<notin> set p \<Longrightarrow> ParseIP_at s (p @ CHR ''.'' # r) = parseIPv4 s"
  by (induction p) auto

text \<open>Printing an IPv4 address and parsing it gives its 16-byte form back.\<close>

lemma ParseIP_String_v4:
  assumes "length x = 4"
  shows "ParseIP (IP_String (v4InV6Prefix @ x)) = v4InV6Prefix @ x"
    and "ParseIP (IP_String x) = v4InV6Prefix @ x"
proof -
  obtain a b c d where x: "x = [a, b, c, d]"
    using assms by (auto simp: length_Suc_conv numeral_eq_Suc)
  let ?s = "dec (unat a) @ ''.'' @ dec (unat b) @ ''.'' @ dec (unat c) @ ''.'' @ dec (unat d)"
  have p: "ParseIP ?s = v4InV6Prefix @ x"
    using ParseIP_at_dot[of "dec (unat a)" ?s] dec_no_dot[of "unat a"] parseIPv4_dotted[of a b c d] x
    by (simp add: ParseIP_def)
  have "IP_String x = ?s" "IP_String (v4InV6Prefix @ x) = ?s"
    using x To4_of_prefix[of x] by (simp_all add: IP_String_def To4_def v4InV6Prefix_def)
  with p show "ParseIP (IP_String (v4InV6Prefix @ x)) = v4InV6Prefix @ x"
    and "ParseIP (IP_String x) = v4InV6Prefix @ x" by simp_all
qed

section \<open>Addresses as numbers\<close>

text \<open>The big-endian value of a byte sequence: what comparing addresses byte by byte compares.\<close>

fun nat_of_bytes :: "byte list \<Rightarrow> nat" where
  "nat_of_bytes [] = 0"
| "nat_of_bytes (b # bs) = unat b * 256 ^ length bs + nat_of_bytes bs"

lemma nat_of_bytes_bound: "nat_of_bytes bs < 256 ^ length bs"
proof (induction bs)
  case (Cons b bs)
  have "unat b \<le> 255" using unat_byte_lt[of b] by linarith
  then have "unat b * 256 ^ length bs \<le> 255 * 256 ^ length bs" by (rule mult_right_mono) simp
  moreover have "(256 :: nat) ^ length (b # bs) = 256 * 256 ^ length bs" by simp
  ultimately show ?case using Cons unfolding nat_of_bytes.simps by linarith
qed simp

lemma nat_of_bytes_append:
  "nat_of_bytes (xs @ ys) = nat_of_bytes xs * 256 ^ length ys + nat_of_bytes ys"
  by (induction xs) (auto simp: algebra_simps power_add)

lemma nat_of_bytes_inj:
  "length xs = length ys \<Longrightarrow> nat_of_bytes xs = nat_of_bytes ys \<Longrightarrow> xs = ys"
proof (induction xs ys rule: list_induct2)
  case (Cons x xs y ys)
  let ?p = "256 ^ length ys :: nat"
  have b: "nat_of_bytes xs < ?p" "nat_of_bytes ys < ?p"
    using nat_of_bytes_bound[of xs] nat_of_bytes_bound[of ys] Cons.hyps by auto
  have eq: "unat x * ?p + nat_of_bytes xs = unat y * ?p + nat_of_bytes ys"
    using Cons.prems Cons.hyps by simp
  have "(unat x * ?p + nat_of_bytes xs) div ?p = unat x"
    "(unat y * ?p + nat_of_bytes ys) div ?p = unat y" using b by simp_all
  with eq have xy: "unat x = unat y" by simp
  with eq have "nat_of_bytes xs = nat_of_bytes ys" by simp
  with xy Cons.IH show ?case by (simp add: word_unat_eq_iff)
qed simp

lemma nat_of_bytes_Cons_le:
  assumes "length xs = length ys"
  shows "nat_of_bytes (x # xs) \<le> nat_of_bytes (y # ys) \<longleftrightarrow>
    x < y \<or> (x = y \<and> nat_of_bytes xs \<le> nat_of_bytes ys)"
proof -
  let ?p = "256 ^ length ys :: nat"
  have b: "nat_of_bytes xs < ?p" "nat_of_bytes ys < ?p"
    using nat_of_bytes_bound[of xs] nat_of_bytes_bound[of ys] assms by auto
  have lt: "unat u * ?p + m < unat v * ?p + n" if "u < v" "m < ?p" for u v :: byte and m n
  proof -
    have "Suc (unat u) * ?p \<le> unat v * ?p"
      using that by (intro mult_right_mono) (auto simp: word_less_nat_alt)
    with that show ?thesis by simp
  qed
  show ?thesis
  proof (cases x y rule: linorder_cases)
    case less
    with lt[OF less b(1), of "nat_of_bytes ys"] assms show ?thesis by simp
  next
    case equal
    with assms show ?thesis by simp
  next
    case greater
    with lt[OF greater b(2), of "nat_of_bytes xs"] assms show ?thesis by auto
  qed
qed

section \<open>Networks are intervals of addresses\<close>

text \<open>A canonical mask: ones, then at most one partial byte, then zeros.\<close>

fun prefix_mask :: "byte list \<Rightarrow> bool" where
  "prefix_mask [] = True"
| "prefix_mask (m # ms) =
     (if m = 255 then prefix_mask ms
      else (\<exists>k \<le> 8. m = NOT (drop_bit k 255)) \<and> list_all (\<lambda>w. w = 0) ms)"

lemma and_prefix_byte: "unat (x AND NOT (drop_bit k (255 :: byte))) = unat x - unat x mod 2 ^ (8 - k)"
proof -
  have "drop_bit k (mask 8 :: byte) = mask (8 - k)" by (rule bit_word_eqI) (auto simp: bit_simps)
  then have m: "drop_bit k (255 :: byte) = mask (8 - k)" by (simp add: mask_eq_exp_minus_1)
  have "x - take_bit (8 - k) x = x AND NOT (take_bit (8 - k) x)"
    by (rule disjunctive_diff_eq_and_not) (auto simp: bit_eq_iff bit_simps)
  also have "\<dots> = x AND NOT (mask (8 - k))" by (auto simp: bit_eq_iff bit_simps)
  finally have "x AND NOT (mask (8 - k)) = x - take_bit (8 - k) x" by simp
  moreover have u: "unat (take_bit (8 - k) x) = unat x mod 2 ^ (8 - k)"
    unfolding unsigned_take_bit_eq by (rule take_bit_eq_mod)
  moreover have "take_bit (8 - k) x \<le> x" by (simp only: word_le_nat_alt u mod_less_eq_dividend)
  ultimately show ?thesis
    using m by (simp only: unat_sub)
qed

lemma and_prefix_byte_convex:
  assumes "a \<le> x" "x \<le> b" "a AND m = b AND m" "m = NOT (drop_bit k (255 :: byte))"
  shows "x AND m = a AND m"
proof -
  let ?p = "2 ^ (8 - k) :: nat"
  have eq: "unat a - unat a mod ?p = unat b - unat b mod ?p"
    using assms and_prefix_byte[of a k] and_prefix_byte[of b k] by simp
  have le: "unat a \<le> unat x" "unat x \<le> unat b" using assms by (auto simp: word_le_nat_alt)
  have "unat a div ?p * ?p = unat b div ?p * ?p" using eq by (simp add: minus_mod_eq_div_mult)
  then have "unat a div ?p = unat b div ?p" by simp
  moreover have "unat a div ?p \<le> unat x div ?p" "unat x div ?p \<le> unat b div ?p"
    using le by (auto intro: div_le_mono)
  ultimately have "unat x div ?p = unat a div ?p" by linarith
  then have "unat x - unat x mod ?p = unat a - unat a mod ?p" by (simp add: minus_mod_eq_div_mult)
  then show ?thesis
    unfolding assms(4) word_unat_eq_iff and_prefix_byte .
qed

text \<open>
  Under a canonical mask, two sequences that agree enclose, byte by byte, only sequences that agree
  with them.
\<close>

lemma prefix_mask_convex:
  assumes "prefix_mask m" "length a = length m" "length x = length m" "length b = length m"
    "nat_of_bytes a \<le> nat_of_bytes x" "nat_of_bytes x \<le> nat_of_bytes b"
    "map2 (AND) a m = map2 (AND) b m"
  shows "map2 (AND) x m = map2 (AND) a m"
  using assms
proof (induction m arbitrary: a x b)
  case (Cons m ms)
  obtain a0 as x0 xs b0 bs where c: "a = a0 # as" "x = x0 # xs" "b = b0 # bs"
    using Cons.prems by (metis length_Suc_conv)
  have lens: "length as = length ms" "length xs = length ms" "length bs = length ms"
    using Cons.prems c by auto
  have ax: "a0 < x0 \<or> a0 = x0 \<and> nat_of_bytes as \<le> nat_of_bytes xs"
    and xb: "x0 < b0 \<or> x0 = b0 \<and> nat_of_bytes xs \<le> nat_of_bytes bs"
    using Cons.prems(5,6) c lens nat_of_bytes_Cons_le[of as xs a0 x0] nat_of_bytes_Cons_le[of xs bs x0 b0]
    by (simp_all del: nat_of_bytes.simps)
  have hd: "a0 AND m = b0 AND m" and tl: "map2 (AND) as ms = map2 (AND) bs ms"
    using Cons.prems(7) c by auto
  show ?case
  proof (cases "m = 255")
    case True
    have "(255 :: byte) = - 1" by simp
    then have full: "w AND 255 = w" for w :: byte by (simp only: and.right_neutral)
    have "a0 = b0" using hd True full by simp
    then have "x0 = a0" "nat_of_bytes as \<le> nat_of_bytes xs" "nat_of_bytes xs \<le> nat_of_bytes bs"
      using ax xb by auto
    with Cons.IH[of as xs bs] Cons.prems(1) lens tl True c show ?thesis by simp
  next
    case False
    then obtain k where k: "m = NOT (drop_bit k 255)" and z: "list_all (\<lambda>w. w = 0) ms"
      using Cons.prems(1) by auto
    have zeros: "map2 (AND) us ms = replicate (length ms) 0" if "length us = length ms" for us
      using that z by (induction us ms rule: list_induct2) auto
    have "a0 \<le> x0" "x0 \<le> b0" using ax xb by auto
    then have "x0 AND m = a0 AND m" using hd k by (rule and_prefix_byte_convex)
    with zeros lens c show ?thesis by simp
  qed
qed simp

text \<open>What \<^verbatim>\<open>ParseCIDR\<close> returns: a network of four or sixteen bytes under a canonical mask.\<close>

definition cidr_ok :: "ipnet \<Rightarrow> bool" where
  "cidr_ok n \<longleftrightarrow> prefix_mask (net_Mask n) \<and> length (net_IP n) = length (net_Mask n) \<and>
     (length (net_Mask n) = 4 \<or> length (net_Mask n) = 16)"

lemma prefix_mask_drop: "prefix_mask m \<Longrightarrow> prefix_mask (drop k m)"
proof (induction m arbitrary: k)
  case (Cons m ms)
  have zeros: "list_all (\<lambda>w. w = 0) ws \<Longrightarrow> prefix_mask ws" for ws :: "byte list"
    by (induction ws) (auto intro!: exI[of _ 0])
  with Cons show ?case
    by (cases k) (auto split: if_splits simp: list_all_iff dest: in_set_dropD)
qed simp

lemma prefix_mask_ones: "prefix_mask m \<Longrightarrow> prefix_mask (replicate k 255 @ m)"
  by (induction k) auto

lemma length_CIDRMask:
  "bits = 32 \<or> bits = 128 \<Longrightarrow> ones \<le> bits \<Longrightarrow> length (CIDRMask ones bits) = bits div 8"
  by (simp add: CIDRMask_def)

lemma prefix_mask_CIDRMask: "prefix_mask (CIDRMask ones bits)"
proof -
  let ?f = "\<lambda>i. if 8 * i + 8 \<le> ones then 255 else if 8 * i \<ge> ones then 0
                 else NOT (drop_bit (ones - 8 * i) (255 :: byte))"
  have "prefix_mask (map ?f [i..<i + n])" for i n
  proof (induction n arbitrary: i)
    case (Suc n)
    have up: "[i..<i + Suc n] = i # [Suc i..<Suc i + n]" by (simp add: upt_rec)
    have "\<exists>k \<le> 8. ?f i = NOT (drop_bit k 255)" if "\<not> 8 * i + 8 \<le> ones"
      using that by (cases "8 * i \<ge> ones") (auto intro: exI[of _ "ones - 8 * i"] exI[of _ 0])
    moreover have "list_all (\<lambda>w. w = 0) (map ?f [Suc i..<Suc i + n])" if "\<not> 8 * i + 8 \<le> ones"
      using that by (auto simp: list_all_iff)
    ultimately show ?case using Suc[of "Suc i"] unfolding up by (cases "8 * i + 8 \<le> ones") auto
  qed simp
  from this[of 0 "bits div 8"] show ?thesis by (simp add: CIDRMask_def)
qed

lemma parseIPv4_length: "parseIPv4 s = Some a \<Longrightarrow> length a = 16"
proof -
  have "parseIPv4_octets k first t = Some bs \<Longrightarrow> length bs = k" for k first t bs
    by (induction k arbitrary: first t bs)
      (auto simp: parseIPv4_octets.simps Let_def split: if_splits prod.splits)
  then show "parseIPv4 s = Some a \<Longrightarrow> length a = 16" by (auto simp: parseIPv4_def)
qed

lemma parseIPv6_loop_length:
  "parseIPv6_loop r a ell s = Some (a', ell', rest) \<Longrightarrow> length a + 2 * r = 16 \<Longrightarrow>
     (\<forall>e. ell = Some e \<longrightarrow> e \<le> length a) \<Longrightarrow>
     length a' \<le> 16 \<and> (\<forall>e. ell' = Some e \<longrightarrow> e \<le> length a')"
proof (induction r arbitrary: a ell s)
  case (Suc r)
  obtain n c ok where x: "xtoi s = (n, c, ok)" by (cases "xtoi s")
  let ?a = "a @ [word_of_nat (n div 256), word_of_nat (n mod 256)]" and ?s = "drop c s"
  have le: "\<forall>e. ell = Some e \<longrightarrow> e \<le> length ?a" using Suc.prems(3) by auto
  have len: "length ?a + 2 * r = 16" using Suc.prems(2) by auto
  consider (v4) ip4 where "parseIPv4 s = Some ip4" "length a + 4 \<le> 16" "a' = a @ drop 12 ip4" "ell' = ell"
    | (stop) "a' = ?a" "ell' = ell"
    | (rec) "parseIPv6_loop r ?a ell (tl ?s) = Some (a', ell', rest)"
    | (ell_end) "a' = ?a" "ell' = Some (length ?a)"
    | (ell_rec) "parseIPv6_loop r ?a (Some (length ?a)) (tl (tl ?s)) = Some (a', ell', rest)"
    using Suc.prems(1) by (simp add: x Let_def split: if_splits) auto
  then show ?case
  proof cases
    case v4
    with Suc.prems(3) show ?thesis by (auto simp: parseIPv4_length)
  next
    case stop
    with len le show ?thesis by simp
  next
    case rec
    from Suc.IH[OF rec len le] show ?thesis .
  next
    case ell_end
    with len show ?thesis by simp
  next
    case ell_rec
    from Suc.IH[OF ell_rec len] show ?thesis by simp
  qed
qed auto

lemma parseIPv6_length:
  assumes "parseIPv6 s = Some a" shows "length a = 16"
proof (cases "take 2 s = ''::'' \<and> drop 2 s = []")
  case True
  with assms show ?thesis by (auto simp: parseIPv6_def)
next
  case False
  let ?e = "if take 2 s = ''::'' then Some 0 else None"
  let ?t = "if take 2 s = ''::'' then drop 2 s else s"
  obtain b ell rest where r: "parseIPv6_loop 8 [] ?e ?t = Some (b, ell, rest)"
    using assms False by (auto simp: parseIPv6_def Let_def split: option.splits if_splits)
  then have "length b \<le> 16" "\<forall>e. ell = Some e \<longrightarrow> e \<le> length b"
    using parseIPv6_loop_length[OF r] by auto
  then show ?thesis
    using assms False r by (auto simp: parseIPv6_def Let_def min_def split: option.splits if_splits)
qed

lemma ParseIP_length: "ParseIP s = [] \<or> length (ParseIP s) = 16"
proof -
  have "ParseIP_at s t = Some a \<Longrightarrow> length a = 16" for t a
    by (induction t) (auto split: if_splits dest: parseIPv4_length parseIPv6_length)
  then show ?thesis by (auto simp: ParseIP_def split: option.splits)
qed

lemma ParseCIDR_ok:
  assumes "ParseCIDR s = Ret (a, n)" shows "cidr_ok n"
proof -
  have "\<exists>iplen b k. n = \<lparr>net_IP = IP_Mask b (CIDRMask k (8 * iplen)), net_Mask = CIDRMask k (8 * iplen)\<rparr> \<and>
      k \<le> 8 * iplen \<and>
      (iplen = 4 \<and> (\<exists>t. parseIPv4 t = Some b) \<or> iplen = 16 \<and> (\<exists>t. parseIPv6 t = Some b))"
  (is "\<exists>iplen b k. ?P iplen b k")
  proof (cases "parseIPv4 (takeWhile (\<lambda>c. c \<noteq> CHR ''/'') s)")
    case None
    with assms have "?P 16 a (fst (dtoi (drop (Suc (length (takeWhile (\<lambda>c. c \<noteq> CHR ''/'') s))) s)))"
      by (auto simp: ParseCIDR_def Let_def split: if_splits prod.splits option.splits)
    then show ?thesis by blast
  next
    case (Some b)
    with assms have "?P 4 a (fst (dtoi (drop (Suc (length (takeWhile (\<lambda>c. c \<noteq> CHR ''/'') s))) s)))"
      by (auto simp: ParseCIDR_def Let_def split: if_splits prod.splits)
    then show ?thesis by blast
  qed
  then obtain iplen b k where n: "n = \<lparr>net_IP = IP_Mask b (CIDRMask k (8 * iplen)), net_Mask = CIDRMask k (8 * iplen)\<rparr>"
    and k: "k \<le> 8 * iplen"
    and b: "iplen = 4 \<and> (\<exists>t. parseIPv4 t = Some b) \<or> iplen = 16 \<and> (\<exists>t. parseIPv6 t = Some b)" by blast
  from b have len: "length (CIDRMask k (8 * iplen)) = iplen" "iplen = 4 \<or> iplen = 16"
    using k by (auto simp: length_CIDRMask)
  from b have "length (IP_Mask b (CIDRMask k (8 * iplen))) = iplen"
  proof (elim disjE conjE exE)
    fix t assume i: "iplen = 4" and p: "parseIPv4 t = Some b"
    then have "length b = 16 \<and> take 12 b = v4InV6Prefix"
      by (auto simp: parseIPv4_length) (auto simp: parseIPv4_def)
    with len i show ?thesis by (simp add: IP_Mask_def Let_def)
  next
    fix t assume i: "iplen = 16" and p: "parseIPv6 t = Some b"
    with len parseIPv6_length[OF p] show ?thesis by (simp add: IP_Mask_def Let_def)
  qed
  with len n show ?thesis by (auto simp: cidr_ok_def prefix_mask_CIDRMask)
qed

text \<open>
  Membership in a network, seen on 16-byte addresses: same family, and agreement under a canonical
  16-byte mask.
\<close>

lemma contains_bytes:
  assumes "length nn = length m" "length x = length m"
  shows "list_all (\<lambda>i. nn ! i AND m ! i = x ! i AND m ! i) [0..<length x] \<longleftrightarrow>
    map2 (AND) x m = map2 (AND) nn m"
proof -
  have "map2 (AND) x m = map2 (AND) nn m \<longleftrightarrow> (\<forall>i < length m. map2 (AND) x m ! i = map2 (AND) nn m ! i)"
    using assms by (simp only: list_eq_iff_nth_eq) simp
  also have "\<dots> \<longleftrightarrow> (\<forall>i < length m. nn ! i AND m ! i = x ! i AND m ! i)"
    using assms by (intro all_cong) (simp, metis)
  also have "\<dots> \<longleftrightarrow> list_all (\<lambda>i. nn ! i AND m ! i = x ! i AND m ! i) [0..<length x]"
    using assms(2) by (simp only: list_all_iff set_upt atLeast0LessThan lessThan_iff Ball_def)
  finally show ?thesis by (rule sym)
qed

lemma IPNet_Contains_16:
  assumes "cidr_ok n"
  shows "\<exists>net m v4. length net = 16 \<and> length m = 16 \<and> prefix_mask m \<and>
    (\<forall>x. length x = 16 \<longrightarrow>
      (IPNet_Contains n x \<longleftrightarrow> (To4 x \<noteq> []) = v4 \<and> map2 (AND) x m = map2 (AND) net m))"
proof -
  obtain nn mm where nm: "networkNumberAndMask n = (nn, mm)" by fastforce
  have L: "length nn = length mm" "length nn = 4 \<or> length nn = 16" "prefix_mask mm"
    using assms nm by (auto simp: networkNumberAndMask_def cidr_ok_def To4_def Let_def prefix_mask_drop split: if_splits)
  have C: "IPNet_Contains n x \<longleftrightarrow> length (if To4 x \<noteq> [] then To4 x else x) = length nn \<and>
      map2 (AND) (if To4 x \<noteq> [] then To4 x else x) mm = map2 (AND) nn mm" for x
    using L contains_bytes[of nn mm "if To4 x \<noteq> [] then To4 x else x"]
    by (auto simp: IPNet_Contains_def nm Let_def)
  show ?thesis
  proof (cases "length nn = 4")
    case True
    have "IPNet_Contains n x \<longleftrightarrow> (To4 x \<noteq> []) = True \<and>
        map2 (AND) x (replicate 12 255 @ mm) = map2 (AND) (v4InV6Prefix @ nn) (replicate 12 255 @ mm)"
      if "length x = 16" for x
    proof (cases "take 12 x = v4InV6Prefix")
      case pre: True
      have split: "x = v4InV6Prefix @ drop 12 x" using pre append_take_drop_id[of 12 x] by simp
      have "map2 (AND) (v4InV6Prefix @ drop 12 x) (replicate 12 255 @ mm)
          = map2 (AND) v4InV6Prefix (replicate 12 255) @ map2 (AND) (drop 12 x) mm" by simp
      then have two: "map2 (AND) x (replicate 12 255 @ mm)
          = map2 (AND) v4InV6Prefix (replicate 12 255) @ map2 (AND) (drop 12 x) mm" using split by simp
      have "To4 x = drop 12 x" "drop 12 x \<noteq> []" using that pre by (auto simp: To4_def)
      then show ?thesis using C[of x] True L that unfolding two by simp
    next
      case False
      then show ?thesis using C[of x] True that by (auto simp: To4_def)
    qed
    with True L prefix_mask_ones show ?thesis
      by (intro exI[of _ "v4InV6Prefix @ nn"] exI[of _ "replicate 12 255 @ mm"] exI[of _ True]) auto
  next
    case False
    then have "length nn = 16" using L by auto
    with C L show ?thesis
      by (intro exI[of _ nn] exI[of _ mm] exI[of _ False]) (auto simp: To4_def)
  qed
qed

lemma IPNet_Contains_convex:
  assumes "cidr_ok n" "length a = 16" "length x = 16" "length b = 16"
    "nat_of_bytes a \<le> nat_of_bytes x" "nat_of_bytes x \<le> nat_of_bytes b"
    "IPNet_Contains n a" "IPNet_Contains n b" "(To4 x = []) = (To4 a = [])"
  shows "IPNet_Contains n x"
proof -
  obtain net m v4 where m: "length net = 16" "length m = 16" "prefix_mask m"
    and C: "\<And>y. length y = 16 \<Longrightarrow>
      IPNet_Contains n y \<longleftrightarrow> (To4 y \<noteq> []) = v4 \<and> map2 (AND) y m = map2 (AND) net m"
    using IPNet_Contains_16[OF assms(1)] by (elim exE conjE) (rule that, auto)
  have ab: "map2 (AND) a m = map2 (AND) net m" "map2 (AND) b m = map2 (AND) net m"
    using C[of a] C[of b] assms by auto
  then have "map2 (AND) x m = map2 (AND) a m"
    using prefix_mask_convex[OF m(3), of a x b] assms m by simp
  then show ?thesis using C[of a] C[of x] assms by auto
qed

text \<open>Between two IPv4 addresses there are only IPv4 addresses.\<close>

lemma To4_between:
  assumes "length a = 16" "length x = 16" "length b = 16"
    "nat_of_bytes a \<le> nat_of_bytes x" "nat_of_bytes x \<le> nat_of_bytes b"
    "To4 a \<noteq> []" "To4 b \<noteq> []"
  shows "To4 x \<noteq> []"
proof -
  have hi: "nat_of_bytes (take 12 y) = nat_of_bytes y div 256 ^ 4" if "length y = 16" for y
  proof -
    have "nat_of_bytes y = nat_of_bytes (take 12 y) * 256 ^ 4 + nat_of_bytes (drop 12 y)"
      using that nat_of_bytes_append[of "take 12 y" "drop 12 y"] by simp
    moreover have "nat_of_bytes (drop 12 y) < 256 ^ 4"
      using that nat_of_bytes_bound[of "drop 12 y"] by simp
    ultimately show ?thesis by simp
  qed
  have pre: "take 12 a = v4InV6Prefix" "take 12 b = v4InV6Prefix"
    using assms by (auto simp: To4_def split: if_splits)
  have "nat_of_bytes (take 12 a) \<le> nat_of_bytes (take 12 x)" "nat_of_bytes (take 12 x) \<le> nat_of_bytes (take 12 b)"
    using assms by (simp_all add: hi div_le_mono)
  then have "nat_of_bytes (take 12 x) = nat_of_bytes v4InV6Prefix" using pre by simp
  then have "take 12 x = v4InV6Prefix" using assms by (intro nat_of_bytes_inj) auto
  with assms show ?thesis by (auto simp: To4_def)
qed

lemma IPNet_Contains_nil: "cidr_ok n \<Longrightarrow> \<not> IPNet_Contains n []"
  by (auto simp: IPNet_Contains_def networkNumberAndMask_def cidr_ok_def To4_def Let_def split: if_splits)

end
