(* ===== verification/Ip_Trie.thy ===== *)
theory Ip_Trie
  imports Go_Net
begin

text \<open>
  The trie of addresses of \<^verbatim>\<open>internal/ipam/simple.go\<close>: \<^verbatim>\<open>ipNode\<close>, \<^verbatim>\<open>ipTrie\<close>, \<^verbatim>\<open>newIPTrie\<close>,
  \<^verbatim>\<open>Insert\<close> and \<^verbatim>\<open>Contains\<close>. It implements a set of byte sequences: the locale
  \<open>address_index\<close> states that contract, its client facts are proved there once, and the
  interpretation \<open>trie\<close> discharges it for the code's trie.
\<close>

section \<open>The trie\<close>

datatype ipNode = IpNode (children: "byte \<Rightarrow> ipNode option") (isEnd: bool)

record ipTrie =
  trie_root :: ipNode

definition emptyNode :: ipNode where
  "emptyNode = IpNode (\<lambda>_. None) False"

definition newIPTrie :: ipTrie where
  "newIPTrie = \<lparr>trie_root = emptyNode\<rparr>"

fun node_insert :: "ip \<Rightarrow> ipNode \<Rightarrow> ipNode" where
  "node_insert [] (IpNode m e) = IpNode m True"
| "node_insert (b # bs) (IpNode m e) =
     IpNode (m(b := Some (node_insert bs (case m b of None \<Rightarrow> emptyNode | Some n \<Rightarrow> n)))) e"

definition ipTrie_Insert :: "ip \<Rightarrow> ipTrie \<Rightarrow> ipTrie" where
  "ipTrie_Insert a t = t\<lparr>trie_root := node_insert a (trie_root t)\<rparr>"

fun node_contains :: "ipNode \<Rightarrow> ip \<Rightarrow> bool" where
  "node_contains (IpNode m e) [] = e"
| "node_contains (IpNode m e) (b # bs) =
     (case m b of None \<Rightarrow> False | Some n \<Rightarrow> node_contains n bs)"

definition ipTrie_Contains :: "ipTrie \<Rightarrow> ip \<Rightarrow> bool" where
  "ipTrie_Contains t a = node_contains (trie_root t) (To16 a)"

section \<open>The contract: a set of addresses\<close>

locale address_index =
  fixes empty_ix :: "'t"
    and insert_ix :: "ip \<Rightarrow> 't \<Rightarrow> 't"
    and has_ix :: "'t \<Rightarrow> ip \<Rightarrow> bool"
    and content :: "'t \<Rightarrow> ip set"
  assumes content_empty: "content empty_ix = {}"
    and content_insert: "content (insert_ix a t) = insert a (content t)"
    and has_content: "has_ix t a \<longleftrightarrow> To16 a \<in> content t"
begin

text \<open>Inserting the addresses of a list one after the other.\<close>

lemma content_fold: "content (fold insert_ix as t) = set as \<union> content t"
  by (induction as arbitrary: t) (auto simp: content_insert)

lemma has_fold: "has_ix (fold insert_ix as empty_ix) a \<longleftrightarrow> To16 a \<in> set as"
  by (simp add: has_content content_fold content_empty)

end

section \<open>The trie satisfies it\<close>

definition trie_content :: "ipTrie \<Rightarrow> ip set" where
  "trie_content t = {a. node_contains (trie_root t) a}"

lemma node_contains_empty [simp]: "\<not> node_contains emptyNode a"
  by (cases a) (auto simp: emptyNode_def)

lemma node_contains_insert:
  "node_contains (node_insert a n) x \<longleftrightarrow> x = a \<or> node_contains n x"
proof (induction a n arbitrary: x rule: node_insert.induct)
  case (1 m e)
  show ?case by (cases x) auto
next
  case (2 b bs m e)
  then show ?case by (cases x) (auto split: option.splits)
qed

interpretation trie: address_index newIPTrie ipTrie_Insert ipTrie_Contains trie_content
  by unfold_locales
    (auto simp: trie_content_def newIPTrie_def ipTrie_Insert_def ipTrie_Contains_def node_contains_insert)

text \<open>
  C28. After inserting any sequence of addresses into a new trie, \<^verbatim>\<open>Contains\<close> answers exactly
  whether the 16-byte form of the address asked for is one of them: the trie is the set.
\<close>

theorem trie_refines_set:
  "ipTrie_Contains (fold ipTrie_Insert as newIPTrie) a \<longleftrightarrow> To16 a \<in> set as"
  by (rule trie.has_fold)

end
