(* ===== verification/Externals.thy ===== *)
theory Externals
  imports Go_Net "HOL-Library.AList"
begin

text \<open>
  What the program calls and is not in the repository, as records of functions the definitions
  take as arguments: the netlink handle of one link (\<^verbatim>\<open>github.com/vishvananda/netlink\<close>), the
  key-value store (\<^verbatim>\<open>rosedb\<close>), and the configuration reader (\<^verbatim>\<open>koanf\<close>). The state behind each is a
  type variable. Their documented behaviour is stated as named predicates.
\<close>

section \<open>The netlink handle of the external link\<close>

text \<open>A \<^verbatim>\<open>netlink.Addr\<close> embeds a \<^verbatim>\<open>net.IPNet\<close>; the program reads and sets nothing else of it.\<close>

type_synonym addr = ipnet

record 'l nl_handle =
  AddrList :: "'l \<Rightarrow> addr list \<times> go_error option"
  AddrAdd :: "addr \<Rightarrow> 'l \<Rightarrow> go_error option \<times> 'l"
  AddrDel :: "addr \<Rightarrow> 'l \<Rightarrow> go_error option \<times> 'l"
  Addr_Equal :: "addr \<Rightarrow> addr \<Rightarrow> bool"

text \<open>
  Documented behaviour of a link's addresses: a list is complete unless it comes with an error, an address is added when the call succeeds, an equal
  address (same IP, same prefix) is removed when a delete succeeds, and a failed call changes nothing.
\<close>

definition link_laws :: "'l nl_handle \<Rightarrow> ('l \<Rightarrow> addr list) \<Rightarrow> bool" where
  "link_laws h as \<longleftrightarrow>
     (\<forall>l xs. AddrList h l = (xs, None) \<longrightarrow> xs = as l) \<and>
     (\<forall>l xs e. AddrList h l = (xs, e) \<longrightarrow> set xs \<subseteq> set (as l)) \<and>
     (\<forall>a l l'. AddrAdd h a l = (None, l') \<longrightarrow> as l' = as l @ [a]) \<and>
     (\<forall>a l e l'. AddrAdd h a l = (Some e, l') \<longrightarrow> as l' = as l) \<and>
     (\<forall>a l l'. AddrDel h a l = (None, l') \<longrightarrow>
        as l' = filter (\<lambda>x. \<not> Addr_Equal h a x) (as l) \<and> (\<exists>x \<in> set (as l). Addr_Equal h a x)) \<and>
     (\<forall>a l e l'. AddrDel h a l = (Some e, l') \<longrightarrow> as l' = as l) \<and>
     (\<forall>a b. Addr_Equal h a b \<longleftrightarrow> IP_Equal (net_IP a) (net_IP b) \<and> net_Mask a = net_Mask b)"

section \<open>The configuration\<close>

text \<open>\<^verbatim>\<open>koanf.MustString\<close> of the loaded configuration: the value at a path, or its panic.\<close>

type_synonym config = "string \<Rightarrow> (go_error, string) outcome"

section \<open>The key-value store\<close>

text \<open>
  \<^verbatim>\<open>rosedb.DB\<close> with the stored documents as values of type \<open>'j\<close>: \<^verbatim>\<open>Get\<close>, \<^verbatim>\<open>Put\<close>, \<^verbatim>\<open>Delete\<close>, and the
  values an iterator over the whole store visits, in its order.
\<close>

record ('d, 'j) kv_db =
  db_Get :: "string \<Rightarrow> 'd \<Rightarrow> go_error + 'j"
  db_Put :: "string \<Rightarrow> 'j \<Rightarrow> 'd \<Rightarrow> go_error option \<times> 'd"
  db_Delete :: "string \<Rightarrow> 'd \<Rightarrow> go_error option \<times> 'd"
  db_Values :: "'d \<Rightarrow> (go_error + 'j) list"

text \<open>
  Documented behaviour, over a view of the store as a map: \<^verbatim>\<open>Get\<close> finds the stored document or
  reports \<^verbatim>\<open>ErrKeyNotFound\<close> (any other error says nothing), a successful \<^verbatim>\<open>Put\<close> or \<^verbatim>\<open>Delete\<close> changes
  one key, a failed one none, and an iteration without errors visits every document once.
\<close>

definition db_laws :: "('d, 'j) kv_db \<Rightarrow> ('d \<Rightarrow> string \<Rightarrow> 'j option) \<Rightarrow> bool" where
  "db_laws db m \<longleftrightarrow>
     (\<forall>k d v. db_Get db k d = Inr v \<longrightarrow> m d k = Some v) \<and>
     (\<forall>k d. db_Get db k d = Inl ErrKeyNotFound \<longrightarrow> m d k = None) \<and>
     (\<forall>k v d d'. db_Put db k v d = (None, d') \<longrightarrow> m d' = (m d)(k \<mapsto> v)) \<and>
     (\<forall>k v d e d'. db_Put db k v d = (Some e, d') \<longrightarrow> m d' = m d) \<and>
     (\<forall>k d d'. db_Delete db k d = (None, d') \<longrightarrow> m d' = (m d)(k := None)) \<and>
     (\<forall>k d e d'. db_Delete db k d = (Some e, d') \<longrightarrow> m d' = m d) \<and>
     (\<forall>d vs. db_Values db d = map Inr vs \<longrightarrow>
        (\<exists>ks. distinct ks \<and> set ks = dom (m d) \<and> vs = map (\<lambda>k. the (m d k)) ks))"

lemmas external_laws = link_laws_def db_laws_def

section \<open>Reference instances\<close>

text \<open>
  A link whose addresses are a list and a store that is an association list: instances of the two
  interfaces that satisfy their laws, for the concrete runs of the development.
\<close>

definition mem_addr_equal :: "addr \<Rightarrow> addr \<Rightarrow> bool" where
  "mem_addr_equal a b \<longleftrightarrow> IP_Equal (net_IP a) (net_IP b) \<and> net_Mask a = net_Mask b"

definition mem_link :: "addr list nl_handle" where
  "mem_link = \<lparr>
     AddrList = (\<lambda>l. (l, None)),
     AddrAdd = (\<lambda>a l. if list_ex (mem_addr_equal a) l then (Some (Errno 17), l) else (None, l @ [a])),
     AddrDel = (\<lambda>a l. if list_ex (mem_addr_equal a) l then (None, filter (\<lambda>x. \<not> mem_addr_equal a x) l)
                       else (Some (Errno 99), l)),
     Addr_Equal = mem_addr_equal\<rparr>"

lemma mem_link_laws: "link_laws mem_link (\<lambda>l. l)"
  by (auto simp: link_laws_def mem_link_def mem_addr_equal_def list_ex_iff split: if_splits)

definition mem_db :: "((string \<times> 'j) list, 'j) kv_db" where
  "mem_db = \<lparr>
     db_Get = (\<lambda>k d. case map_of d k of None \<Rightarrow> Inl ErrKeyNotFound | Some v \<Rightarrow> Inr v),
     db_Put = (\<lambda>k v d. (None, AList.update k v d)),
     db_Delete = (\<lambda>k d. (None, AList.delete k d)),
     db_Values = (\<lambda>d. map (\<lambda>k. Inr (the (map_of d k))) (remdups (map fst d)))\<rparr>"

lemma map_Inr_eq: "map (\<lambda>k. Inr (f k)) ks = map Inr vs \<Longrightarrow> vs = map f ks"
  by (induction ks arbitrary: vs) auto

lemma mem_db_values:
  assumes "db_Values mem_db d = map Inr vs"
  shows "\<exists>ks. distinct ks \<and> set ks = dom (map_of d) \<and> vs = map (\<lambda>k. the (map_of d k)) ks"
  using assms
  by (intro exI[of _ "remdups (map fst d)"])
    (auto simp: mem_db_def dom_map_of_conv_image_fst dest: map_Inr_eq)

lemma mem_db_laws: "db_laws mem_db map_of"
  using mem_db_values
  by (auto simp: db_laws_def update_conv' delete_conv' split: option.splits)
    (auto simp: mem_db_def update_conv' delete_conv' split: option.splits)

end
