(* ===== verification/Simple_Ipam.thy ===== *)
theory Simple_Ipam
  imports Ip_Trie Externals
begin

unbundle bit_operations_syntax

text \<open>
  \<^verbatim>\<open>internal/ipam/simple.go\<close>: the address manager that hands out the first free address of a
  configured range. \<^verbatim>\<open>New\<close>, \<^verbatim>\<open>Contains\<close>, \<^verbatim>\<open>IsUsed\<close>, \<^verbatim>\<open>Allocate\<close>, \<^verbatim>\<open>Release\<close> and their helpers.
\<close>

section \<open>Helpers\<close>

fun compare_bytes :: "byte list \<Rightarrow> byte list \<Rightarrow> int" where
  "compare_bytes (x # xs) (y # ys) =
     (if x < y then -1 else if x > y then 1 else compare_bytes xs ys)"
| "compare_bytes _ _ = 0"

text \<open>Indexing the 16-byte form of an address that has none is out of range.\<close>

definition bytesCompare :: "ip \<Rightarrow> ip \<Rightarrow> ('e, int) outcome" where
  "bytesCompare left right =
     (if To16 left = [] \<or> To16 right = [] then Panic
      else Ret (compare_bytes (To16 left) (To16 right)))"

text \<open>The increment runs from the last byte backwards and stops when no carry is left.\<close>

fun incr_carry :: "byte list \<Rightarrow> byte list" where
  "incr_carry [] = []"
| "incr_carry (b # bs) = (if b + 1 > 0 then (b + 1) # bs else (b + 1) # incr_carry bs)"

definition getNextIP :: "ip \<Rightarrow> ip" where
  "getNextIP a = rev (incr_carry (rev a))"

fun isUsed :: "ip \<Rightarrow> addr list \<Rightarrow> bool" where
  "isUsed a [] = False"
| "isUsed a (x # xs) = (if IP_Equal a (net_IP x) then True else isUsed a xs)"

section \<open>The range and the manager\<close>

record range =
  From :: ip
  To :: ip

definition Range_Contains :: "range \<Rightarrow> ip \<Rightarrow> ('e, bool) outcome" where
  "Range_Contains r a =
     (if IsUnspecified a then Ret False
      else if IP_Equal (From r) a \<or> IP_Equal (To r) a then Ret True
      else obind (bytesCompare a (From r)) (\<lambda>c.
             if c \<ge> 0 then obind (bytesCompare a (To r)) (\<lambda>d. Ret (d \<le> 0)) else Ret False))"

record simpleIpam =
  cidr :: ipnet
  allowedRange :: range

definition ipam_New :: "config \<Rightarrow> (go_error, simpleIpam) outcome" where
  "ipam_New cfg =
     obind (cfg ''loadbalancer.ipam.cidr'') (\<lambda>c.
     obind (ParseCIDR c) (\<lambda>(_, net).
     obind (cfg ''loadbalancer.ipam.dynamicRange.startAt'') (\<lambda>f.
     obind (cfg ''loadbalancer.ipam.dynamicRange.endAt'') (\<lambda>t.
       let dynamicRange = \<lparr>From = ParseIP f, To = ParseIP t\<rparr> in
       obind (bytesCompare (From dynamicRange) (To dynamicRange)) (\<lambda>cmp.
         if cmp \<ge> 0 then
           Err (ErrText (''invalid dynamic range provided: ('' @ IP_String (From dynamicRange) @ '', '' @
             IP_String (To dynamicRange) @ '')''))
         else if \<not> IPNet_Contains net (From dynamicRange) \<or> \<not> IPNet_Contains net (To dynamicRange) then
           Err (ErrText (''dynamic range ('' @ IP_String (From dynamicRange) @ '', '' @
             IP_String (To dynamicRange) @ '') is not entirely contained in the cidr ('' @
             IPNet_String net @ '')''))
         else Ret \<lparr>cidr = net, allowedRange = dynamicRange\<rparr>)))))"

definition SimpleIpam_Contains :: "simpleIpam \<Rightarrow> ip \<Rightarrow> bool" where
  "SimpleIpam_Contains s a = IPNet_Contains (cidr s) a"

definition SimpleIpam_IsUsed :: "'l nl_handle \<Rightarrow> ip \<Rightarrow> 'l \<Rightarrow> bool" where
  "SimpleIpam_IsUsed h a l =
     (case AddrList h l of
        (addrs, Some e) \<Rightarrow> True
      | (addrs, None) \<Rightarrow> isUsed a addrs)"

text \<open>
  The search loop. It ends when a candidate is free or past the end of the range; the fuel bounds
  its iterations.
\<close>

fun allocate_loop :: "nat \<Rightarrow> ipTrie \<Rightarrow> ip \<Rightarrow> ip \<Rightarrow> (go_error, ip) outcome" where
  "allocate_loop 0 t currCandidate to = Stuck"
| "allocate_loop (Suc fuel) t currCandidate to =
     obind (bytesCompare currCandidate to) (\<lambda>c.
       if c \<le> 0 then
         (if \<not> ipTrie_Contains t currCandidate then Ret currCandidate
          else allocate_loop fuel t (getNextIP currCandidate) to)
       else Err (ErrText ''no free IP found in dynamic range''))"

text \<open>
  One more iteration than there are addresses on the link is enough: every iteration that goes on
  has met another address of the link.
\<close>

definition SimpleIpam_Allocate :: "'l nl_handle \<Rightarrow> simpleIpam \<Rightarrow> 'l \<Rightarrow> (go_error, ip) outcome" where
  "SimpleIpam_Allocate h s l =
     (case AddrList h l of
        (addrs, Some e) \<Rightarrow> Err e
      | (addrs, None) \<Rightarrow>
          let t = fold ipTrie_Insert (map (\<lambda>x. To16 (net_IP x)) addrs) newIPTrie in
          allocate_loop (Suc (length addrs)) t (From (allowedRange s)) (To (allowedRange s)))"

definition SimpleIpam_Release :: "ip \<Rightarrow> go_error option" where
  "SimpleIpam_Release a = None"

section \<open>Comparing and counting addresses\<close>

lemma compare_bytes_nat:
  "length xs = length ys \<Longrightarrow>
     compare_bytes xs ys =
       (if nat_of_bytes xs < nat_of_bytes ys then -1
        else if nat_of_bytes xs = nat_of_bytes ys then 0 else 1)"
proof (induction xs ys rule: list_induct2)
  case (Cons x xs y ys)
  let ?p = "256 ^ length ys :: nat"
  have b: "nat_of_bytes xs < ?p" "nat_of_bytes ys < ?p"
    using nat_of_bytes_bound[of xs] nat_of_bytes_bound[of ys] Cons.hyps by auto
  have lt: "unat u * ?p + m < unat v * ?p + n" if "u < v" "m < ?p" for u v :: byte and m n
  proof -
    have "Suc (unat u) * ?p \<le> unat v * ?p"
      using that by (intro mult_right_mono) (auto simp: word_less_nat_alt)
    with that show ?thesis by simp
  qed
  show ?case
    using Cons lt[of x y "nat_of_bytes xs" "nat_of_bytes ys"] lt[of y x "nat_of_bytes ys" "nat_of_bytes xs"] b
    by (auto simp: not_less_iff_gr_or_eq)
qed simp

abbreviation addr_val :: "ip \<Rightarrow> nat" where
  "addr_val a \<equiv> nat_of_bytes (To16 a)"

lemma To16_len: "To16 a \<noteq> [] \<Longrightarrow> length (To16 a) = 16"
  using To16_length[of a] by blast

lemma bytesCompare_val:
  assumes "To16 a \<noteq> []" "To16 b \<noteq> []"
  shows "bytesCompare a b =
    Ret (if addr_val a < addr_val b then -1 else if addr_val a = addr_val b then 0 else 1)"
  using assms compare_bytes_nat[of "To16 a" "To16 b"]
  by (simp only: bytesCompare_def To16_len simp_thms if_False)

lemma length_incr_carry [simp]: "length (incr_carry bs) = length bs"
  by (induction bs) auto

lemma length_getNextIP [simp]: "length (getNextIP a) = length a"
  by (simp add: getNextIP_def)

lemma incr_carry_val:
  "nat_of_bytes (rev (incr_carry bs)) = (nat_of_bytes (rev bs) + 1) mod 256 ^ length bs"
proof (induction bs)
  case (Cons b bs)
  let ?v = "nat_of_bytes (rev bs)" and ?p = "256 ^ length bs :: nat"
  have v: "?v < ?p" using nat_of_bytes_bound[of "rev bs"] by simp
  show ?case
  proof (cases "b = 255")
    case True
    then have carry: "b + 1 = 0" "unat b = 255" by simp_all
    have "nat_of_bytes (rev (incr_carry (b # bs))) = ((?v + 1) mod ?p) * 256"
      using Cons carry by (simp add: nat_of_bytes_append)
    also have "\<dots> = ((?v + 1) * 256) mod (?p * 256)" by (simp add: mult_mod_left)
    finally show ?thesis using carry by (simp add: nat_of_bytes_append algebra_simps)
  next
    case False
    have "unat b \<noteq> 255" using False word_unat_eq_iff[of b 255] by simp
    then have "unat b + 1 < 256" using unat_byte_lt[of b] by linarith
    then have u: "unat (b + 1) = unat b + 1" by (simp add: unat_word_ariths)
    have pos: "b + 1 > 0" using u by (simp add: word_less_nat_alt)
    have "nat_of_bytes (rev (incr_carry (b # bs))) = ?v * 256 + (unat b + 1)"
      using pos u by (simp add: nat_of_bytes_append)
    moreover have "?v * 256 + (unat b + 1) < ?p * 256"
    proof -
      have "unat (b + 1) < 256" by simp
      then have "unat b + 1 < 256" using u by simp
      moreover have "(?v + 1) * 256 \<le> ?p * 256" using v by (intro mult_right_mono) auto
      ultimately show ?thesis by simp
    qed
    ultimately show ?thesis by (simp add: nat_of_bytes_append algebra_simps)
  qed
qed simp

lemma getNextIP_val:
  "nat_of_bytes (getNextIP a) = (nat_of_bytes a + 1) mod 256 ^ length a"
  using incr_carry_val[of "rev a"] by (simp add: getNextIP_def)

lemma compare_16:
  "length a = 16 \<Longrightarrow> length b = 16 \<Longrightarrow> bytesCompare a b =
     Ret (if nat_of_bytes a < nat_of_bytes b then -1 else if nat_of_bytes a = nat_of_bytes b then 0 else 1)"
  using bytesCompare_val[of a b] To16_16[of a] To16_16[of b] by fastforce

lemma next_16: "length a = 16 \<Longrightarrow> nat_of_bytes (getNextIP a) = (nat_of_bytes a + 1) mod 2 ^ 128"
  using getNextIP_val[of a] by simp

text \<open>
  Comparing two addresses byte by byte gives the order of their 128-bit values, and the address
  \<^verbatim>\<open>getNextIP\<close> makes has the next value, modulo the width: the search walks the range in steps of one.
\<close>

lemma compare_and_next:
  assumes "length a = 16" "length b = 16"
  shows "bytesCompare a b =
      Ret (if nat_of_bytes a < nat_of_bytes b then -1 else if nat_of_bytes a = nat_of_bytes b then 0 else 1)
    \<and> nat_of_bytes (getNextIP a) = (nat_of_bytes a + 1) mod 2 ^ 128"
  using assms by (simp only: compare_16 next_16 simp_thms)

theorem compare_and_next_witness:
  "bytesCompare (ParseIP ''10.0.0.255'') (ParseIP ''10.0.1.0'') = Ret (-1) \<and>
   getNextIP (ParseIP ''10.0.0.255'') = ParseIP ''10.0.1.0''"
proof -
  let ?a = "[0, 0, 0, 0, 0, 0, 0, 0, 0, 0, 255, 255, 10, 0, 0, 255] :: ip"
  let ?b = "[0, 0, 0, 0, 0, 0, 0, 0, 0, 0, 255, 255, 10, 0, 1, 0] :: ip"
  have p: "ParseIP ''10.0.0.255'' = ?a" "ParseIP ''10.0.1.0'' = ?b" by code_simp+
  have len: "length ?a = 16" "length ?b = 16" by simp_all
  have lt: "nat_of_bytes ?a < nat_of_bytes ?b" by simp
  have nx: "getNextIP ?a = ?b" by (simp add: getNextIP_def)
  have "bytesCompare ?a ?b = Ret (-1)"
    using compare_and_next [OF len] unfolding if_P [OF lt] by (rule conjunct1)
  with nx show ?thesis unfolding p by blast
qed

section \<open>A configuration for the concrete runs\<close>

text \<open>The values of the repository's \<^verbatim>\<open>lbmanager.yaml\<close>, and others in its shape.\<close>

definition config_of :: "string \<Rightarrow> string \<Rightarrow> string \<Rightarrow> config" where
  "config_of c f t = (\<lambda>k.
     if k = ''loadbalancer.ipam.cidr'' then Ret c
     else if k = ''loadbalancer.ipam.dynamicRange.startAt'' then Ret f
     else if k = ''loadbalancer.ipam.dynamicRange.endAt'' then Ret t
     else Panic)"

definition dev_ipam :: simpleIpam where
  "dev_ipam = \<lparr>
     cidr = \<lparr>net_IP = [192, 168, 87, 0], net_Mask = [255, 255, 255, 0]\<rparr>,
     allowedRange = \<lparr>From = v4InV6Prefix @ [192, 168, 87, 200], To = v4InV6Prefix @ [192, 168, 87, 225]\<rparr>\<rparr>"

lemma dev_ipam_New:
  "ipam_New (config_of ''192.168.87.0/24'' ''192.168.87.200'' ''192.168.87.225'') = Ret dev_ipam"
  by code_simp

section \<open>What a configured manager satisfies\<close>

definition ipam_ok :: "simpleIpam \<Rightarrow> bool" where
  "ipam_ok s \<longleftrightarrow>
     cidr_ok (cidr s) \<and>
     length (From (allowedRange s)) = 16 \<and> length (To (allowedRange s)) = 16 \<and>
     nat_of_bytes (From (allowedRange s)) < nat_of_bytes (To (allowedRange s)) \<and>
     IPNet_Contains (cidr s) (From (allowedRange s)) \<and> IPNet_Contains (cidr s) (To (allowedRange s))"

lemma ipam_okI:
  assumes net: "ParseCIDR c = Ret (a, net)"
    and cmp: "bytesCompare (ParseIP f) (ParseIP t) = (Ret cmp :: (go_error, int) outcome)" "cmp < 0"
    and con: "IPNet_Contains net (ParseIP f)" "IPNet_Contains net (ParseIP t)"
  shows "ipam_ok \<lparr>cidr = net, allowedRange = \<lparr>From = ParseIP f, To = ParseIP t\<rparr>\<rparr>"
proof -
  have len: "length (ParseIP f) = 16" "length (ParseIP t) = 16"
    using cmp(1) ParseIP_length[of f] ParseIP_length[of t] by (auto simp: bytesCompare_def To16_def split: if_splits)
  have "nat_of_bytes (ParseIP f) < nat_of_bytes (ParseIP t)"
    using compare_16[OF len, where ?'a = go_error] cmp by (auto split: if_splits)
  with len con ParseCIDR_ok[OF net] show ?thesis by (simp add: ipam_ok_def)
qed

lemma ipam_New_ok: "ipam_New cfg = Ret s \<Longrightarrow> ipam_ok s"
  by (clarsimp simp: ipam_New_def Let_def outcome_simps not_le split: if_splits)
    (rule ipam_okI; assumption)

definition in_range :: "simpleIpam \<Rightarrow> ip \<Rightarrow> bool" where
  "in_range s a \<longleftrightarrow> length a = 16 \<and>
     nat_of_bytes (From (allowedRange s)) \<le> nat_of_bytes a \<and> nat_of_bytes a \<le> nat_of_bytes (To (allowedRange s))"

text \<open>
  A configuration \<^verbatim>\<open>New\<close> accepts has a dynamic range that lies in the CIDR as a whole: both
  ends are checked, and every address between them of the range's family is in the network too.
\<close>

lemma New_range_in_cidr:
  assumes "ipam_New cfg = Ret s"
    and "in_range s a"
    and "To4 a = [] \<longleftrightarrow> To4 (From (allowedRange s)) = []"
  shows "SimpleIpam_Contains s a"
  using ipam_New_ok[OF assms(1)] assms(2,3)
    IPNet_Contains_convex[of "cidr s" "From (allowedRange s)" a "To (allowedRange s)"]
  by (simp add: SimpleIpam_Contains_def ipam_ok_def in_range_def)

theorem New_range_in_cidr_witness:
  "SimpleIpam_Contains dev_ipam (ParseIP ''192.168.87.217'')"
proof (rule New_range_in_cidr [OF dev_ipam_New])
  show "in_range dev_ipam (ParseIP ''192.168.87.217'')" by code_simp
  show "To4 (ParseIP ''192.168.87.217'') = [] \<longleftrightarrow> To4 (From (allowedRange dev_ipam)) = []" by code_simp
qed

section \<open>The search\<close>

text \<open>
  The addresses at or above a candidate that the index still holds: what an iteration that finds its
  candidate taken uses up.
\<close>

definition taken_from :: "ip \<Rightarrow> ip set \<Rightarrow> ip set" where
  "taken_from c U = {u \<in> U. length u = 16 \<and> nat_of_bytes c \<le> nat_of_bytes u}"

lemma taken_from_next:
  assumes "finite U" "c \<in> U" "length c = 16" "nat_of_bytes d = nat_of_bytes c + 1"
  shows "card (taken_from d U) < card (taken_from c U)"
proof (rule psubset_card_mono)
  show "finite (taken_from c U)" using assms by (simp add: taken_from_def)
  have "c \<in> taken_from c U" "c \<notin> taken_from d U" using assms by (auto simp: taken_from_def)
  moreover have "taken_from d U \<subseteq> taken_from c U" using assms by (auto simp: taken_from_def)
  ultimately show "taken_from d U \<subset> taken_from c U" by blast
qed

text \<open>The outcome of the search: the lowest free address of the rest of the range, or none.\<close>

definition search_result :: "ip set \<Rightarrow> ip \<Rightarrow> ip \<Rightarrow> (go_error, ip) outcome \<Rightarrow> bool" where
  "search_result U c to r =
     (case r of
        Ret a \<Rightarrow> length a = 16 \<and> a \<notin> U \<and> nat_of_bytes c \<le> nat_of_bytes a \<and> nat_of_bytes a \<le> nat_of_bytes to \<and>
          (\<forall>x. length x = 16 \<and> nat_of_bytes c \<le> nat_of_bytes x \<and> nat_of_bytes x < nat_of_bytes a \<longrightarrow> x \<in> U)
      | Err e \<Rightarrow> e = ErrText ''no free IP found in dynamic range'' \<and>
          (\<forall>x. length x = 16 \<and> nat_of_bytes c \<le> nat_of_bytes x \<and> nat_of_bytes x \<le> nat_of_bytes to \<longrightarrow> x \<in> U)
      | _ \<Rightarrow> False)"

lemma search_result_step:
  assumes "search_result U d to r" "c \<in> U" "length c = 16" "nat_of_bytes d = nat_of_bytes c + 1"
  shows "search_result U c to r"
proof -
  have low: "x = c \<or> nat_of_bytes d \<le> nat_of_bytes x"
    if "length x = 16" "nat_of_bytes c \<le> nat_of_bytes x" for x
    using that nat_of_bytes_inj[of x c] assms(3,4) by (cases "nat_of_bytes x = nat_of_bytes c") auto
  show ?thesis
  proof (cases r)
    case (Ret a)
    with assms have a: "length a = 16" "a \<notin> U" "nat_of_bytes c \<le> nat_of_bytes a" "nat_of_bytes a \<le> nat_of_bytes to"
      and below: "\<And>x. length x = 16 \<Longrightarrow> nat_of_bytes d \<le> nat_of_bytes x \<Longrightarrow> nat_of_bytes x < nat_of_bytes a \<Longrightarrow> x \<in> U"
      by (auto simp: search_result_def)
    have "x \<in> U" if "length x = 16" "nat_of_bytes c \<le> nat_of_bytes x" "nat_of_bytes x < nat_of_bytes a" for x
      using low[OF that(1,2)] below that assms(2) by blast
    with Ret a show ?thesis by (simp add: search_result_def)
  next
    case (Err e)
    with assms have e: "e = ErrText ''no free IP found in dynamic range''"
      and all: "\<And>x. length x = 16 \<Longrightarrow> nat_of_bytes d \<le> nat_of_bytes x \<Longrightarrow> nat_of_bytes x \<le> nat_of_bytes to \<Longrightarrow> x \<in> U"
      by (auto simp: search_result_def)
    have "x \<in> U" if "length x = 16" "nat_of_bytes c \<le> nat_of_bytes x" "nat_of_bytes x \<le> nat_of_bytes to" for x
      using low[OF that(1,2)] all that assms(2) by blast
    with Err e show ?thesis by (simp add: search_result_def)
  qed (use assms in \<open>simp_all add: search_result_def\<close>)
qed

lemma allocate_loop_result:
  assumes has: "\<And>a. ipTrie_Contains t a \<longleftrightarrow> To16 a \<in> U" and fin: "finite U"
    and to: "length to = 16" "nat_of_bytes to < 2 ^ 128 - 1"
  shows "length c = 16 \<Longrightarrow> card (taken_from c U) < fuel \<Longrightarrow>
    search_result U c to (allocate_loop fuel t c to)"
proof (induction fuel arbitrary: c)
  case (Suc fuel)
  have "bytesCompare c to = (Ret (if nat_of_bytes c < nat_of_bytes to then -1
      else if nat_of_bytes c = nat_of_bytes to then 0 else 1) :: (go_error, int) outcome)"
    using compare_16 Suc.prems to by blast
  then have step: "allocate_loop (Suc fuel) t c to =
      (if nat_of_bytes c \<le> nat_of_bytes to
       then (if c \<notin> U then Ret c else allocate_loop fuel t (getNextIP c) to)
       else Err (ErrText ''no free IP found in dynamic range''))"
    using has[of c] To16_16[OF Suc.prems(1)] by simp
  show ?case
  proof (cases "nat_of_bytes c \<le> nat_of_bytes to \<and> c \<in> U")
    case True
    let ?d = "getNextIP c"
    have d: "nat_of_bytes ?d = nat_of_bytes c + 1" using next_16[of c] Suc.prems True to by simp
    have less: "card (taken_from ?d U) < fuel"
      using taken_from_next[OF fin _ _ d] True Suc.prems by fastforce
    have "length ?d = 16" using Suc.prems(1) by simp
    from Suc.IH[OF this less] have "search_result U ?d to (allocate_loop fuel t ?d to)" .
    then have "search_result U c to (allocate_loop fuel t ?d to)"
      by (rule search_result_step) (use True Suc.prems d in blast)+
    with step True show ?thesis by simp
  next
    case False
    then show ?thesis unfolding step using Suc.prems by (auto simp: search_result_def)
  qed
qed simp

text \<open>The address the search would pass its end at: the range then includes the last address.\<close>

definition ends_below_max :: "simpleIpam \<Rightarrow> bool" where
  "ends_below_max s \<longleftrightarrow> To (allowedRange s) \<noteq> replicate 16 255"

lemma nat_of_bytes_max: "nat_of_bytes (replicate n 255) = 256 ^ n - 1"
proof (induction n)
  case (Suc n)
  have "(0 :: nat) < 256 ^ n" by simp
  with Suc show ?case by simp
qed simp

lemma ends_below_max_val:
  assumes "ends_below_max s" "length (To (allowedRange s)) = 16"
  shows "nat_of_bytes (To (allowedRange s)) < 2 ^ 128 - 1"
proof -
  have p: "(256 :: nat) ^ 16 = 2 ^ 128" by simp
  have "nat_of_bytes (To (allowedRange s)) < 2 ^ 128"
    using nat_of_bytes_bound[of "To (allowedRange s)"] assms p by simp
  moreover have "nat_of_bytes (To (allowedRange s)) \<noteq> 2 ^ 128 - 1"
    using nat_of_bytes_inj[of "To (allowedRange s)" "replicate 16 255"] nat_of_bytes_max[of 16] assms p
    by (auto simp: ends_below_max_def)
  ultimately show ?thesis by linarith
qed

definition used_addrs :: "addr list \<Rightarrow> ip set" where
  "used_addrs addrs = set (map (\<lambda>x. To16 (net_IP x)) addrs)"

lemma Allocate_result:
  assumes "ipam_ok s" "ends_below_max s" "AddrList h l = (addrs, None)"
  shows "search_result (used_addrs addrs) (From (allowedRange s)) (To (allowedRange s)) (SimpleIpam_Allocate h s l)"
proof -
  let ?U = "used_addrs addrs" and ?t = "fold ipTrie_Insert (map (\<lambda>x. To16 (net_IP x)) addrs) newIPTrie"
  have has: "ipTrie_Contains ?t a \<longleftrightarrow> To16 a \<in> ?U" for a
    using trie.has_fold[of "map (\<lambda>x. To16 (net_IP x)) addrs" a] by (simp add: used_addrs_def)
  have "card (taken_from (From (allowedRange s)) ?U) \<le> card ?U"
    by (rule card_mono) (auto simp: taken_from_def used_addrs_def)
  also have "\<dots> \<le> length addrs" using card_length[of "map (\<lambda>x. To16 (net_IP x)) addrs"] by (simp add: used_addrs_def)
  finally have "card (taken_from (From (allowedRange s)) ?U) < Suc (length addrs)" by simp
  then show ?thesis
    using allocate_loop_result[OF has, of "To (allowedRange s)" "From (allowedRange s)" "Suc (length addrs)"]
      assms ends_below_max_val[of s]
    by (auto simp: SimpleIpam_Allocate_def ipam_ok_def used_addrs_def Let_def simp del: allocate_loop.simps)
qed

section \<open>The manager's promises\<close>

lemma IP_Equal_16: "length x = 16 \<Longrightarrow> IP_Equal x y \<longleftrightarrow> To16 y = x"
  by (auto simp: IP_Equal_def To16_def append_eq_conv_conj)

lemma isUsed_iff: "isUsed a xs \<longleftrightarrow> (\<exists>x \<in> set xs. IP_Equal a (net_IP x))"
  by (induction xs) auto

lemma IsUsed_iff:
  "AddrList h l = (addrs, None) \<Longrightarrow> length a = 16 \<Longrightarrow> SimpleIpam_IsUsed h a l \<longleftrightarrow> a \<in> used_addrs addrs"
  by (auto simp: SimpleIpam_IsUsed_def isUsed_iff IP_Equal_16 used_addrs_def)

text \<open>
  C16. \<^verbatim>\<open>Allocate\<close> always returns: it gives the lowest address of the dynamic range that is not on the
  link, or an error, and then every address of the range is on the link. (For a range that does not
  end at the very last IPv6 address.)
\<close>

theorem Allocate_lowest_free:
  assumes "ipam_New cfg = Ret s" and "ends_below_max s" and "AddrList h l = (addrs, None)"
  shows "case SimpleIpam_Allocate h s l of
      Ret a \<Rightarrow> in_range s a \<and> \<not> SimpleIpam_IsUsed h a l \<and>
        (\<forall>x. in_range s x \<and> nat_of_bytes x < nat_of_bytes a \<longrightarrow> SimpleIpam_IsUsed h x l)
    | Err e \<Rightarrow> (\<forall>x. in_range s x \<longrightarrow> SimpleIpam_IsUsed h x l)
    | _ \<Rightarrow> False"
  using Allocate_result[OF ipam_New_ok[OF assms(1)] assms(2,3)] IsUsed_iff[OF assms(3)]
  by (auto simp: search_result_def in_range_def split: outcome.splits)

theorem Allocate_lowest_free_witness:
  "SimpleIpam_Allocate mem_link dev_ipam [\<lparr>net_IP = [192, 168, 87, 200], net_Mask = [255, 255, 255, 0]\<rparr>]
     = Ret (ParseIP ''192.168.87.201'') \<and>
   \<not> SimpleIpam_IsUsed mem_link (ParseIP ''192.168.87.201'')
       [\<lparr>net_IP = [192, 168, 87, 200], net_Mask = [255, 255, 255, 0]\<rparr>]"
proof -
  let ?l = "[\<lparr>net_IP = [192, 168, 87, 200], net_Mask = [255, 255, 255, 0]\<rparr>] :: addr list"
  have a: "SimpleIpam_Allocate mem_link dev_ipam ?l = Ret (ParseIP ''192.168.87.201'')" by code_simp
  have "ends_below_max dev_ipam" "AddrList mem_link ?l = (?l, None)" by code_simp+
  from Allocate_lowest_free [OF dev_ipam_New this] a show ?thesis by simp
qed

text \<open>
  C29. The search can leave its range: when the range ends at the last IPv6 address and every address
  of it is in use, the next address wraps around to zero and \<^verbatim>\<open>Allocate\<close> hands out \<^verbatim>\<open>::\<close>, below the
  range and outside the network, instead of reporting that no address is free.
\<close>

theorem Allocate_wraps_around:
  "\<exists>cfg s l. ipam_New cfg = Ret s \<and>
     SimpleIpam_Allocate mem_link s l = Ret (replicate 16 0) \<and>
     \<not> in_range s (replicate 16 0) \<and> \<not> SimpleIpam_Contains s (replicate 16 0)"
proof (intro exI conjI)
  let ?c = "config_of ''ffff::/16'' ''ffff:ffff:ffff:ffff:ffff:ffff:ffff:fffe'' ''ffff:ffff:ffff:ffff:ffff:ffff:ffff:ffff''"
  let ?s = "\<lparr>cidr = \<lparr>net_IP = [255, 255] @ replicate 14 0, net_Mask = [255, 255] @ replicate 14 0\<rparr>,
     allowedRange = \<lparr>From = replicate 15 255 @ [254], To = replicate 16 255\<rparr>\<rparr>"
  let ?a = "\<lambda>b. \<lparr>net_IP = replicate 15 255 @ [b], net_Mask = [255, 255] @ replicate 14 0\<rparr>"
  show "ipam_New ?c = Ret ?s" by code_simp
  show "SimpleIpam_Allocate mem_link ?s [?a 254, ?a 255] = Ret (replicate 16 0)" by code_simp
  show "\<not> in_range ?s (replicate 16 0)" by code_simp
  show "\<not> SimpleIpam_Contains ?s (replicate 16 0)" by code_simp
qed

text \<open>
  A range bound that is not an IP address is not reported as an error: \<^verbatim>\<open>ParseIP\<close> gives nil, and
  comparing the bounds indexes the 16-byte form nil does not have, so \<^verbatim>\<open>New\<close> panics.
\<close>

lemma New_panics_on_bad_bound:
  assumes "cfg ''loadbalancer.ipam.cidr'' = Ret c" and "ParseCIDR c = Ret net"
    and "cfg ''loadbalancer.ipam.dynamicRange.startAt'' = Ret f"
    and "cfg ''loadbalancer.ipam.dynamicRange.endAt'' = Ret t"
    and "ParseIP f = [] \<or> ParseIP t = []"
  shows "ipam_New cfg = Panic"
  using assms by (cases net) (auto simp: ipam_New_def bytesCompare_def To16_def Let_def)

theorem New_panics_on_bad_bound_witness:
  "ipam_New (config_of ''192.168.87.0/24'' ''192.168.87.300'' ''192.168.87.225'') = Panic"
proof -
  have "ParseIP ''192.168.87.300'' = [] \<or> ParseIP ''192.168.87.225'' = []" by code_simp
  moreover have "ParseCIDR ''192.168.87.0/24'' = Ret (ParseIP ''192.168.87.0'', cidr dev_ipam)" by code_simp
  ultimately show ?thesis by (intro New_panics_on_bad_bound) (auto simp: config_of_def)
qed

text \<open>An address between the ends of the configured range and in its family is in the network.\<close>

lemma Allocate_in_cidr:
  assumes "ipam_ok s" "ends_below_max s" "AddrList h l = (addrs, None)" "SimpleIpam_Allocate h s l = Ret a"
    "To4 (From (allowedRange s)) \<noteq> []"
  shows "length a = 16" "To4 a \<noteq> []" "SimpleIpam_Contains s a" "\<not> SimpleIpam_IsUsed h a l"
proof -
  let ?f = "From (allowedRange s)" and ?t = "To (allowedRange s)"
  have r: "length a = 16" "nat_of_bytes ?f \<le> nat_of_bytes a" "nat_of_bytes a \<le> nat_of_bytes ?t"
    "a \<notin> used_addrs addrs"
    using Allocate_result[OF assms(1-3)] assms(4) by (auto simp: search_result_def)
  then show "length a = 16" "\<not> SimpleIpam_IsUsed h a l" using IsUsed_iff[OF assms(3)] by auto
  obtain net m v4 where C: "\<And>y. length y = 16 \<Longrightarrow>
      IPNet_Contains (cidr s) y \<longleftrightarrow> (To4 y \<noteq> []) = v4 \<and> map2 (AND) y m = map2 (AND) net m"
    using IPNet_Contains_16[of "cidr s"] assms(1) by (auto simp: ipam_ok_def)
  have t4: "To4 ?t \<noteq> []" using C[of ?f] C[of ?t] assms(1,5) by (auto simp: ipam_ok_def)
  show "To4 a \<noteq> []"
    using To4_between[of ?f a ?t] r t4 assms(1,5) by (auto simp: ipam_ok_def)
  then show "SimpleIpam_Contains s a"
    using IPNet_Contains_convex[of "cidr s" ?f a ?t] r assms(1,5)
    by (auto simp: ipam_ok_def SimpleIpam_Contains_def)
qed

section \<open>The interface \<^verbatim>\<open>IPAM\<close>\<close>

text \<open>
  \<^verbatim>\<open>internal/ipam/types.go\<close>: what the load balancer server calls. The locale states what it relies
  on, in the link states the manager is good for.
\<close>

record 'l ipam_intf =
  ipam_Allocate :: "'l \<Rightarrow> (go_error, ip) outcome"
  ipam_Release :: "ip \<Rightarrow> go_error option"
  ipam_IsUsed :: "ip \<Rightarrow> 'l \<Rightarrow> bool"
  ipam_Contains :: "ip \<Rightarrow> bool"

definition simple_ipam :: "'l nl_handle \<Rightarrow> simpleIpam \<Rightarrow> 'l ipam_intf" where
  "simple_ipam h s = \<lparr>
     ipam_Allocate = SimpleIpam_Allocate h s,
     ipam_Release = SimpleIpam_Release,
     ipam_IsUsed = SimpleIpam_IsUsed h,
     ipam_Contains = SimpleIpam_Contains s\<rparr>"

locale ipam_service =
  fixes m :: "'l ipam_intf"
    and good :: "'l \<Rightarrow> bool"
  assumes allocate_returns: "good l \<Longrightarrow> ipam_Allocate m l \<noteq> Panic \<and> ipam_Allocate m l \<noteq> Stuck"
    and allocate_fresh: "good l \<Longrightarrow> ipam_Allocate m l = Ret a \<Longrightarrow>
      length a = 16 \<and> To4 a \<noteq> [] \<and> ipam_Contains m a \<and> \<not> ipam_IsUsed m a l"
    and release_ok: "ipam_Release m a = None"
begin

text \<open>What the server makes of an allocated address: its text names the same address again.\<close>

lemma allocate_text:
  assumes "good l" "ipam_Allocate m l = Ret a"
  shows "ParseIP (IP_String a) = a" "ipam_Contains m (ParseIP (IP_String a))"
proof -
  have pre: "length a = 16" "take 12 a = v4InV6Prefix"
    using allocate_fresh[OF assms] by (auto simp: To4_def split: if_splits)
  then have "length (drop 12 a) = 4" "v4InV6Prefix @ drop 12 a = a"
    using append_take_drop_id[of 12 a] by auto
  then show "ParseIP (IP_String a) = a" using ParseIP_String_v4(1)[of "drop 12 a"] by simp
  with allocate_fresh[OF assms] show "ipam_Contains m (ParseIP (IP_String a))" by simp
qed

end

text \<open>A manager configured with an IPv4 range, over a link that can be listed.\<close>

definition simple_good :: "'l nl_handle \<Rightarrow> simpleIpam \<Rightarrow> 'l \<Rightarrow> bool" where
  "simple_good h s l \<longleftrightarrow> ipam_ok s \<and> ends_below_max s \<and> To4 (From (allowedRange s)) \<noteq> [] \<and>
     snd (AddrList h l) = None"

interpretation simple: ipam_service "simple_ipam h s" "simple_good h s" for h s
proof
  fix l assume g: "simple_good h s l"
  then obtain addrs where L: "AddrList h l = (addrs, None)" by (cases "AddrList h l") (auto simp: simple_good_def)
  show "ipam_Allocate (simple_ipam h s) l \<noteq> Panic \<and> ipam_Allocate (simple_ipam h s) l \<noteq> Stuck"
    using g L Allocate_result[of s h l addrs]
    by (auto simp: simple_ipam_def simple_good_def search_result_def)
  fix a assume "ipam_Allocate (simple_ipam h s) l = Ret a"
  then show "length a = 16 \<and> To4 a \<noteq> [] \<and> ipam_Contains (simple_ipam h s) a \<and> \<not> ipam_IsUsed (simple_ipam h s) a l"
    using g L Allocate_in_cidr[of s h l addrs a] by (auto simp: simple_ipam_def simple_good_def)
qed (simp add: simple_ipam_def SimpleIpam_Release_def)

end
