(* ===== verification/Lb_Messages.thy ===== *)
theory Lb_Messages
  imports Prelude "HOL-Library.AList"
begin

text \<open>
  The messages of the load balancer service (\<^verbatim>\<open>internal/loadbalancer/loadbalancer.pb.go\<close>), Go maps as
  the code uses them, and the JSON documents the server stores them as (\<^verbatim>\<open>encoding/json\<close> with the
  tags of the generated structs). A document is modelled as the tree of its values: the text of a
  tree is read back as the same tree.
\<close>

type_synonym int32 = "32 word"

section \<open>Go maps\<close>

text \<open>
  A map is \<open>None\<close> (nil) or its entries in the order an iteration visits them; Go leaves that order
  open, so facts about iterations are stated for every order.
\<close>

type_synonym ('k, 'v) gomap = "('k \<times> 'v) list option"

definition map_entries :: "('k, 'v) gomap \<Rightarrow> ('k \<times> 'v) list" where
  "map_entries m = (case m of None \<Rightarrow> [] | Some es \<Rightarrow> es)"

definition map_get :: "('k, 'v) gomap \<Rightarrow> 'k \<Rightarrow> 'v option" where
  "map_get m k = map_of (map_entries m) k"

text \<open>Storing into a nil map panics; deleting from one does nothing.\<close>

definition map_set :: "('k, 'v) gomap \<Rightarrow> 'k \<Rightarrow> 'v \<Rightarrow> ('e, ('k, 'v) gomap) outcome" where
  "map_set m k v = (case m of None \<Rightarrow> Panic | Some es \<Rightarrow> Ret (Some (AList.update k v es)))"

definition map_del :: "('k, 'v) gomap \<Rightarrow> 'k \<Rightarrow> ('k, 'v) gomap" where
  "map_del m k = map_option (AList.delete k) m"

definition wf_map :: "('k, 'v) gomap \<Rightarrow> bool" where
  "wf_map m \<longleftrightarrow> distinct (map fst (map_entries m))"

lemma map_get_set [simp]:
  "map_set m k v = Ret m' \<Longrightarrow> map_get m' x = (if x = k then Some v else map_get m x)"
  by (auto simp: map_set_def map_get_def map_entries_def update_conv' split: option.splits)

lemma map_get_del [simp]: "map_get (map_del m k) x = (if x = k then None else map_get m x)"
  by (cases m) (auto simp: map_del_def map_get_def map_entries_def delete_conv')

lemma wf_map_set: "map_set m k v = Ret m' \<Longrightarrow> wf_map m \<Longrightarrow> wf_map m'"
  by (auto simp: map_set_def wf_map_def map_entries_def distinct_update split: option.splits)

lemma wf_map_del: "wf_map m \<Longrightarrow> wf_map (map_del m k)"
  by (cases m) (auto simp: map_del_def wf_map_def map_entries_def distinct_delete)

lemma map_get_mem: "wf_map m \<Longrightarrow> map_get m k = Some v \<longleftrightarrow> (k, v) \<in> set (map_entries m)"
  by (simp add: map_get_def wf_map_def)

section \<open>Messages\<close>

text \<open>The enumeration \<^verbatim>\<open>Protocol\<close> is open: a value is any 32-bit integer.\<close>

definition Protocol_TCP :: int32 where "Protocol_TCP = 0"
definition Protocol_UDP :: int32 where "Protocol_UDP = 1"

record target =
  tgt_Protocol :: int32
  tgt_DstIP :: string
  tgt_DstPort :: int32

text \<open>A \<^verbatim>\<open>*TargetList\<close>: nil, or its targets.\<close>

type_synonym target_list = "target list option"

record lb_info =
  lb_Name :: string
  lb_IpAddr :: string
  lb_Targets :: "(int32, target_list) gomap"

definition empty_lb_info :: lb_info where
  "empty_lb_info = \<lparr>lb_Name = [], lb_IpAddr = [], lb_Targets = None\<rparr>"

record lb_error =
  err_Code :: "32 word"
  err_Message :: string

definition no_error :: lb_error where
  "no_error = \<lparr>err_Code = 0, err_Message = []\<rparr>"

record create_req =
  clb_Name :: string
  clb_IpAddr :: "string option"

text \<open>\<^verbatim>\<open>AddTargetRequest\<close> and \<^verbatim>\<open>DelTargetRequest\<close>; the target is a pointer and can be nil.\<close>

record target_req =
  req_LbName :: string
  req_SrcPort :: int32
  req_Target :: "target option"

section \<open>Documents\<close>

datatype json =
    JNull
  | JNum int
  | JStr string
  | JArr "json list"
  | JObj "(string \<times> json) list"

text \<open>A field is left out when it has its zero value (\<^verbatim>\<open>omitempty\<close>).\<close>

definition opt_field :: "bool \<Rightarrow> string \<Rightarrow> json \<Rightarrow> (string \<times> json) list" where
  "opt_field present k v = (if present then [(k, v)] else [])"

definition marshal_target :: "target \<Rightarrow> json" where
  "marshal_target t = JObj
     (opt_field (tgt_Protocol t \<noteq> 0) ''protocol'' (JNum (sint (tgt_Protocol t))) @
      opt_field (tgt_DstIP t \<noteq> []) ''dstIP'' (JStr (tgt_DstIP t)) @
      opt_field (tgt_DstPort t \<noteq> 0) ''dstPort'' (JNum (sint (tgt_DstPort t))))"

fun marshal_target_list :: "target_list \<Rightarrow> json" where
  "marshal_target_list None = JNull"
| "marshal_target_list (Some ts) =
     JObj (opt_field (ts \<noteq> []) ''target'' (JArr (map marshal_target ts)))"

definition marshal_lb :: "lb_info \<Rightarrow> json" where
  "marshal_lb l = JObj
     (opt_field (lb_Name l \<noteq> []) ''name'' (JStr (lb_Name l)) @
      opt_field (lb_IpAddr l \<noteq> []) ''ip_addr'' (JStr (lb_IpAddr l)) @
      opt_field (map_entries (lb_Targets l) \<noteq> []) ''targets''
        (JObj (map (\<lambda>(k, v). (print_int (sint k), marshal_target_list v)) (map_entries (lb_Targets l)))))"

text \<open>
  Reading: members are matched to fields by name without regard to ASCII case, unknown ones are
  skipped, null leaves a field as it is, a value of another kind is an error.
\<close>

definition lower_char :: "char \<Rightarrow> char" where
  "lower_char c = (let k = of_char c :: nat in if 65 \<le> k \<and> k \<le> 90 then char_of (k + 32) else c)"

definition is_field :: "string \<Rightarrow> string \<Rightarrow> bool" where
  "is_field k f \<longleftrightarrow> map lower_char k = map lower_char f"

definition json_error :: go_error where
  "json_error = ErrText ''json: cannot unmarshal''"

fun read_int32 :: "json \<Rightarrow> int32 \<Rightarrow> (go_error, int32) outcome" where
  "read_int32 JNull old = Ret old"
| "read_int32 (JNum i) old = (if - (2 ^ 31) \<le> i \<and> i < 2 ^ 31 then Ret (word_of_int i) else Err json_error)"
| "read_int32 _ old = Err json_error"

fun read_string :: "json \<Rightarrow> string \<Rightarrow> (go_error, string) outcome" where
  "read_string JNull old = Ret old"
| "read_string (JStr s) old = Ret s"
| "read_string _ old = Err json_error"

fun read_target_fields :: "(string \<times> json) list \<Rightarrow> target \<Rightarrow> (go_error, target) outcome" where
  "read_target_fields [] t = Ret t"
| "read_target_fields ((k, v) # ms) t =
     obind (if is_field k ''protocol'' then
              obind (read_int32 v (tgt_Protocol t)) (\<lambda>x. Ret (t\<lparr>tgt_Protocol := x\<rparr>))
            else if is_field k ''dstIP'' then
              obind (read_string v (tgt_DstIP t)) (\<lambda>x. Ret (t\<lparr>tgt_DstIP := x\<rparr>))
            else if is_field k ''dstPort'' then
              obind (read_int32 v (tgt_DstPort t)) (\<lambda>x. Ret (t\<lparr>tgt_DstPort := x\<rparr>))
            else Ret t)
       (read_target_fields ms)"

definition zero_target :: target where
  "zero_target = \<lparr>tgt_Protocol = 0, tgt_DstIP = [], tgt_DstPort = 0\<rparr>"

text \<open>Array elements are read one by one; the server's documents hold no null elements.\<close>

fun read_targets :: "json list \<Rightarrow> (go_error, target list) outcome" where
  "read_targets [] = Ret []"
| "read_targets (JObj ms # js) =
     obind (read_target_fields ms zero_target) (\<lambda>t. obind (read_targets js) (\<lambda>ts. Ret (t # ts)))"
| "read_targets (_ # js) = Err json_error"

fun read_target_list_fields :: "(string \<times> json) list \<Rightarrow> target list \<Rightarrow> (go_error, target list) outcome" where
  "read_target_list_fields [] ts = Ret ts"
| "read_target_list_fields ((k, v) # ms) ts =
     obind (if is_field k ''target'' then
              (case v of JNull \<Rightarrow> Ret [] | JArr js \<Rightarrow> read_targets js | _ \<Rightarrow> Err json_error)
            else Ret ts)
       (read_target_list_fields ms)"

fun read_target_list :: "json \<Rightarrow> (go_error, target_list) outcome" where
  "read_target_list JNull = Ret None"
| "read_target_list (JObj ms) = obind (read_target_list_fields ms []) (\<lambda>ts. Ret (Some ts))"
| "read_target_list _ = Err json_error"

fun read_target_map ::
  "(string \<times> json) list \<Rightarrow> (int32 \<times> target_list) list \<Rightarrow> (go_error, (int32 \<times> target_list) list) outcome" where
  "read_target_map [] es = Ret es"
| "read_target_map ((k, v) # ms) es =
     (case parse_int k of
        None \<Rightarrow> Err json_error
      | Some i \<Rightarrow>
          if - (2 ^ 31) \<le> i \<and> i < 2 ^ 31 then
            obind (read_target_list v) (\<lambda>tl. read_target_map ms (AList.update (word_of_int i) tl es))
          else Err json_error)"

fun read_lb_fields :: "(string \<times> json) list \<Rightarrow> lb_info \<Rightarrow> (go_error, lb_info) outcome" where
  "read_lb_fields [] l = Ret l"
| "read_lb_fields ((k, v) # ms) l =
     obind (if is_field k ''name'' then
              obind (read_string v (lb_Name l)) (\<lambda>x. Ret (l\<lparr>lb_Name := x\<rparr>))
            else if is_field k ''ip_addr'' then
              obind (read_string v (lb_IpAddr l)) (\<lambda>x. Ret (l\<lparr>lb_IpAddr := x\<rparr>))
            else if is_field k ''targets'' then
              (case v of
                 JNull \<Rightarrow> Ret (l\<lparr>lb_Targets := None\<rparr>)
               | JObj es \<Rightarrow> obind (read_target_map es (map_entries (lb_Targets l))) (\<lambda>m. Ret (l\<lparr>lb_Targets := Some m\<rparr>))
               | _ \<Rightarrow> Err json_error)
            else Ret l)
       (read_lb_fields ms)"

fun unmarshal_lb :: "json \<Rightarrow> (go_error, lb_info) outcome" where
  "unmarshal_lb JNull = Ret empty_lb_info"
| "unmarshal_lb (JObj ms) = read_lb_fields ms empty_lb_info"
| "unmarshal_lb _ = Err json_error"

section \<open>Reading back what was written\<close>

lemma sint_int32: "- (2 ^ 31) \<le> sint (w :: int32)" "sint (w :: int32) < 2 ^ 31"
  using sint_range_size[of w] by (auto simp: word_size)

lemma read_int32_sint [simp]: "read_int32 (JNum (sint w)) old = Ret w"
  using sint_int32[of w] by simp

lemma field_names [simp]:
  "is_field ''protocol'' ''protocol''" "is_field ''dstIP'' ''dstIP''" "is_field ''dstPort'' ''dstPort''"
  "\<not> is_field ''dstIP'' ''protocol''" "\<not> is_field ''dstPort'' ''protocol''" "\<not> is_field ''dstPort'' ''dstIP''"
  "is_field ''target'' ''target''" "is_field ''name'' ''name''" "is_field ''ip_addr'' ''ip_addr''"
  "is_field ''targets'' ''targets''" "\<not> is_field ''ip_addr'' ''name''" "\<not> is_field ''targets'' ''name''"
  "\<not> is_field ''targets'' ''ip_addr''"
  by (code_simp)+

lemma read_marshal_target:
  "marshal_target t = JObj ms \<Longrightarrow> read_target_fields ms zero_target = Ret t"
  by (cases t) (auto simp: marshal_target_def opt_field_def zero_target_def simp del: read_int32.simps)

lemma read_marshal_targets [simp]: "read_targets (map marshal_target ts) = Ret ts"
proof (induction ts)
  case (Cons t ts)
  obtain ms where "marshal_target t = JObj ms" by (simp add: marshal_target_def)
  with Cons read_marshal_target[OF this] show ?case by simp
qed simp

lemma read_marshal_target_list [simp]: "read_target_list (marshal_target_list v) = Ret v"
  by (cases v) (auto simp: opt_field_def)

lemma update_new_key: "k \<notin> fst ` set es \<Longrightarrow> AList.update k v es = es @ [(k, v)]"
  by (induction es) auto

lemma read_marshal_map:
  "distinct (map fst (es @ kvs)) \<Longrightarrow>
   read_target_map (map (\<lambda>(k, v). (print_int (sint k), marshal_target_list v)) kvs) es = Ret (es @ kvs)"
proof (induction kvs arbitrary: es)
  case (Cons kv kvs)
  obtain k v where kv: "kv = (k, v)" by fastforce
  have "k \<notin> fst ` set es" using Cons.prems kv by auto
  moreover have "distinct (map fst ((es @ [(k, v)]) @ kvs))" using Cons.prems kv by auto
  ultimately show ?case using Cons.IH[of "es @ [(k, v)]"] kv sint_int32[of k] by (simp add: update_new_key)
qed simp

text \<open>What a stored load balancer reads back as: an empty map of targets comes back nil.\<close>

definition stored_form :: "lb_info \<Rightarrow> lb_info" where
  "stored_form l = (if map_entries (lb_Targets l) = [] then l\<lparr>lb_Targets := None\<rparr> else l)"

lemma unmarshal_marshal_text:
  assumes "wf_map (lb_Targets l)"
  shows "unmarshal_lb (marshal_lb l) = Ret (stored_form l)"
  using assms read_marshal_map[of "[]" "map_entries (lb_Targets l)"]
  by (cases l) (auto simp: marshal_lb_def opt_field_def empty_lb_info_def stored_form_def map_entries_def
      wf_map_def split: option.splits)

text \<open>
  C27. A load balancer written to the store and read back is the same load balancer: name, address,
  and for every port the same targets in the same order; only an empty target map becomes nil.
\<close>

theorem unmarshal_marshal:
  assumes "wf_map (lb_Targets l)"
  shows "unmarshal_lb (marshal_lb l) = Ret (stored_form l)"
  using assms by (rule unmarshal_marshal_text)

definition demo_lb :: lb_info where
  "demo_lb = \<lparr>lb_Name = ''kube%default%web'', lb_IpAddr = ''192.168.87.201'',
     lb_Targets = Some [(443, Some [\<lparr>tgt_Protocol = 0, tgt_DstIP = ''192.168.50.3'', tgt_DstPort = 30443\<rparr>]), (80, Some [])]\<rparr>"

theorem unmarshal_marshal_witness: "unmarshal_lb (marshal_lb demo_lb) = Ret demo_lb"
proof -
  have "wf_map (lb_Targets demo_lb)" by code_simp
  from unmarshal_marshal [OF this] show ?thesis
    by (simp add: stored_form_def demo_lb_def map_entries_def)
qed

end
