(* ===== verification/Ipvs_Types.thy ===== *)
theory Ipvs_Types
  imports Go_Net
begin

text \<open>
  The types of \<^verbatim>\<open>internal/ipvs/ipvs_linux.go\<close> and the constants of \<^verbatim>\<open>constants_linux.go\<close>: IPVS services,
  destinations, statistics, configuration, and the numbers of the netlink protocol. The interface
  \<open>ipvs_intf\<close> is the part of \<^verbatim>\<open>ipvs.Handle\<close> the load balancer server calls.
\<close>

type_synonym uint16 = "16 word"
type_synonym uint32 = "32 word"
type_synonym uint64 = "64 word"

section \<open>Constants\<close>

text \<open>Address families and protocols of the operating system.\<close>

definition AF_INET :: uint16 where "AF_INET = 2"
definition AF_INET6 :: uint16 where "AF_INET6 = 10"
definition IPPROTO_TCP :: uint16 where "IPPROTO_TCP = 6"
definition IPPROTO_UDP :: uint16 where "IPPROTO_UDP = 17"

definition genlCtrlID :: uint16 where "genlCtrlID = 0x10"

text \<open>Generic netlink control commands and attributes.\<close>

definition genlCtrlCmdGetFamily :: byte where "genlCtrlCmdGetFamily = 3"
definition genlCtrlAttrFamilyID :: nat where "genlCtrlAttrFamilyID = 1"
definition genlCtrlAttrFamilyName :: nat where "genlCtrlAttrFamilyName = 2"

text \<open>The commands of the IPVS family, numbered as \<^verbatim>\<open>iota\<close> numbers them.\<close>

datatype ipvs_cmd =
    CmdUnspec | CmdNewService | CmdSetService | CmdDelService | CmdGetService
  | CmdNewDest | CmdSetDest | CmdDelDest | CmdGetDest
  | CmdNewDaemon | CmdDelDaemon | CmdGetDaemon
  | CmdSetConfig | CmdGetConfig | CmdSetInfo | CmdGetInfo | CmdZero | CmdFlush

definition all_ipvs_cmds :: "ipvs_cmd list" where
  "all_ipvs_cmds =
     [CmdUnspec, CmdNewService, CmdSetService, CmdDelService, CmdGetService,
      CmdNewDest, CmdSetDest, CmdDelDest, CmdGetDest,
      CmdNewDaemon, CmdDelDaemon, CmdGetDaemon,
      CmdSetConfig, CmdGetConfig, CmdSetInfo, CmdGetInfo, CmdZero, CmdFlush]"

fun ipvs_cmd_num :: "ipvs_cmd \<Rightarrow> byte" where
  "ipvs_cmd_num CmdUnspec = 0" | "ipvs_cmd_num CmdNewService = 1" | "ipvs_cmd_num CmdSetService = 2"
| "ipvs_cmd_num CmdDelService = 3" | "ipvs_cmd_num CmdGetService = 4" | "ipvs_cmd_num CmdNewDest = 5"
| "ipvs_cmd_num CmdSetDest = 6" | "ipvs_cmd_num CmdDelDest = 7" | "ipvs_cmd_num CmdGetDest = 8"
| "ipvs_cmd_num CmdNewDaemon = 9" | "ipvs_cmd_num CmdDelDaemon = 10" | "ipvs_cmd_num CmdGetDaemon = 11"
| "ipvs_cmd_num CmdSetConfig = 12" | "ipvs_cmd_num CmdGetConfig = 13" | "ipvs_cmd_num CmdSetInfo = 14"
| "ipvs_cmd_num CmdGetInfo = 15" | "ipvs_cmd_num CmdZero = 16" | "ipvs_cmd_num CmdFlush = 17"

text \<open>Attributes of the first level of a command.\<close>

definition ipvsCmdAttrService :: nat where "ipvsCmdAttrService = 1"
definition ipvsCmdAttrDest :: nat where "ipvsCmdAttrDest = 2"
definition ipvsCmdAttrDaemon :: nat where "ipvsCmdAttrDaemon = 3"
definition ipvsCmdAttrTimeoutTCP :: nat where "ipvsCmdAttrTimeoutTCP = 4"
definition ipvsCmdAttrTimeoutTCPFin :: nat where "ipvsCmdAttrTimeoutTCPFin = 5"
definition ipvsCmdAttrTimeoutUDP :: nat where "ipvsCmdAttrTimeoutUDP = 6"

text \<open>Attributes of a service.\<close>

definition ipvsSvcAttrAddressFamily :: nat where "ipvsSvcAttrAddressFamily = 1"
definition ipvsSvcAttrProtocol :: nat where "ipvsSvcAttrProtocol = 2"
definition ipvsSvcAttrAddress :: nat where "ipvsSvcAttrAddress = 3"
definition ipvsSvcAttrPort :: nat where "ipvsSvcAttrPort = 4"
definition ipvsSvcAttrFWMark :: nat where "ipvsSvcAttrFWMark = 5"
definition ipvsSvcAttrSchedName :: nat where "ipvsSvcAttrSchedName = 6"
definition ipvsSvcAttrFlags :: nat where "ipvsSvcAttrFlags = 7"
definition ipvsSvcAttrTimeout :: nat where "ipvsSvcAttrTimeout = 8"
definition ipvsSvcAttrNetmask :: nat where "ipvsSvcAttrNetmask = 9"
definition ipvsSvcAttrStats :: nat where "ipvsSvcAttrStats = 10"
definition ipvsSvcAttrPEName :: nat where "ipvsSvcAttrPEName = 11"

text \<open>Attributes of a destination.\<close>

definition ipvsDestAttrAddress :: nat where "ipvsDestAttrAddress = 1"
definition ipvsDestAttrPort :: nat where "ipvsDestAttrPort = 2"
definition ipvsDestAttrForwardingMethod :: nat where "ipvsDestAttrForwardingMethod = 3"
definition ipvsDestAttrWeight :: nat where "ipvsDestAttrWeight = 4"
definition ipvsDestAttrUpperThreshold :: nat where "ipvsDestAttrUpperThreshold = 5"
definition ipvsDestAttrLowerThreshold :: nat where "ipvsDestAttrLowerThreshold = 6"
definition ipvsDestAttrActiveConnections :: nat where "ipvsDestAttrActiveConnections = 7"
definition ipvsDestAttrInactiveConnections :: nat where "ipvsDestAttrInactiveConnections = 8"
definition ipvsDestAttrPersistentConnections :: nat where "ipvsDestAttrPersistentConnections = 9"
definition ipvsDestAttrStats :: nat where "ipvsDestAttrStats = 10"
definition ipvsDestAttrAddressFamily :: nat where "ipvsDestAttrAddressFamily = 11"

text \<open>Attributes of the statistics.\<close>

definition ipvsStatsConns :: nat where "ipvsStatsConns = 1"
definition ipvsStatsPktsIn :: nat where "ipvsStatsPktsIn = 2"
definition ipvsStatsPktsOut :: nat where "ipvsStatsPktsOut = 3"
definition ipvsStatsBytesIn :: nat where "ipvsStatsBytesIn = 4"
definition ipvsStatsBytesOut :: nat where "ipvsStatsBytesOut = 5"
definition ipvsStatsCPS :: nat where "ipvsStatsCPS = 6"
definition ipvsStatsPPSIn :: nat where "ipvsStatsPPSIn = 7"
definition ipvsStatsPPSOut :: nat where "ipvsStatsPPSOut = 8"
definition ipvsStatsBPSIn :: nat where "ipvsStatsBPSIn = 9"
definition ipvsStatsBPSOut :: nat where "ipvsStatsBPSOut = 10"

lemmas ipvs_attr_defs =
  ipvsSvcAttrAddressFamily_def ipvsSvcAttrProtocol_def ipvsSvcAttrAddress_def ipvsSvcAttrPort_def
  ipvsSvcAttrFWMark_def ipvsSvcAttrSchedName_def ipvsSvcAttrFlags_def ipvsSvcAttrTimeout_def
  ipvsSvcAttrNetmask_def ipvsSvcAttrStats_def ipvsSvcAttrPEName_def
  ipvsDestAttrAddress_def ipvsDestAttrPort_def ipvsDestAttrForwardingMethod_def ipvsDestAttrWeight_def
  ipvsDestAttrUpperThreshold_def ipvsDestAttrLowerThreshold_def ipvsDestAttrActiveConnections_def
  ipvsDestAttrInactiveConnections_def ipvsDestAttrPersistentConnections_def ipvsDestAttrStats_def
  ipvsDestAttrAddressFamily_def
  ipvsStatsConns_def ipvsStatsPktsIn_def ipvsStatsPktsOut_def ipvsStatsBytesIn_def
  ipvsStatsBytesOut_def ipvsStatsCPS_def ipvsStatsPPSIn_def ipvsStatsPPSOut_def ipvsStatsBPSIn_def
  ipvsStatsBPSOut_def

text \<open>Forwarding methods and schedulers.\<close>

definition ConnectionFlagFwdMask :: uint32 where "ConnectionFlagFwdMask = 0x0007"
definition ConnFwdMasq :: uint32 where "ConnFwdMasq = 0x0000"
definition RoundRobin :: string where "RoundRobin = ''rr''"

section \<open>Types\<close>

record svcStats =
  st_Connections :: uint32
  st_PacketsIn :: uint32
  st_PacketsOut :: uint32
  st_BytesIn :: uint64
  st_BytesOut :: uint64
  st_CPS :: uint32
  st_BPSOut :: uint32
  st_PPSIn :: uint32
  st_PPSOut :: uint32
  st_BPSIn :: uint32

definition zero_stats :: svcStats where
  "zero_stats = \<lparr>st_Connections = 0, st_PacketsIn = 0, st_PacketsOut = 0, st_BytesIn = 0, st_BytesOut = 0,
     st_CPS = 0, st_BPSOut = 0, st_PPSIn = 0, st_PPSOut = 0, st_BPSIn = 0\<rparr>"

record service =
  svc_Address :: ip
  svc_Protocol :: uint16
  svc_Port :: uint16
  svc_FWMark :: uint32
  svc_SchedName :: string
  svc_Flags :: uint32
  svc_Timeout :: uint32
  svc_Netmask :: uint32
  svc_AddressFamily :: uint16
  svc_PEName :: string
  svc_Stats :: svcStats

definition zero_service :: service where
  "zero_service = \<lparr>svc_Address = [], svc_Protocol = 0, svc_Port = 0, svc_FWMark = 0, svc_SchedName = [],
     svc_Flags = 0, svc_Timeout = 0, svc_Netmask = 0, svc_AddressFamily = 0, svc_PEName = [],
     svc_Stats = zero_stats\<rparr>"

text \<open>Go's \<^verbatim>\<open>int\<close> has 64 bits.\<close>

record destination =
  dst_Address :: ip
  dst_Port :: uint16
  dst_Weight :: uint64
  dst_ConnectionFlags :: uint32
  dst_AddressFamily :: uint16
  dst_UpperThreshold :: uint32
  dst_LowerThreshold :: uint32
  dst_ActiveConnections :: uint64
  dst_InactiveConnections :: uint64
  dst_Stats :: svcStats

definition zero_destination :: destination where
  "zero_destination = \<lparr>dst_Address = [], dst_Port = 0, dst_Weight = 0, dst_ConnectionFlags = 0,
     dst_AddressFamily = 0, dst_UpperThreshold = 0, dst_LowerThreshold = 0, dst_ActiveConnections = 0,
     dst_InactiveConnections = 0, dst_Stats = zero_stats\<rparr>"

text \<open>Timeouts as \<^verbatim>\<open>time.Duration\<close>, in nanoseconds.\<close>

record ipvs_config =
  cfg_TimeoutTCP :: int
  cfg_TimeoutTCPFin :: int
  cfg_TimeoutUDP :: int

section \<open>What the server calls\<close>

record 'v ipvs_intf =
  ipvs_IsServicePresent :: "service \<Rightarrow> 'v \<Rightarrow> (go_error, bool) outcome \<times> 'v"
  ipvs_NewService :: "service \<Rightarrow> 'v \<Rightarrow> (go_error, unit) outcome \<times> 'v"
  ipvs_DelService :: "service \<Rightarrow> 'v \<Rightarrow> (go_error, unit) outcome \<times> 'v"
  ipvs_NewDestination :: "service \<Rightarrow> destination \<Rightarrow> 'v \<Rightarrow> (go_error, unit) outcome \<times> 'v"
  ipvs_DelDestination :: "service \<Rightarrow> destination \<Rightarrow> 'v \<Rightarrow> (go_error, unit) outcome \<times> 'v"

lemma ipvs_cmd_numbering: "map ipvs_cmd_num all_ipvs_cmds = map word_of_nat [0..<18]"
  by code_simp

end
