(* ===== verification/Ipvs_Codec.thy ===== *)
theory Ipvs_Codec
  imports Ipvs_Types
begin

text \<open>
  The message codec of \<^verbatim>\<open>internal/ipvs/netlink_linux.go\<close>: IPVS services, real servers and timeouts as
  trees of netlink attributes, and their assembly from the attributes of an answer. The package
  \<^verbatim>\<open>netlink/nl\<close> is the parameter \<open>nl_lib\<close>; the definitions record the attribute trees the code builds.
\<close>

section \<open>Fixed-width integers: \<^verbatim>\<open>encoding/binary\<close>\<close>

datatype byte_order = LittleEndian | BigEndian

fun bytes_be :: "nat \<Rightarrow> nat \<Rightarrow> byte list" where
  "bytes_be 0 n = []"
| "bytes_be (Suc k) n = word_of_nat (n div 256 ^ k) # bytes_be k n"

fun ordered :: "byte_order \<Rightarrow> byte list \<Rightarrow> byte list" where
  "ordered BigEndian bs = bs"
| "ordered LittleEndian bs = rev bs"

definition PutUint16 :: "byte_order \<Rightarrow> uint16 \<Rightarrow> byte list" where
  "PutUint16 bo v = ordered bo (bytes_be 2 (unat v))"

definition PutUint32 :: "byte_order \<Rightarrow> uint32 \<Rightarrow> byte list" where
  "PutUint32 bo v = ordered bo (bytes_be 4 (unat v))"

text \<open>Reading panics when the slice is too short, and ignores what follows the bytes it reads.\<close>

definition Uint16 :: "byte_order \<Rightarrow> byte list \<Rightarrow> ('e, uint16) outcome" where
  "Uint16 bo bs = (if length bs < 2 then Panic else Ret (word_of_nat (nat_of_bytes (ordered bo (take 2 bs)))))"

definition Uint32 :: "byte_order \<Rightarrow> byte list \<Rightarrow> ('e, uint32) outcome" where
  "Uint32 bo bs = (if length bs < 4 then Panic else Ret (word_of_nat (nat_of_bytes (ordered bo (take 4 bs)))))"

definition Uint64 :: "byte_order \<Rightarrow> byte list \<Rightarrow> ('e, uint64) outcome" where
  "Uint64 bo bs = (if length bs < 8 then Panic else Ret (word_of_nat (nat_of_bytes (ordered bo (take 8 bs)))))"

lemma length_bytes_be [simp]: "length (bytes_be k n) = k"
  by (induction k) auto

lemma length_ordered [simp]: "length (ordered bo bs) = length bs"
  by (cases bo) auto

lemma ordered_ordered [simp]: "ordered bo (ordered bo bs) = bs"
  by (cases bo) auto

lemma length_Put [simp]: "length (PutUint16 bo v) = 2" "length (PutUint32 bo w) = 4"
  by (simp_all add: PutUint16_def PutUint32_def)

lemma nat_of_bytes_be: "nat_of_bytes (bytes_be k n) = n mod 256 ^ k"
proof (induction k)
  case (Suc k)
  have "unat (word_of_nat (n div 256 ^ k) :: byte) = n div 256 ^ k mod 256"
    by (simp add: unat_of_nat)
  then show ?case using Suc mod_mult2_eq[of n "256 ^ k" 256] by (simp add: mult.commute)
qed simp

lemma Uint16_Put [simp]: "Uint16 bo (PutUint16 bo v @ r) = Ret v"
  using unsigned_less[of v, where ?'a = nat] by (simp add: Uint16_def PutUint16_def nat_of_bytes_be)

lemma Uint32_Put [simp]: "Uint32 bo (PutUint32 bo v @ r) = Ret v"
  using unsigned_less[of v, where ?'a = nat] by (simp add: Uint32_def PutUint32_def nat_of_bytes_be)

lemma Uint_Put [simp]: "Uint16 bo (PutUint16 bo v) = Ret v" "Uint32 bo (PutUint32 bo w) = Ret w"
  using Uint16_Put[of bo v "[]"] Uint32_Put[of bo w "[]"] by simp_all

section \<open>The netlink library\<close>

text \<open>An attribute as \<^verbatim>\<open>nl.NewRtAttr\<close> and \<^verbatim>\<open>nl.NewRtAttrChild\<close> build it: type, data, children in order.\<close>

datatype rt_attr = RtAttr (ra_Type: nat) (ra_Data: "byte list") (ra_children: "rt_attr list")

text \<open>\<^verbatim>\<open>syscall.NetlinkRouteAttr\<close>: a type and a value that is a slice of the message it was parsed from.\<close>

type_synonym route_attr = "uint16 \<times> slice"

record nl_lib =
  nl_NativeEndian :: byte_order
  nl_Uint16Attr :: "uint16 \<Rightarrow> byte list"
  nl_Uint32Attr :: "uint32 \<Rightarrow> byte list"
  nl_ZeroTerminated :: "string \<Rightarrow> byte list"
  nl_BytesToString :: "byte list \<Rightarrow> string"
  nl_GetIPFamily :: "ip \<Rightarrow> int"
  nl_FAMILY_V4 :: int
  nl_Serialize :: "rt_attr \<Rightarrow> byte list"
  nl_ParseRouteAttr :: "slice \<Rightarrow> (go_error, route_attr list) outcome"

definition payload :: "nl_lib \<Rightarrow> rt_attr \<Rightarrow> byte list" where
  "payload L a = (if ra_children a = [] then ra_Data a else concat (map (nl_Serialize L) (ra_children a)))"

definition fits :: "nl_lib \<Rightarrow> rt_attr \<Rightarrow> bool" where
  "fits L a \<longleftrightarrow> ra_Type a < 2 ^ 16 \<and> 4 + length (payload L a) < 2 ^ 16 \<and> (ra_children a \<noteq> [] \<longrightarrow> ra_Data a = [])"

text \<open>
  Documented behaviour: integers are written in the machine's order, strings as C strings, an address
  of at most four bytes or with an IPv4 form is of the IPv4 family, an attribute is a length (16 bits),
  a type and a padded payload, and parsing finds the attributes that were written.
\<close>

definition nl_laws :: "nl_lib \<Rightarrow> bool" where
  "nl_laws L \<longleftrightarrow>
     (\<forall>v. nl_Uint16Attr L v = PutUint16 (nl_NativeEndian L) v) \<and>
     (\<forall>v. nl_Uint32Attr L v = PutUint32 (nl_NativeEndian L) v) \<and>
     (\<forall>s. list_all (\<lambda>c. c \<noteq> CHR 0x00) s \<longrightarrow> nl_BytesToString L (nl_ZeroTerminated L s) = s) \<and>
     (\<forall>s. length (nl_ZeroTerminated L s) = Suc (length s)) \<and>
     (\<forall>a. nl_GetIPFamily L a = nl_FAMILY_V4 L \<longleftrightarrow> length a \<le> 4 \<or> To4 a \<noteq> []) \<and>
     (\<forall>a. fits L a \<longrightarrow> length (nl_Serialize L a) \<le> 7 + length (payload L a)) \<and>
     (\<forall>as sp. list_all (fits L) as \<longrightarrow>
        (\<exists>vs. nl_ParseRouteAttr L (Slice (concat (map (nl_Serialize L) as)) sp) = Ret vs \<and>
           map (\<lambda>(t, v). (unat t, elems v)) vs = map (\<lambda>a. (ra_Type a, payload L a)) as))"

section \<open>Headers\<close>

record genlMsgHdr =
  gh_cmd :: byte
  gh_version :: byte
  gh_reserved :: uint16

record ipvsFlags =
  fl_flags :: uint32
  fl_mask :: uint32

text \<open>The casts through \<^verbatim>\<open>unsafe.Pointer\<close> expose the structs as the machine lays them out.\<close>

definition deserializeGenlMsg :: "nl_lib \<Rightarrow> slice \<Rightarrow> (go_error, genlMsgHdr) outcome" where
  "deserializeGenlMsg L b =
     obind (slice_upto 4 b) (\<lambda>h.
     obind (Uint16 (nl_NativeEndian L) (drop 2 (elems h))) (\<lambda>r.
     Ret \<lparr>gh_cmd = elems h ! 0, gh_version = elems h ! 1, gh_reserved = r\<rparr>))"

definition genlMsgHdr_Serialize :: "nl_lib \<Rightarrow> genlMsgHdr \<Rightarrow> byte list" where
  "genlMsgHdr_Serialize L h = [gh_cmd h, gh_version h] @ PutUint16 (nl_NativeEndian L) (gh_reserved h)"

definition genlMsgHdr_Len :: nat where
  "genlMsgHdr_Len = 4"

definition ipvsFlags_Serialize :: "nl_lib \<Rightarrow> ipvsFlags \<Rightarrow> byte list" where
  "ipvsFlags_Serialize L f =
     PutUint32 (nl_NativeEndian L) (fl_flags f) @ PutUint32 (nl_NativeEndian L) (fl_mask f)"

definition ipvsFlags_Len :: nat where
  "ipvsFlags_Len = 8"

section \<open>Building requests\<close>

definition NewRtAttr :: "nat \<Rightarrow> byte list \<Rightarrow> rt_attr" where
  "NewRtAttr ty data = RtAttr ty data []"

definition NewRtAttrChild :: "nat \<Rightarrow> byte list \<Rightarrow> rt_attr \<Rightarrow> rt_attr" where
  "NewRtAttrChild ty data parent = RtAttr (ra_Type parent) (ra_Data parent) (ra_children parent @ [RtAttr ty data []])"

definition rawIPData :: "nl_lib \<Rightarrow> ip \<Rightarrow> byte list" where
  "rawIPData L a = (if nl_GetIPFamily L a = nl_FAMILY_V4 L then To4 a else a)"

definition fillService :: "nl_lib \<Rightarrow> service \<Rightarrow> rt_attr" where
  "fillService L s =
     (let c0 = NewRtAttr ipvsCmdAttrService [];
          c1 = NewRtAttrChild ipvsSvcAttrAddressFamily (nl_Uint16Attr L (svc_AddressFamily s)) c0;
          c2 = (if svc_FWMark s \<noteq> 0 then NewRtAttrChild ipvsSvcAttrFWMark (nl_Uint32Attr L (svc_FWMark s)) c1
                else
                  NewRtAttrChild ipvsSvcAttrPort (PutUint16 BigEndian (svc_Port s))
                    (NewRtAttrChild ipvsSvcAttrAddress (rawIPData L (svc_Address s))
                      (NewRtAttrChild ipvsSvcAttrProtocol (nl_Uint16Attr L (svc_Protocol s)) c1)));
          c3 = NewRtAttrChild ipvsSvcAttrSchedName (nl_ZeroTerminated L (svc_SchedName s)) c2;
          c4 = (if svc_PEName s \<noteq> [] then NewRtAttrChild ipvsSvcAttrPEName (nl_ZeroTerminated L (svc_PEName s)) c3
                else c3);
          f = \<lparr>fl_flags = svc_Flags s, fl_mask = 0xFFFFFFFF\<rparr>;
          c5 = NewRtAttrChild ipvsSvcAttrFlags (ipvsFlags_Serialize L f) c4;
          c6 = NewRtAttrChild ipvsSvcAttrTimeout (nl_Uint32Attr L (svc_Timeout s)) c5
      in NewRtAttrChild ipvsSvcAttrNetmask (nl_Uint32Attr L (svc_Netmask s)) c6)"

definition fillDestination :: "nl_lib \<Rightarrow> destination \<Rightarrow> rt_attr" where
  "fillDestination L d =
     (let c0 = NewRtAttr ipvsCmdAttrDest [];
          c1 = NewRtAttrChild ipvsDestAttrAddress (rawIPData L (dst_Address d)) c0;
          c2 = NewRtAttrChild ipvsDestAttrPort (PutUint16 BigEndian (dst_Port d)) c1;
          c3 = NewRtAttrChild ipvsDestAttrForwardingMethod
                 (nl_Uint32Attr L (dst_ConnectionFlags d AND ConnectionFlagFwdMask)) c2;
          c4 = NewRtAttrChild ipvsDestAttrWeight (nl_Uint32Attr L (ucast (dst_Weight d))) c3;
          c5 = NewRtAttrChild ipvsDestAttrUpperThreshold (nl_Uint32Attr L (dst_UpperThreshold d)) c4
      in NewRtAttrChild ipvsDestAttrLowerThreshold (nl_Uint32Attr L (dst_LowerThreshold d)) c5)"

section \<open>Reading answers\<close>

text \<open>A loop over the attributes of an answer.\<close>

fun for_attrs :: "('a \<Rightarrow> 's \<Rightarrow> (go_error, 's) outcome) \<Rightarrow> 'a list \<Rightarrow> 's \<Rightarrow> (go_error, 's) outcome" where
  "for_attrs f [] s = Ret s"
| "for_attrs f (a # as) s = obind (f a s) (for_attrs f as)"

definition parseIP :: "slice \<Rightarrow> uint16 \<Rightarrow> (go_error, ip) outcome" where
  "parseIP ip family =
     (if family = AF_INET then obind (slice_upto 4 ip) (\<lambda>r. Ret (elems r))
      else if family = AF_INET6 then obind (slice_upto 16 ip) (\<lambda>r. Ret (elems r))
      else Err (ErrText ''parseIP Error''))"

definition stats_attr :: "nl_lib \<Rightarrow> route_attr \<Rightarrow> svcStats \<Rightarrow> (go_error, svcStats) outcome" where
  "stats_attr L a s =
     (let ty = unat (fst a); v = elems (snd a); u32 = Uint32 (nl_NativeEndian L) v; u64 = Uint64 (nl_NativeEndian L) v in
      if ty = ipvsStatsConns then obind u32 (\<lambda>x. Ret (s\<lparr>st_Connections := x\<rparr>))
      else if ty = ipvsStatsPktsIn then obind u32 (\<lambda>x. Ret (s\<lparr>st_PacketsIn := x\<rparr>))
      else if ty = ipvsStatsPktsOut then obind u32 (\<lambda>x. Ret (s\<lparr>st_PacketsOut := x\<rparr>))
      else if ty = ipvsStatsBytesIn then obind u64 (\<lambda>x. Ret (s\<lparr>st_BytesIn := x\<rparr>))
      else if ty = ipvsStatsBytesOut then obind u64 (\<lambda>x. Ret (s\<lparr>st_BytesOut := x\<rparr>))
      else if ty = ipvsStatsCPS then obind u32 (\<lambda>x. Ret (s\<lparr>st_CPS := x\<rparr>))
      else if ty = ipvsStatsPPSIn then obind u32 (\<lambda>x. Ret (s\<lparr>st_PPSIn := x\<rparr>))
      else if ty = ipvsStatsPPSOut then obind u32 (\<lambda>x. Ret (s\<lparr>st_PPSOut := x\<rparr>))
      else if ty = ipvsStatsBPSIn then obind u32 (\<lambda>x. Ret (s\<lparr>st_BPSIn := x\<rparr>))
      else if ty = ipvsStatsBPSOut then obind u32 (\<lambda>x. Ret (s\<lparr>st_BPSOut := x\<rparr>))
      else Ret s)"

definition assembleStats :: "nl_lib \<Rightarrow> slice \<Rightarrow> (go_error, svcStats) outcome" where
  "assembleStats L msg = obind (nl_ParseRouteAttr L msg) (\<lambda>attrs. for_attrs (stats_attr L) attrs zero_stats)"

text \<open>The state of the loop is the service so far and the address bytes, not yet interpreted (\<^verbatim>\<open>nil\<close> at first).\<close>

definition service_attr ::
  "nl_lib \<Rightarrow> route_attr \<Rightarrow> service \<times> slice option \<Rightarrow> (go_error, service \<times> slice option) outcome" where
  "service_attr L a st =
     (let ty = unat (fst a); v = elems (snd a); bo = nl_NativeEndian L; (s, addressBytes) = st in
      if ty = ipvsSvcAttrAddressFamily then obind (Uint16 bo v) (\<lambda>x. Ret (s\<lparr>svc_AddressFamily := x\<rparr>, addressBytes))
      else if ty = ipvsSvcAttrProtocol then obind (Uint16 bo v) (\<lambda>x. Ret (s\<lparr>svc_Protocol := x\<rparr>, addressBytes))
      else if ty = ipvsSvcAttrAddress then Ret (s, Some (snd a))
      else if ty = ipvsSvcAttrPort then obind (Uint16 BigEndian v) (\<lambda>x. Ret (s\<lparr>svc_Port := x\<rparr>, addressBytes))
      else if ty = ipvsSvcAttrFWMark then obind (Uint32 bo v) (\<lambda>x. Ret (s\<lparr>svc_FWMark := x\<rparr>, addressBytes))
      else if ty = ipvsSvcAttrSchedName then Ret (s\<lparr>svc_SchedName := nl_BytesToString L v\<rparr>, addressBytes)
      else if ty = ipvsSvcAttrFlags then obind (Uint32 bo v) (\<lambda>x. Ret (s\<lparr>svc_Flags := x\<rparr>, addressBytes))
      else if ty = ipvsSvcAttrTimeout then obind (Uint32 bo v) (\<lambda>x. Ret (s\<lparr>svc_Timeout := x\<rparr>, addressBytes))
      else if ty = ipvsSvcAttrNetmask then obind (Uint32 bo v) (\<lambda>x. Ret (s\<lparr>svc_Netmask := x\<rparr>, addressBytes))
      else if ty = ipvsSvcAttrStats then obind (assembleStats L (snd a)) (\<lambda>x. Ret (s\<lparr>svc_Stats := x\<rparr>, addressBytes))
      else Ret (s, addressBytes))"

definition assembleService :: "nl_lib \<Rightarrow> route_attr list \<Rightarrow> (go_error, service) outcome" where
  "assembleService L attrs =
     obind (for_attrs (service_attr L) attrs (zero_service, None)) (\<lambda>(s, addressBytes).
       case addressBytes of
         None \<Rightarrow> Ret s
       | Some b \<Rightarrow> obind (parseIP b (svc_AddressFamily s)) (\<lambda>ip. Ret (s\<lparr>svc_Address := ip\<rparr>)))"

text \<open>\<^verbatim>\<open>isZeros\<close> and the guess of the family of an address of an old kernel.\<close>

definition isZeros :: "byte list \<Rightarrow> bool" where
  "isZeros b = list_all (\<lambda>x. x = 0) b"

definition getIPFamily :: "slice \<Rightarrow> (go_error, uint16) outcome" where
  "getIPFamily address =
     (if length (elems address) = 4 then Ret AF_INET
      else if isZeros (elems address) then Err (ErrText ''could not parse IP family from address data'')
      else obind (slice_upto 4 address) (\<lambda>h.
        if isZeros (elems h) then Ret AF_INET6
        else obind (slice_from 4 address) (\<lambda>t.
          Ret (if isZeros (elems t) then AF_INET else AF_INET6))))"

definition destination_attr ::
  "nl_lib \<Rightarrow> route_attr \<Rightarrow> destination \<times> slice option \<Rightarrow> (go_error, destination \<times> slice option) outcome" where
  "destination_attr L a st =
     (let ty = unat (fst a); v = elems (snd a); bo = nl_NativeEndian L; (d, addressBytes) = st in
      if ty = ipvsDestAttrAddressFamily then obind (Uint16 bo v) (\<lambda>x. Ret (d\<lparr>dst_AddressFamily := x\<rparr>, addressBytes))
      else if ty = ipvsDestAttrAddress then Ret (d, Some (snd a))
      else if ty = ipvsDestAttrPort then obind (Uint16 BigEndian v) (\<lambda>x. Ret (d\<lparr>dst_Port := x\<rparr>, addressBytes))
      else if ty = ipvsDestAttrForwardingMethod then
        obind (Uint32 bo v) (\<lambda>x. Ret (d\<lparr>dst_ConnectionFlags := x\<rparr>, addressBytes))
      else if ty = ipvsDestAttrWeight then obind (Uint16 bo v) (\<lambda>x. Ret (d\<lparr>dst_Weight := ucast x\<rparr>, addressBytes))
      else if ty = ipvsDestAttrUpperThreshold then
        obind (Uint32 bo v) (\<lambda>x. Ret (d\<lparr>dst_UpperThreshold := x\<rparr>, addressBytes))
      else if ty = ipvsDestAttrLowerThreshold then
        obind (Uint32 bo v) (\<lambda>x. Ret (d\<lparr>dst_LowerThreshold := x\<rparr>, addressBytes))
      else if ty = ipvsDestAttrActiveConnections then
        obind (Uint32 bo v) (\<lambda>x. Ret (d\<lparr>dst_ActiveConnections := ucast x\<rparr>, addressBytes))
      else if ty = ipvsDestAttrInactiveConnections then
        obind (Uint32 bo v) (\<lambda>x. Ret (d\<lparr>dst_InactiveConnections := ucast x\<rparr>, addressBytes))
      else if ty = ipvsDestAttrStats then obind (assembleStats L (snd a)) (\<lambda>x. Ret (d\<lparr>dst_Stats := x\<rparr>, addressBytes))
      else Ret (d, addressBytes))"

definition assembleDestination :: "nl_lib \<Rightarrow> route_attr list \<Rightarrow> (go_error, destination) outcome" where
  "assembleDestination L attrs =
     obind (for_attrs (destination_attr L) attrs (zero_destination, None)) (\<lambda>(d, addressBytes).
     obind (if dst_AddressFamily d = 0
            then obind (getIPFamily (case addressBytes of None \<Rightarrow> Slice [] [] | Some b \<Rightarrow> b))
                   (\<lambda>f. Ret (d\<lparr>dst_AddressFamily := f\<rparr>))
            else Ret d) (\<lambda>d.
       case addressBytes of
         None \<Rightarrow> Ret d
       | Some b \<Rightarrow> obind (parseIP b (dst_AddressFamily d)) (\<lambda>ip. Ret (d\<lparr>dst_Address := ip\<rparr>))))"

text \<open>An answer is a generic header and one attribute that holds the attributes of the object.\<close>

definition message_attrs :: "nl_lib \<Rightarrow> slice \<Rightarrow> (go_error, route_attr list) outcome" where
  "message_attrs L msg =
     obind (deserializeGenlMsg L msg) (\<lambda>hdr.
     obind (slice_from genlMsgHdr_Len msg) (\<lambda>body. nl_ParseRouteAttr L body))"

definition parseService :: "nl_lib \<Rightarrow> slice \<Rightarrow> (go_error, service) outcome" where
  "parseService L msg =
     obind (message_attrs L msg) (\<lambda>attrs.
     case attrs of
       [] \<Rightarrow> Err (ErrText ''error no valid netlink message found while parsing service record'')
     | a # _ \<Rightarrow> obind (nl_ParseRouteAttr L (snd a)) (assembleService L))"

definition parseDestination :: "nl_lib \<Rightarrow> slice \<Rightarrow> (go_error, destination) outcome" where
  "parseDestination L msg =
     obind (message_attrs L msg) (\<lambda>attrs.
     case attrs of
       [] \<Rightarrow> Err (ErrText ''error no valid netlink message found while parsing destination record'')
     | a # _ \<Rightarrow> obind (nl_ParseRouteAttr L (snd a)) (assembleDestination L))"

definition config_attr :: "nl_lib \<Rightarrow> route_attr \<Rightarrow> ipvs_config \<Rightarrow> (go_error, ipvs_config) outcome" where
  "config_attr L a c =
     (let ty = unat (fst a);
          t = obind (Uint32 (nl_NativeEndian L) (elems (snd a))) (\<lambda>x. Ret (uint x * 1000000000)) in
      if ty = ipvsCmdAttrTimeoutTCP then obind t (\<lambda>x. Ret (c\<lparr>cfg_TimeoutTCP := x\<rparr>))
      else if ty = ipvsCmdAttrTimeoutTCPFin then obind t (\<lambda>x. Ret (c\<lparr>cfg_TimeoutTCPFin := x\<rparr>))
      else if ty = ipvsCmdAttrTimeoutUDP then obind t (\<lambda>x. Ret (c\<lparr>cfg_TimeoutUDP := x\<rparr>))
      else Ret c)"

definition parseConfig :: "nl_lib \<Rightarrow> slice \<Rightarrow> (go_error, ipvs_config) outcome" where
  "parseConfig L msg =
     obind (message_attrs L msg) (\<lambda>attrs.
     for_attrs (config_attr L) attrs \<lparr>cfg_TimeoutTCP = 0, cfg_TimeoutTCPFin = 0, cfg_TimeoutUDP = 0\<rparr>)"

end
