(* ===== verification/Ipvs_Table.thy ===== *)
theory Ipvs_Table
  imports Ipvs_Types
begin

text \<open>
  The contract of an IPVS handle: a table of virtual services, each with its set of real servers.
  \<open>ipvs_laws\<close> says what a successful and a failed call do to the table, \<open>ipvs_exact\<close> adds when a call
  succeeds. The locale \<open>ipvs_table\<close> holds what a client may use of it; \<open>mem_ipvs\<close> is a table in memory.
\<close>

section \<open>The table\<close>

text \<open>
  The kernel finds a service by family, protocol, address and port, or by its firewall mark, and its
  real servers by address and port. It keeps an address in 16 bytes, padded with zeros, and compares as
  many of them as the family of the service has: a real server is sent without a family of its own.
  \<open>wire_addr\<close> is the address as \<^verbatim>\<open>rawIPData\<close> sends it.
\<close>

datatype svc_key = Addr_Key uint16 uint16 ip uint16 | Mark_Key uint16 uint32

type_synonym dst_key = "ip \<times> uint16"
type_synonym ipvs_tab = "svc_key \<Rightarrow> dst_key set option"

definition wire_addr :: "ip \<Rightarrow> byte list" where
  "wire_addr a = (if length a \<le> 4 \<or> To4 a \<noteq> [] then To4 a else a)"

definition kernel_addr :: "uint16 \<Rightarrow> byte list \<Rightarrow> ip" where
  "kernel_addr af b = take (if af = AF_INET then 4 else 16) (b @ replicate 16 0)"

definition service_key :: "service \<Rightarrow> svc_key" where
  "service_key s =
     (if svc_FWMark s \<noteq> 0 then Mark_Key (svc_AddressFamily s) (svc_FWMark s)
      else Addr_Key (svc_AddressFamily s) (svc_Protocol s)
        (kernel_addr (svc_AddressFamily s) (wire_addr (svc_Address s))) (svc_Port s))"

definition destination_key :: "service \<Rightarrow> destination \<Rightarrow> dst_key" where
  "destination_key s d = (kernel_addr (svc_AddressFamily s) (wire_addr (dst_Address d)), dst_Port d)"

definition dests :: "ipvs_tab \<Rightarrow> svc_key \<Rightarrow> dst_key set" where
  "dests t k = (case t k of None \<Rightarrow> {} | Some ds \<Rightarrow> ds)"

definition tab_new_service :: "svc_key \<Rightarrow> ipvs_tab \<Rightarrow> ipvs_tab option" where
  "tab_new_service k t = (if t k = None then Some (t(k \<mapsto> {})) else None)"

definition tab_del_service :: "svc_key \<Rightarrow> ipvs_tab \<Rightarrow> ipvs_tab option" where
  "tab_del_service k t = (if t k = None then None else Some (t(k := None)))"

definition tab_new_dest :: "svc_key \<Rightarrow> dst_key \<Rightarrow> ipvs_tab \<Rightarrow> ipvs_tab option" where
  "tab_new_dest k d t = (if t k = None \<or> d \<in> dests t k then None else Some (t(k \<mapsto> insert d (dests t k))))"

definition tab_del_dest :: "svc_key \<Rightarrow> dst_key \<Rightarrow> ipvs_tab \<Rightarrow> ipvs_tab option" where
  "tab_del_dest k d t = (if d \<in> dests t k then Some (t(k \<mapsto> dests t k - {d})) else None)"

lemmas tab_ops = tab_new_service_def tab_del_service_def tab_new_dest_def tab_del_dest_def

lemma dests_upd [simp]: "dests (t(k \<mapsto> ds)) = (dests t)(k := ds)" "dests (t(k := None)) = (dests t)(k := {})"
  by (auto simp: dests_def fun_eq_iff)

lemma dests_None: "t k = None \<Longrightarrow> dests t k = {}"
  by (simp add: dests_def)

section \<open>The contract\<close>

text \<open>A call that returns has done what the table operation says, one that fails nothing; none panics or hangs.\<close>

definition obeys :: "ipvs_tab option \<Rightarrow> ('v \<Rightarrow> ipvs_tab) \<Rightarrow> 'v \<Rightarrow> (go_error, unit) outcome \<times> 'v \<Rightarrow> bool" where
  "obeys spec tbl v r \<longleftrightarrow>
     (case r of
        (Ret _, v') \<Rightarrow> spec = Some (tbl v')
      | (Err _, v') \<Rightarrow> tbl v' = tbl v
      | _ \<Rightarrow> False)"

definition ipvs_laws :: "'v ipvs_intf \<Rightarrow> ('v \<Rightarrow> ipvs_tab) \<Rightarrow> bool" where
  "ipvs_laws I tbl \<longleftrightarrow>
     (\<forall>s v. \<exists>b v'. ipvs_IsServicePresent I s v = (Ret b, v') \<and> tbl v' = tbl v \<and> (b \<longrightarrow> tbl v (service_key s) \<noteq> None)) \<and>
     (\<forall>s v. obeys (tab_new_service (service_key s) (tbl v)) tbl v (ipvs_NewService I s v)) \<and>
     (\<forall>s v. obeys (tab_del_service (service_key s) (tbl v)) tbl v (ipvs_DelService I s v)) \<and>
     (\<forall>s d v. obeys (tab_new_dest (service_key s) (destination_key s d) (tbl v)) tbl v (ipvs_NewDestination I s d v)) \<and>
     (\<forall>s d v. obeys (tab_del_dest (service_key s) (destination_key s d) (tbl v)) tbl v (ipvs_DelDestination I s d v))"

text \<open>Moreover, a call fails only where the table operation is not possible.\<close>

definition ipvs_exact :: "'v ipvs_intf \<Rightarrow> ('v \<Rightarrow> ipvs_tab) \<Rightarrow> bool" where
  "ipvs_exact I tbl \<longleftrightarrow> ipvs_laws I tbl \<and>
     (\<forall>s v. tbl v (service_key s) \<noteq> None \<longrightarrow> fst (ipvs_IsServicePresent I s v) = Ret True) \<and>
     (\<forall>s v. tab_new_service (service_key s) (tbl v) \<noteq> None \<longrightarrow> fst (ipvs_NewService I s v) = Ret ()) \<and>
     (\<forall>s v. tab_del_service (service_key s) (tbl v) \<noteq> None \<longrightarrow> fst (ipvs_DelService I s v) = Ret ()) \<and>
     (\<forall>s d v. tab_new_dest (service_key s) (destination_key s d) (tbl v) \<noteq> None \<longrightarrow>
        fst (ipvs_NewDestination I s d v) = Ret ()) \<and>
     (\<forall>s d v. tab_del_dest (service_key s) (destination_key s d) (tbl v) \<noteq> None \<longrightarrow>
        fst (ipvs_DelDestination I s d v) = Ret ())"

text \<open>
  The interface: operations, the view of the state as a table, and the condition under which the
  provider keeps the contract.
\<close>

locale ipvs_table =
  fixes I :: "'v ipvs_intf"
    and tbl :: "'v \<Rightarrow> ipvs_tab"
    and ok :: bool
  assumes contract: "ok \<Longrightarrow> ipvs_laws I tbl"
begin

lemma present_spec:
  assumes ok
  obtains b v' where "ipvs_IsServicePresent I s v = (Ret b, v')" "tbl v' = tbl v" "b \<Longrightarrow> tbl v (service_key s) \<noteq> None"
  using contract[OF assms] unfolding ipvs_laws_def by blast

lemma obeys_ops:
  assumes ok
  shows "obeys (tab_new_service (service_key s) (tbl v)) tbl v (ipvs_NewService I s v)"
    "obeys (tab_del_service (service_key s) (tbl v)) tbl v (ipvs_DelService I s v)"
    "obeys (tab_new_dest (service_key s) (destination_key s d) (tbl v)) tbl v (ipvs_NewDestination I s d v)"
    "obeys (tab_del_dest (service_key s) (destination_key s d) (tbl v)) tbl v (ipvs_DelDestination I s d v)"
  using contract[OF assms] unfolding ipvs_laws_def by auto

text \<open>The four modifying calls, by result.\<close>

lemma new_service_cases:
  assumes ok
  obtains (done_it) v' where "ipvs_NewService I s v = (Ret (), v')" "tbl v (service_key s) = None"
      "tbl v' = (tbl v)(service_key s \<mapsto> {})"
    | (failed) e v' where "ipvs_NewService I s v = (Err e, v')" "tbl v' = tbl v"
  using obeys_ops(1)[OF assms, of s v] that
  by (auto simp: obeys_def tab_ops split: prod.splits outcome.splits if_splits)

lemma del_service_cases:
  assumes ok
  obtains (done_it) v' where "ipvs_DelService I s v = (Ret (), v')" "tbl v (service_key s) \<noteq> None"
      "tbl v' = (tbl v)(service_key s := None)"
    | (failed) e v' where "ipvs_DelService I s v = (Err e, v')" "tbl v' = tbl v"
  using obeys_ops(2)[OF assms, of s v] that
  by (auto simp: obeys_def tab_ops split: prod.splits outcome.splits if_splits)

lemma new_dest_cases:
  assumes ok
  obtains (done_it) v' where "ipvs_NewDestination I s d v = (Ret (), v')"
      "destination_key s d \<notin> dests (tbl v) (service_key s)"
      "tbl v' = (tbl v)(service_key s \<mapsto> insert (destination_key s d) (dests (tbl v) (service_key s)))"
    | (failed) e v' where "ipvs_NewDestination I s d v = (Err e, v')" "tbl v' = tbl v"
  using obeys_ops(3)[OF assms, of s d v] that
  by (auto simp: obeys_def tab_ops split: prod.splits outcome.splits if_splits)

lemma del_dest_cases:
  assumes ok
  obtains (done_it) v' where "ipvs_DelDestination I s d v = (Ret (), v')"
      "destination_key s d \<in> dests (tbl v) (service_key s)"
      "tbl v' = (tbl v)(service_key s \<mapsto> dests (tbl v) (service_key s) - {destination_key s d})"
    | (failed) e v' where "ipvs_DelDestination I s d v = (Err e, v')" "tbl v' = tbl v"
  using obeys_ops(4)[OF assms, of s d v] that
  by (auto simp: obeys_def tab_ops split: prod.splits outcome.splits if_splits)

end

text \<open>A provider whose calls fail only where they must.\<close>

locale ipvs_exact_table = ipvs_table +
  assumes exact_contract: "ok \<Longrightarrow> ipvs_exact I tbl"
begin

lemma present_exact:
  assumes ok
  obtains v' where "ipvs_IsServicePresent I s v = (Ret (tbl v (service_key s) \<noteq> None), v')" "tbl v' = tbl v"
proof -
  obtain b v' where p: "ipvs_IsServicePresent I s v = (Ret b, v')" "tbl v' = tbl v"
    "b \<Longrightarrow> tbl v (service_key s) \<noteq> None" using present_spec[OF assms] by metis
  have "tbl v (service_key s) \<noteq> None \<longrightarrow> fst (ipvs_IsServicePresent I s v) = Ret True"
    using exact_contract[OF assms] unfolding ipvs_exact_def by blast
  with p have "b = (tbl v (service_key s) \<noteq> None)" by auto
  with p show thesis by (intro that[of v']) auto
qed

lemma ensure_service:
  assumes ok "tbl v (service_key s) = None"
  obtains v' where "ipvs_NewService I s v = (Ret (), v')" "tbl v' = (tbl v)(service_key s \<mapsto> {})"
proof -
  have "fst (ipvs_NewService I s v) = Ret ()"
    using exact_contract[OF assms(1)] assms(2) unfolding ipvs_exact_def tab_new_service_def by simp
  with new_service_cases[OF assms(1), of s v] that show thesis by (metis fst_conv outcome.distinct(1))
qed

lemma remove_service_present:
  assumes ok "tbl v (service_key s) \<noteq> None"
  shows "fst (ipvs_DelService I s v) = Ret ()"
  using exact_contract[OF assms(1)] assms(2) unfolding ipvs_exact_def tab_del_service_def by simp

lemma remove_dest_present:
  assumes ok "destination_key s d \<in> dests (tbl v) (service_key s)"
  obtains v' where "ipvs_DelDestination I s d v = (Ret (), v')" "tbl v' (service_key s) \<noteq> None"
proof -
  have "fst (ipvs_DelDestination I s d v) = Ret ()"
    using exact_contract[OF assms(1)] assms(2) unfolding ipvs_exact_def tab_del_dest_def by simp
  then show thesis using del_dest_cases[OF assms(1), of s d v] that
    by (metis fst_conv fun_upd_same option.distinct(1) outcome.distinct(1))
qed

lemma remove_service:
  assumes ok
  obtains r v' where "ipvs_DelService I s v = (r, v')" "r = Ret () \<or> (\<exists>e. r = Err e)"
    "tbl v' = (tbl v)(service_key s := None)"
proof -
  have "tbl v (service_key s) \<noteq> None \<Longrightarrow> fst (ipvs_DelService I s v) = Ret ()"
    using exact_contract[OF assms] unfolding ipvs_exact_def tab_del_service_def by simp
  then show thesis using del_service_cases[OF assms, of s v] that
    by (metis fst_conv fun_upd_idem outcome.distinct(1))
qed

lemma ensure_dest:
  assumes ok "tbl v (service_key s) \<noteq> None"
  obtains r v' where "ipvs_NewDestination I s d v = (r, v')" "r = Ret () \<or> (\<exists>e. r = Err e)"
    "tbl v' = (tbl v)(service_key s \<mapsto> insert (destination_key s d) (dests (tbl v) (service_key s)))"
proof (cases "destination_key s d \<in> dests (tbl v) (service_key s)")
  case True
  then have same: "(tbl v)(service_key s \<mapsto> insert (destination_key s d) (dests (tbl v) (service_key s))) = tbl v"
    using assms(2) by (auto simp: dests_def insert_absorb fun_eq_iff)
  show thesis using new_dest_cases[OF assms(1), of s d v] that True same by metis
next
  case False
  then have "fst (ipvs_NewDestination I s d v) = Ret ()"
    using exact_contract[OF assms(1)] assms(2) unfolding ipvs_exact_def tab_new_dest_def by simp
  then show thesis using new_dest_cases[OF assms(1), of s d v] that by (metis fst_conv outcome.distinct(1))
qed

end

interpretation by_laws: ipvs_table I tbl "ipvs_laws I tbl" for I tbl
  by unfold_locales

interpretation by_exact: ipvs_exact_table I tbl "ipvs_exact I tbl" for I tbl
  by unfold_locales (simp_all add: ipvs_exact_def)

section \<open>A table in memory\<close>

type_synonym mem_tab = "(svc_key \<times> dst_key list) list"

definition mem_view :: "mem_tab \<Rightarrow> ipvs_tab" where
  "mem_view v k = map_option set (map_of v k)"

definition mem_ipvs :: "mem_tab ipvs_intf" where
  "mem_ipvs = \<lparr>
     ipvs_IsServicePresent = (\<lambda>s v. (Ret (map_of v (service_key s) \<noteq> None), v)),
     ipvs_NewService = (\<lambda>s v. let k = service_key s in
       if map_of v k = None then (Ret (), v @ [(k, [])]) else (Err (Errno 17), v)),
     ipvs_DelService = (\<lambda>s v. let k = service_key s in
       if map_of v k = None then (Err (Errno 3), v) else (Ret (), filter (\<lambda>e. fst e \<noteq> k) v)),
     ipvs_NewDestination = (\<lambda>s d v. let k = service_key s; x = destination_key s d in
       case map_of v k of
         None \<Rightarrow> (Err (Errno 3), v)
       | Some ds \<Rightarrow> if x \<in> set ds then (Err (Errno 17), v)
                    else (Ret (), map (\<lambda>e. if fst e = k then (k, ds @ [x]) else e) v)),
     ipvs_DelDestination = (\<lambda>s d v. let k = service_key s; x = destination_key s d in
       case map_of v k of
         None \<Rightarrow> (Err (Errno 3), v)
       | Some ds \<Rightarrow> if x \<in> set ds then (Ret (), map (\<lambda>e. if fst e = k then (k, removeAll x ds) else e) v)
                    else (Err (Errno 2), v))\<rparr>"

lemma mem_view_add: "map_of v k = None \<Longrightarrow> mem_view (v @ [(k, [])]) = (mem_view v)(k \<mapsto> {})"
  by (auto simp: mem_view_def map_add_def split: option.splits)

lemma mem_view_remove: "mem_view (filter (\<lambda>e. fst e \<noteq> k) v) = (mem_view v)(k := None)"
proof
  fix x show "mem_view (filter (\<lambda>e. fst e \<noteq> k) v) x = ((mem_view v)(k := None)) x"
    by (induction v) (auto simp: mem_view_def)
qed

lemma mem_view_set:
  assumes "map_of v k \<noteq> None"
  shows "mem_view (map (\<lambda>e. if fst e = k then (k, ds) else e) v) = (mem_view v)(k \<mapsto> set ds)"
proof
  fix x
  have "map_of (map (\<lambda>e. if fst e = k then (k, ds) else e) v) x =
      (if x = k then map_option (\<lambda>_. ds) (map_of v k) else map_of v x)"
    by (induction v) auto
  with assms show "mem_view (map (\<lambda>e. if fst e = k then (k, ds) else e) v) x = ((mem_view v)(k \<mapsto> set ds)) x"
    by (auto simp: mem_view_def)
qed

lemma mem_view_dests: "map_of v k = Some ds \<Longrightarrow> dests (mem_view v) k = set ds"
  by (simp add: dests_def mem_view_def)

lemma mem_ipvs_laws: "ipvs_exact mem_ipvs mem_view"
proof -
  have "mem_view v k = None \<longleftrightarrow> map_of v k = None" for v k by (simp add: mem_view_def)
  moreover have "map_of v k = None \<Longrightarrow> dests (mem_view v) k = {}" for v k
    by (simp add: dests_def mem_view_def)
  ultimately show ?thesis
    by (auto simp: ipvs_exact_def ipvs_laws_def obeys_def tab_ops mem_ipvs_def Let_def mem_view_add
        mem_view_remove mem_view_set mem_view_dests set_removeAll split: option.splits prod.splits)
qed

end
