(* ===== verification/Ipvs_Handle.thy ===== *)
theory Ipvs_Handle
  imports Ipvs_Codec Ipvs_Table
begin

text \<open>
  The IPVS handle of \<^verbatim>\<open>internal/ipvs\<close>: requests, the receive loop \<^verbatim>\<open>execute\<close> of \<^verbatim>\<open>netlink_linux.go\<close>, and the
  operations of \<^verbatim>\<open>ipvs_linux.go\<close> on a netlink socket. The socket and the requests of \<^verbatim>\<open>netlink/nl\<close> are the
  parameter \<open>nl_conn\<close>; its state is a type variable.
\<close>

section \<open>Requests and messages\<close>

definition NLM_F_ACK :: uint16 where "NLM_F_ACK = 4"
definition NLM_F_MULTI :: uint16 where "NLM_F_MULTI = 2"
definition NLM_F_DUMP :: uint16 where "NLM_F_DUMP = 0x300"
definition NLMSG_ERROR :: uint16 where "NLMSG_ERROR = 2"
definition NLMSG_DONE :: uint16 where "NLMSG_DONE = 3"
definition EAGAIN :: go_error where "EAGAIN = Errno 11"

datatype nl_data = Genl_Hdr genlMsgHdr | Rt_Attr rt_attr

record nl_request =
  rq_Type :: uint16
  rq_Flags :: uint16
  rq_Seq :: uint32
  rq_Data :: "nl_data list"

record nl_message =
  nm_Type :: uint16
  nm_Flags :: uint16
  nm_Seq :: uint32
  nm_Pid :: uint32
  nm_Data :: slice

record 'v nl_conn =
  nc_NewNetlinkRequest :: "uint16 \<Rightarrow> uint16 \<Rightarrow> nl_request"
  nc_Send :: "nl_request \<Rightarrow> 'v \<Rightarrow> go_error option \<times> 'v"
  nc_GetPid :: "'v \<Rightarrow> go_error + uint32"
  nc_Receive :: "'v \<Rightarrow> (go_error + nl_message list) \<times> 'v"
  nc_GetFd :: "'v \<Rightarrow> int"

definition AddData :: "nl_data \<Rightarrow> nl_request \<Rightarrow> nl_request" where
  "AddData d req = req\<lparr>rq_Data := rq_Data req @ [d]\<rparr>"

definition newGenlRequest :: "'v nl_conn \<Rightarrow> uint16 \<Rightarrow> byte \<Rightarrow> nl_request" where
  "newGenlRequest C familyID cmd =
     AddData (Genl_Hdr \<lparr>gh_cmd = cmd, gh_version = 1, gh_reserved = 0\<rparr>) (nc_NewNetlinkRequest C familyID NLM_F_ACK)"

definition newIPVSRequest :: "'v nl_conn \<Rightarrow> uint16 \<Rightarrow> byte \<Rightarrow> nl_request" where
  "newIPVSRequest C ipvsFamily cmd = newGenlRequest C ipvsFamily cmd"

section \<open>The receive loop\<close>

text \<open>What one batch of messages decides: read on, leave the loop, or return an error (or panic).\<close>

datatype scan = Read_on "slice list" | Leave "slice list" | Fail_with "(go_error, slice list) outcome"

fun scan_msgs :: "byte_order \<Rightarrow> nl_request \<Rightarrow> uint32 \<Rightarrow> uint16 \<Rightarrow> nl_message list \<Rightarrow> slice list \<Rightarrow> scan" where
  "scan_msgs bo req pid resType [] res = Read_on res"
| "scan_msgs bo req pid resType (m # ms) res =
     (if nm_Seq m \<noteq> rq_Seq req then scan_msgs bo req pid resType ms res
      else if nm_Pid m \<noteq> pid then Fail_with (Err (ErrText ''Wrong pid''))
      else if nm_Type m = NLMSG_DONE then Leave res
      else if nm_Type m = NLMSG_ERROR then
        (case obind (slice_upto 4 (nm_Data m)) (\<lambda>b. Uint32 bo (elems b)) of
           Ret e \<Rightarrow> if e = 0 then Leave res else Fail_with (Err (Errno (sint (- e))))
         | Err e \<Rightarrow> Fail_with (Err e) | Panic \<Rightarrow> Fail_with Panic | Stuck \<Rightarrow> Fail_with Stuck)
      else if resType \<noteq> 0 \<and> nm_Type m \<noteq> resType then scan_msgs bo req pid resType ms res
      else if nm_Flags m AND NLM_F_MULTI = 0 then Leave (res @ [nm_Data m])
      else scan_msgs bo req pid resType ms (res @ [nm_Data m]))"

fun execute_loop ::
  "nat \<Rightarrow> byte_order \<Rightarrow> 'v nl_conn \<Rightarrow> nl_request \<Rightarrow> uint32 \<Rightarrow> uint16 \<Rightarrow> slice list \<Rightarrow> 'v \<Rightarrow>
   (go_error, slice list) outcome \<times> 'v" where
  "execute_loop 0 bo C req pid resType res v = (Stuck, v)"
| "execute_loop (Suc fuel) bo C req pid resType res v =
     (case nc_Receive C v of
        (Inl err, v) \<Rightarrow>
          if nc_GetFd C v = -1 then (Err (ErrText ''Socket got closed on receive''), v)
          else if err = EAGAIN then execute_loop fuel bo C req pid resType res v
          else (Err err, v)
      | (Inr msgs, v) \<Rightarrow>
          (case scan_msgs bo req pid resType msgs res of
             Read_on res \<Rightarrow> execute_loop fuel bo C req pid resType res v
           | Leave res \<Rightarrow> (Ret res, v)
           | Fail_with r \<Rightarrow> (r, v)))"

definition execute ::
  "nat \<Rightarrow> byte_order \<Rightarrow> 'v nl_conn \<Rightarrow> nl_request \<Rightarrow> uint16 \<Rightarrow> 'v \<Rightarrow> (go_error, slice list) outcome \<times> 'v" where
  "execute fuel bo C req resType v =
     (case nc_Send C req v of
        (Some err, v) \<Rightarrow> (Err err, v)
      | (None, v) \<Rightarrow>
          (case nc_GetPid C v of
             Inl err \<Rightarrow> (Err err, v)
           | Inr pid \<Rightarrow> execute_loop fuel bo C req pid resType [] v))"

section \<open>Commands\<close>

text \<open>The handle, and what its operations share: the library, the connection, the family number and the fuel.\<close>

record 'v handle =
  h_seq :: uint32
  h_sock :: 'v

record 'v nl_env =
  ne_lib :: nl_lib
  ne_conn :: "'v nl_conn"
  ne_ipvsFamily :: uint16
  ne_fuel :: nat

definition run_request ::
  "'v nl_env \<Rightarrow> nl_request \<Rightarrow> 'v handle \<Rightarrow> (go_error, slice list) outcome \<times> 'v handle" where
  "run_request E req i =
     (let (r, v) = execute (ne_fuel E) (nl_NativeEndian (ne_lib E)) (ne_conn E) req 0 (h_sock i)
      in (r, i\<lparr>h_sock := v\<rparr>))"

definition doCmdwithResponse ::
  "'v nl_env \<Rightarrow> service option \<Rightarrow> destination option \<Rightarrow> byte \<Rightarrow> 'v handle \<Rightarrow>
   (go_error, slice list) outcome \<times> 'v handle" where
  "doCmdwithResponse E s d cmd i =
     (let req = newIPVSRequest (ne_conn E) (ne_ipvsFamily E) cmd;
          i = i\<lparr>h_seq := h_seq i + 1\<rparr>;
          req = req\<lparr>rq_Seq := h_seq i\<rparr>;
          req = (case s of
              None \<Rightarrow> AddData (Rt_Attr (NewRtAttr ipvsCmdAttrService [])) (req\<lparr>rq_Flags := rq_Flags req OR NLM_F_DUMP\<rparr>)
            | Some s \<Rightarrow> AddData (Rt_Attr (fillService (ne_lib E) s)) req);
          req = (case d of
              None \<Rightarrow> if cmd = ipvs_cmd_num CmdGetDest then req\<lparr>rq_Flags := rq_Flags req OR NLM_F_DUMP\<rparr> else req
            | Some d \<Rightarrow> AddData (Rt_Attr (fillDestination (ne_lib E) d)) req)
      in run_request E req i)"

definition doCmd ::
  "'v nl_env \<Rightarrow> service option \<Rightarrow> destination option \<Rightarrow> byte \<Rightarrow> 'v handle \<Rightarrow> (go_error, unit) outcome \<times> 'v handle" where
  "doCmd E s d cmd i = sbind (doCmdwithResponse E s d cmd i) (\<lambda>_ i. (Ret (), i))"

definition doCmdWithoutAttr ::
  "'v nl_env \<Rightarrow> byte \<Rightarrow> 'v handle \<Rightarrow> (go_error, slice list) outcome \<times> 'v handle" where
  "doCmdWithoutAttr E cmd i =
     (let req = newIPVSRequest (ne_conn E) (ne_ipvsFamily E) cmd; i = i\<lparr>h_seq := h_seq i + 1\<rparr>
      in run_request E (req\<lparr>rq_Seq := h_seq i\<rparr>) i)"

text \<open>The answers of a list are parsed in order; the first error wins (with the servers read so far dropped by the caller).\<close>

fun parse_all :: "(slice \<Rightarrow> (go_error, 'a) outcome) \<Rightarrow> slice list \<Rightarrow> (go_error, 'a list) outcome" where
  "parse_all p [] = Ret []"
| "parse_all p (m # ms) = obind (p m) (\<lambda>x. obind (parse_all p ms) (\<lambda>xs. Ret (x # xs)))"

definition doGetServicesCmd ::
  "'v nl_env \<Rightarrow> service option \<Rightarrow> 'v handle \<Rightarrow> (go_error, service list) outcome \<times> 'v handle" where
  "doGetServicesCmd E svc i =
     sbind (doCmdwithResponse E svc None (ipvs_cmd_num CmdGetService) i) (\<lambda>msgs i.
       (parse_all (parseService (ne_lib E)) msgs, i))"

definition doGetDestinationsCmd ::
  "'v nl_env \<Rightarrow> service option \<Rightarrow> destination option \<Rightarrow> 'v handle \<Rightarrow> (go_error, destination list) outcome \<times> 'v handle" where
  "doGetDestinationsCmd E s d i =
     sbind (doCmdwithResponse E s d (ipvs_cmd_num CmdGetDest) i) (\<lambda>msgs i.
       (parse_all (parseDestination (ne_lib E)) msgs, i))"

text \<open>Only the first message counts; an empty answer makes \<^verbatim>\<open>msg[0]\<close> panic.\<close>

definition doGetConfigCmd :: "'v nl_env \<Rightarrow> 'v handle \<Rightarrow> (go_error, ipvs_config) outcome \<times> 'v handle" where
  "doGetConfigCmd E i =
     sbind (doCmdWithoutAttr E (ipvs_cmd_num CmdGetConfig) i) (\<lambda>msg i.
       (case msg of [] \<Rightarrow> Panic | m # _ \<Rightarrow> parseConfig (ne_lib E) m, i))"

text \<open>The family number of IPVS, asked from the generic netlink controller.\<close>

fun find_family :: "nl_lib \<Rightarrow> route_attr list \<Rightarrow> (go_error, uint16 option) outcome" where
  "find_family L [] = Ret None"
| "find_family L (a # as) =
     (if unat (fst a) = genlCtrlAttrFamilyID then
        obind (slice_upto 2 (snd a)) (\<lambda>b. obind (Uint16 (nl_NativeEndian L) (elems b)) (\<lambda>x. Ret (Some x)))
      else find_family L as)"

fun family_in_msgs :: "nl_lib \<Rightarrow> slice list \<Rightarrow> (go_error, uint16) outcome" where
  "family_in_msgs L [] = Err (ErrText ''no family id in the netlink response'')"
| "family_in_msgs L (m # ms) =
     obind (message_attrs L m) (\<lambda>attrs.
     obind (find_family L attrs) (\<lambda>f.
       case f of Some x \<Rightarrow> Ret x | None \<Rightarrow> family_in_msgs L ms))"

definition getIPVSFamily :: "nl_lib \<Rightarrow> 'v nl_conn \<Rightarrow> nat \<Rightarrow> 'v \<Rightarrow> (go_error, uint16) outcome \<times> 'v" where
  "getIPVSFamily L C fuel sock =
     (let req = AddData (Rt_Attr (NewRtAttr genlCtrlAttrFamilyName (nl_ZeroTerminated L ''IPVS'')))
                  (newGenlRequest C genlCtrlID genlCtrlCmdGetFamily)
      in sbind (execute fuel (nl_NativeEndian L) C req 0 sock) (\<lambda>msgs sock. (family_in_msgs L msgs, sock)))"

section \<open>The operations of the handle\<close>

definition NewService where "NewService E s = doCmd E (Some s) None (ipvs_cmd_num CmdNewService)"
definition UpdateService where "UpdateService E s = doCmd E (Some s) None (ipvs_cmd_num CmdSetService)"
definition DelService where "DelService E s = doCmd E (Some s) None (ipvs_cmd_num CmdDelService)"
definition NewDestination where "NewDestination E s d = doCmd E (Some s) (Some d) (ipvs_cmd_num CmdNewDest)"
definition UpdateDestination where "UpdateDestination E s d = doCmd E (Some s) (Some d) (ipvs_cmd_num CmdSetDest)"
definition DelDestination where "DelDestination E s d = doCmd E (Some s) (Some d) (ipvs_cmd_num CmdDelDest)"

definition IsServicePresent :: "'v nl_env \<Rightarrow> service \<Rightarrow> 'v handle \<Rightarrow> (go_error, bool) outcome \<times> 'v handle" where
  "IsServicePresent E s i =
     (case doCmd E (Some s) None (ipvs_cmd_num CmdGetService) i of
        (Ret _, i) \<Rightarrow> (Ret True, i) | (Err _, i) \<Rightarrow> (Ret False, i) | (Panic, i) \<Rightarrow> (Panic, i) | (Stuck, i) \<Rightarrow> (Stuck, i))"

definition Flush :: "'v nl_env \<Rightarrow> 'v handle \<Rightarrow> (go_error, unit) outcome \<times> 'v handle" where
  "Flush E i = sbind (doCmdWithoutAttr E (ipvs_cmd_num CmdFlush) i) (\<lambda>_ i. (Ret (), i))"

definition GetServices where "GetServices E = doGetServicesCmd E None"
definition GetDestinations where "GetDestinations E s = doGetDestinationsCmd E (Some s) None"
definition GetConfig where "GetConfig E = doGetConfigCmd E"

definition GetService :: "'v nl_env \<Rightarrow> service \<Rightarrow> 'v handle \<Rightarrow> (go_error, service) outcome \<times> 'v handle" where
  "GetService E s i =
     sbind (doGetServicesCmd E (Some s) i) (\<lambda>res i.
       (if length res \<noteq> 1 then Err (ErrText ''Expected only one service'') else Ret (res ! 0), i))"

text \<open>The part of the handle the load balancer server uses.\<close>

definition handle_intf :: "'v nl_env \<Rightarrow> 'v handle ipvs_intf" where
  "handle_intf E = \<lparr>ipvs_IsServicePresent = IsServicePresent E, ipvs_NewService = NewService E,
     ipvs_DelService = DelService E, ipvs_NewDestination = NewDestination E, ipvs_DelDestination = DelDestination E\<rparr>"

end
