(* ===== verification/Nl_Memory.thy ===== *)
theory Nl_Memory
  imports Ipvs_Codec
begin

text \<open>
  A netlink library in memory, on a little-endian machine: an instance of \<open>nl_lib\<close> that keeps \<open>nl_laws\<close>,
  for the concrete runs of the development. It serves no other purpose: the theorems hold for any library.
\<close>

definition padding :: "nat \<Rightarrow> byte list" where
  "padding n = replicate ((4 - n mod 4) mod 4) 0"

fun mem_Serialize :: "rt_attr \<Rightarrow> byte list" where
  "mem_Serialize (RtAttr t d cs) =
     (let p = (if cs = [] then d else concat (map mem_Serialize cs)) in
      PutUint16 LittleEndian (word_of_nat (4 + length p)) @ PutUint16 LittleEndian (word_of_nat t) @ p @ padding (length p))"

definition attr_header :: "byte list \<Rightarrow> nat \<times> uint16" where
  "attr_header b = (nat_of_bytes (rev (take 2 b)), word_of_nat (nat_of_bytes (rev (take 2 (drop 2 b)))))"

function mem_Parse :: "byte list \<Rightarrow> byte list \<Rightarrow> (go_error, route_attr list) outcome" where
  "mem_Parse b sp =
     (if length b < 4 then Ret []
      else let (n, t) = attr_header b in
        if n < 4 \<or> length b < n then Err (Errno 22)
        else obind (mem_Parse (drop (n + length (padding n)) b) sp) (\<lambda>r.
          Ret ((t, Slice (take (n - 4) (drop 4 b)) (drop n b @ sp)) # r)))"
  by pat_completeness auto
termination
  by (relation "measure (\<lambda>(b, _). length b)") auto

declare mem_Parse.simps [simp del]

definition mem_nl :: nl_lib where
  "mem_nl = \<lparr>
     nl_NativeEndian = LittleEndian,
     nl_Uint16Attr = PutUint16 LittleEndian,
     nl_Uint32Attr = PutUint32 LittleEndian,
     nl_ZeroTerminated = (\<lambda>s. map of_char s @ [0]),
     nl_BytesToString = (\<lambda>b. map (\<lambda>x. char_of (unat x)) (takeWhile (\<lambda>x. x \<noteq> 0) b)),
     nl_GetIPFamily = (\<lambda>a. if length a \<le> 4 \<or> To4 a \<noteq> [] then 2 else 10),
     nl_FAMILY_V4 = 2,
     nl_Serialize = mem_Serialize,
     nl_ParseRouteAttr = (\<lambda>b. mem_Parse (elems b) (spare b))\<rparr>"

lemma mem_Serialize_payload:
  "mem_Serialize a = PutUint16 LittleEndian (word_of_nat (4 + length (payload mem_nl a))) @
     PutUint16 LittleEndian (word_of_nat (ra_Type a)) @ payload mem_nl a @ padding (length (payload mem_nl a))"
  by (cases a) (simp add: payload_def mem_nl_def Let_def)

lemma length_padding: "length (padding n) \<le> 3"
  by (simp add: padding_def)

lemma padding_add4 [simp]: "padding (4 + n) = padding n" "padding (Suc (Suc (Suc (Suc n)))) = padding n"
proof -
  have "Suc (Suc (Suc (Suc n))) mod 4 = n mod 4" by presburger
  then show "padding (4 + n) = padding n" "padding (Suc (Suc (Suc (Suc n)))) = padding n"
    by (simp_all add: padding_def)
qed

lemma rev_Put16: "rev (PutUint16 LittleEndian v) = bytes_be 2 (unat v)"
  by (simp add: PutUint16_def)

lemma attr_header_Serialize:
  assumes "n < 65536"
  shows "attr_header (PutUint16 LittleEndian (word_of_nat n) @ PutUint16 LittleEndian v @ r) = (n, v)"
proof -
  have "unat v < 65536" using unsigned_less[of v, where ?'a = nat] by simp
  with assms show ?thesis
    by (simp add: attr_header_def rev_Put16 nat_of_bytes_be unat_of_nat)
qed

lemma mem_Parse_step:
  assumes "attr_header b = (n, t)" "4 \<le> n" "n \<le> length b"
  shows "mem_Parse b sp = obind (mem_Parse (drop (n + length (padding n)) b) sp) (\<lambda>r.
    Ret ((t, Slice (take (n - 4) (drop 4 b)) (drop n b @ sp)) # r))"
  using assms by (subst mem_Parse.simps) simp

lemma mem_Parse_Serialize:
  assumes "list_all (fits mem_nl) as"
  shows "\<exists>vs. mem_Parse (concat (map mem_Serialize as)) sp = Ret vs \<and>
    map (\<lambda>(t, v). (unat t, elems v)) vs = map (\<lambda>a. (ra_Type a, payload mem_nl a)) as"
  using assms
proof (induction as)
  case Nil
  then show ?case by (simp add: mem_Parse.simps)
next
  case (Cons a as)
  let ?p = "payload mem_nl a" and ?r = "concat (map mem_Serialize as)"
  from Cons obtain vs where vs: "mem_Parse ?r sp = Ret vs"
    "map (\<lambda>(t, v). (unat t, elems v)) vs = map (\<lambda>a. (ra_Type a, payload mem_nl a)) as" by auto
  have n: "4 + length ?p < 65536" and t: "ra_Type a < 65536" using Cons.prems by (auto simp: fits_def)
  have b: "mem_Serialize a @ ?r = PutUint16 LittleEndian (word_of_nat (4 + length ?p)) @
      PutUint16 LittleEndian (word_of_nat (ra_Type a)) @ ?p @ padding (length ?p) @ ?r" (is "_ = ?b")
    by (simp add: mem_Serialize_payload)
  have h: "attr_header ?b = (4 + length ?p, word_of_nat (ra_Type a))" by (rule attr_header_Serialize[OF n])
  have "mem_Parse ?b sp = Ret ((word_of_nat (ra_Type a), Slice ?p (padding (length ?p) @ ?r @ sp)) # vs)"
    by (subst mem_Parse_step[OF h]) (simp_all add: vs(1))
  then show ?case using vs(2) t by (simp add: b unat_of_nat)
qed

lemma mem_strings:
  "list_all (\<lambda>c. c \<noteq> CHR 0x00) s \<Longrightarrow> map (\<lambda>x. char_of (unat x)) (takeWhile (\<lambda>x. x \<noteq> 0) (map of_char s @ [0 :: byte])) = s"
proof (induction s)
  case (Cons c s)
  have u: "unat (of_char c :: byte) = of_char c" by (simp add: of_char_def unat_word_ariths)
  have "(of_char c :: nat) \<noteq> of_char (CHR 0x00)" using Cons.prems by (simp only: of_char_eq_iff) simp
  then have "(of_char c :: byte) \<noteq> 0" using u by (auto simp: word_unat_eq_iff)
  with Cons u show ?case by simp
qed simp

lemma mem_nl_laws: "nl_laws mem_nl"
proof -
  have "length (mem_Serialize a) \<le> 7 + length (payload mem_nl a)" for a
    using length_padding by (simp add: mem_Serialize_payload)
  then show ?thesis
    using mem_Parse_Serialize mem_strings unfolding nl_laws_def mem_nl_def by simp
qed

end
