(* ===== verification/Ipvs_Roundtrip.thy ===== *)
theory Ipvs_Roundtrip
  imports Nl_Memory
begin

text \<open>
  What the codec of \<^verbatim>\<open>internal/ipvs/netlink_linux.go\<close> reads back of what it writes, over any netlink
  library that keeps \<open>nl_laws\<close>, and the library in memory the concrete runs use.
\<close>

section \<open>Parsing what was serialised\<close>

lemma nl_lawsD:
  assumes "nl_laws L"
  shows "nl_Uint16Attr L v = PutUint16 (nl_NativeEndian L) v"
    "nl_Uint32Attr L w = PutUint32 (nl_NativeEndian L) w"
    "list_all (\<lambda>c. c \<noteq> CHR 0x00) s \<Longrightarrow> nl_BytesToString L (nl_ZeroTerminated L s) = s"
    "length (nl_ZeroTerminated L s) = Suc (length s)"
    "nl_GetIPFamily L a = nl_FAMILY_V4 L \<longleftrightarrow> length a \<le> 4 \<or> To4 a \<noteq> []"
    "fits L x \<Longrightarrow> length (nl_Serialize L x) \<le> 7 + length (payload L x)"
  using assms unfolding nl_laws_def by blast+

lemma nl_parse:
  assumes "nl_laws L" "list_all (fits L) as"
  obtains vs where "nl_ParseRouteAttr L (Slice (concat (map (nl_Serialize L) as)) sp) = Ret vs"
    "map (\<lambda>(t, v). (unat t, elems v)) vs = map (\<lambda>a. (ra_Type a, payload L a)) as"
  using assms unfolding nl_laws_def by blast

lemma slice_eta: "elems v = xs \<Longrightarrow> v = Slice xs (spare v)"
  by (cases v) auto

lemma slice_at_prefix:
  "length xs = n \<Longrightarrow> slice_upto n (Slice (xs @ ys) sp) = Ret (Slice xs (ys @ sp))"
  "length xs = n \<Longrightarrow> slice_from n (Slice (xs @ ys) sp) = Ret (Slice ys sp)"
  by (simp_all add: slice_upto_def slice_from_def)

lemma length_header [simp]: "length (genlMsgHdr_Serialize L h) = 4"
  by (simp add: genlMsgHdr_Serialize_def)

lemma deserialize_header: "deserializeGenlMsg L (Slice (genlMsgHdr_Serialize L h @ b) sp) = Ret h"
  unfolding deserializeGenlMsg_def slice_at_prefix(1)[OF length_header] obind.simps slice.sel
  by (simp add: genlMsgHdr_Serialize_def)

lemma message_attrs_of:
  "message_attrs L (Slice (genlMsgHdr_Serialize L h @ b) sp) = nl_ParseRouteAttr L (Slice b sp)"
  unfolding message_attrs_def deserialize_header genlMsgHdr_Len_def
  by (simp only: slice_at_prefix(2)[OF length_header] obind.simps)

text \<open>The message of one object: its header, its attribute, whose value parses into the children.\<close>

lemma parse_object:
  assumes "nl_laws L" "fits L a" "ra_children a \<noteq> []" "list_all (fits L) (ra_children a)"
  obtains t v vs where
    "message_attrs L (Slice (genlMsgHdr_Serialize L h @ nl_Serialize L a) sp) = Ret [(t, v)]"
    "nl_ParseRouteAttr L v = Ret vs"
    "map (\<lambda>(t, v). (unat t, elems v)) vs = map (\<lambda>a. (ra_Type a, payload L a)) (ra_children a)"
proof -
  obtain ws where ws: "nl_ParseRouteAttr L (Slice (nl_Serialize L a) sp) = Ret ws"
    "map (\<lambda>(t, v). (unat t, elems v)) ws = [(ra_Type a, payload L a)]"
    using nl_parse[OF assms(1), of "[a]" sp] assms(2) by auto
  then obtain t v where tv: "ws = [(t, v)]" "elems v = payload L a" by auto
  have v: "v = Slice (concat (map (nl_Serialize L) (ra_children a))) (spare v)"
    using slice_eta[OF tv(2)] assms(3) by (simp add: payload_def)
  obtain vs where vs: "nl_ParseRouteAttr L v = Ret vs"
    "map (\<lambda>(t, v). (unat t, elems v)) vs = map (\<lambda>a. (ra_Type a, payload L a)) (ra_children a)"
    using nl_parse[OF assms(1,4), of "spare v", folded v] by blast
  have "message_attrs L (Slice (genlMsgHdr_Serialize L h @ nl_Serialize L a) sp) = Ret [(t, v)]"
    using ws(1) tv(1) by (simp add: message_attrs_of)
  then show thesis using vs by (rule that)
qed

lemma slice_upto_elems:
  "n \<le> length (elems v) \<Longrightarrow> obind (slice_upto n v) (\<lambda>r. Ret (elems r)) = Ret (take n (elems v))"
  by (simp add: slice_upto_def)

lemma payload_leaf [simp]: "payload L (RtAttr t d []) = d"
  by (simp add: payload_def)

lemma fits_leaf: "fits L (RtAttr t d []) \<longleftrightarrow> t < 65536 \<and> length d < 65532"
  by (simp add: fits_def)

section \<open>The address of a service or a real server\<close>

text \<open>
  The kernel keeps an address in 16 bytes, an IPv4 address in the first four of them (the comment of
  \<^verbatim>\<open>getIPFamily\<close>): \<open>kernel_form\<close> is an attribute tree as the kernel sends it back.
\<close>

definition kernel_form :: "nat \<Rightarrow> rt_attr \<Rightarrow> rt_attr" where
  "kernel_form ty a =
     RtAttr (ra_Type a) (ra_Data a)
       (map (\<lambda>c. if ra_Type c = ty then RtAttr ty (ra_Data c @ replicate (16 - length (ra_Data c)) 0) [] else c)
         (ra_children a))"

definition family_of :: "ip \<Rightarrow> uint16" where
  "family_of a = (if To4 a \<noteq> [] then AF_INET else AF_INET6)"

definition proper_ip :: "ip \<Rightarrow> bool" where
  "proper_ip a \<longleftrightarrow> length a = 4 \<or> length a = 16"

definition short_ip :: "ip \<Rightarrow> ip" where
  "short_ip a = (if To4 a \<noteq> [] then To4 a else a)"

lemma AF_simps [simp]: "AF_INET \<noteq> AF_INET6" "AF_INET6 \<noteq> AF_INET" "AF_INET \<noteq> 0" "AF_INET6 \<noteq> 0"
  by (simp_all add: AF_INET_def AF_INET6_def)

lemma length_short_ip:
  "proper_ip a \<Longrightarrow> length (short_ip a) = (if To4 a \<noteq> [] then 4 else 16)"
  by (auto simp: proper_ip_def short_ip_def To4_def)

lemma rawIPData_proper: "nl_laws L \<Longrightarrow> proper_ip a \<Longrightarrow> rawIPData L a = short_ip a"
  by (auto simp: rawIPData_def nl_lawsD short_ip_def proper_ip_def To4_def)

lemma parseIP_kernel:
  assumes "proper_ip a" "elems v = short_ip a @ replicate (16 - length (short_ip a)) 0"
  shows "parseIP v (family_of a) = Ret (short_ip a)"
  using assms(2) length_short_ip[OF assms(1)]
  by (auto simp: parseIP_def family_of_def slice_upto_elems)

lemma parseIP_kernel_AF_INET:
  "proper_ip a \<Longrightarrow> To4 a \<noteq> [] \<Longrightarrow> elems v = short_ip a @ replicate 12 0 \<Longrightarrow> parseIP v AF_INET = Ret (short_ip a)"
  using parseIP_kernel[of a v] length_short_ip[of a] by (simp add: family_of_def)

section \<open>Services\<close>

lemma fillService_children:
  "fillService L s = RtAttr ipvsCmdAttrService [] (
     [RtAttr ipvsSvcAttrAddressFamily (nl_Uint16Attr L (svc_AddressFamily s)) []] @
     (if svc_FWMark s \<noteq> 0 then [RtAttr ipvsSvcAttrFWMark (nl_Uint32Attr L (svc_FWMark s)) []]
      else [RtAttr ipvsSvcAttrProtocol (nl_Uint16Attr L (svc_Protocol s)) [],
        RtAttr ipvsSvcAttrAddress (rawIPData L (svc_Address s)) [],
        RtAttr ipvsSvcAttrPort (PutUint16 BigEndian (svc_Port s)) []]) @
     [RtAttr ipvsSvcAttrSchedName (nl_ZeroTerminated L (svc_SchedName s)) []] @
     (if svc_PEName s \<noteq> [] then [RtAttr ipvsSvcAttrPEName (nl_ZeroTerminated L (svc_PEName s)) []] else []) @
     [RtAttr ipvsSvcAttrFlags (ipvsFlags_Serialize L \<lparr>fl_flags = svc_Flags s, fl_mask = 0xFFFFFFFF\<rparr>) [],
      RtAttr ipvsSvcAttrTimeout (nl_Uint32Attr L (svc_Timeout s)) [],
      RtAttr ipvsSvcAttrNetmask (nl_Uint32Attr L (svc_Netmask s)) []])"
  by (simp add: fillService_def NewRtAttr_def NewRtAttrChild_def Let_def)

text \<open>What is read back: the short form of the address, no statistics; the persistence engine is not read.\<close>

definition service_as_read :: "service \<Rightarrow> service" where
  "service_as_read s =
     (let r = s\<lparr>svc_PEName := [], svc_Stats := zero_stats\<rparr> in
      if svc_FWMark s \<noteq> 0 then r\<lparr>svc_Protocol := 0, svc_Address := [], svc_Port := 0\<rparr>
      else r\<lparr>svc_Address := short_ip (svc_Address s)\<rparr>)"

definition sendable_service :: "service \<Rightarrow> bool" where
  "sendable_service s \<longleftrightarrow>
     (svc_FWMark s = 0 \<longrightarrow> proper_ip (svc_Address s) \<and> svc_AddressFamily s = family_of (svc_Address s)) \<and>
     list_all (\<lambda>c. c \<noteq> CHR 0x00) (svc_SchedName s) \<and> length (svc_SchedName s) + length (svc_PEName s) < 60000"

lemma short_bound: "proper_ip a \<Longrightarrow> length (short_ip a) \<le> 16"
  using length_short_ip[of a] by simp

lemmas service_bytes = fillService_children kernel_form_def fits_leaf nl_lawsD(1,2,4) ipvs_attr_defs
  ipvsCmdAttrService_def ipvsFlags_Serialize_def

lemma fits_of_children:
  assumes "nl_laws L" "list_all (fits L) cs" "cs \<noteq> []" "t < 65536"
    "sum_list (map (\<lambda>c. 7 + length (payload L c)) cs) < 65532"
  shows "fits L (RtAttr t [] cs)"
proof -
  have "length (concat (map (nl_Serialize L) cs)) \<le> sum_list (map (\<lambda>c. 7 + length (payload L c)) cs)"
    using assms(2) nl_lawsD(6)[OF assms(1)] by (induction cs) (auto simp: add_mono)
  with assms show ?thesis by (simp add: fits_def payload_def)
qed

lemma fits_kernel_service:
  assumes "nl_laws L" "sendable_service s"
  shows "list_all (fits L) (ra_children (kernel_form ipvsSvcAttrAddress (fillService L s)))" (is "list_all _ ?cs")
    "fits L (kernel_form ipvsSvcAttrAddress (fillService L s))"
proof -
  have raw: "svc_FWMark s = 0 \<Longrightarrow> rawIPData L (svc_Address s) = short_ip (svc_Address s)"
    "svc_FWMark s = 0 \<Longrightarrow> length (short_ip (svc_Address s)) \<le> 16"
    using assms by (auto simp: rawIPData_proper sendable_service_def short_bound)
  show a: "list_all (fits L) ?cs"
    using raw assms(2) by (auto simp: service_bytes assms(1) sendable_service_def)
  have "fits L (RtAttr ipvsCmdAttrService [] ?cs)"
    using a by (rule fits_of_children[OF assms(1)])
      (use raw assms(2) in \<open>auto simp: service_bytes assms(1) sendable_service_def\<close>)
  then show "fits L (kernel_form ipvsSvcAttrAddress (fillService L s))"
    by (simp add: kernel_form_def fillService_children)
qed

text \<open>The steps of the loop, by attribute.\<close>

lemma service_attr_steps:
  assumes "nl_laws L"
  shows "unat t = 1 \<Longrightarrow> elems v = nl_Uint16Attr L x \<Longrightarrow> service_attr L (t, v) (s, b) = Ret (s\<lparr>svc_AddressFamily := x\<rparr>, b)"
    "unat t = 2 \<Longrightarrow> elems v = nl_Uint16Attr L x \<Longrightarrow> service_attr L (t, v) (s, b) = Ret (s\<lparr>svc_Protocol := x\<rparr>, b)"
    "unat t = 3 \<Longrightarrow> service_attr L (t, v) (s, b) = Ret (s, Some v)"
    "unat t = 4 \<Longrightarrow> elems v = PutUint16 BigEndian x \<Longrightarrow> service_attr L (t, v) (s, b) = Ret (s\<lparr>svc_Port := x\<rparr>, b)"
    "unat t = 5 \<Longrightarrow> elems v = nl_Uint32Attr L y \<Longrightarrow> service_attr L (t, v) (s, b) = Ret (s\<lparr>svc_FWMark := y\<rparr>, b)"
    "unat t = 6 \<Longrightarrow> elems v = nl_ZeroTerminated L z \<Longrightarrow> list_all (\<lambda>c. c \<noteq> CHR 0x00) z \<Longrightarrow>
       service_attr L (t, v) (s, b) = Ret (s\<lparr>svc_SchedName := z\<rparr>, b)"
    "unat t = 7 \<Longrightarrow> elems v = ipvsFlags_Serialize L f \<Longrightarrow> service_attr L (t, v) (s, b) = Ret (s\<lparr>svc_Flags := fl_flags f\<rparr>, b)"
    "unat t = 8 \<Longrightarrow> elems v = nl_Uint32Attr L y \<Longrightarrow> service_attr L (t, v) (s, b) = Ret (s\<lparr>svc_Timeout := y\<rparr>, b)"
    "unat t = 9 \<Longrightarrow> elems v = nl_Uint32Attr L y \<Longrightarrow> service_attr L (t, v) (s, b) = Ret (s\<lparr>svc_Netmask := y\<rparr>, b)"
    "unat t = 11 \<Longrightarrow> service_attr L (t, v) (s, b) = Ret (s, b)"
  by (simp_all add: service_attr_def ipvs_attr_defs nl_lawsD[OF assms] ipvsFlags_Serialize_def Let_def)

abbreviation seen :: "route_attr list \<Rightarrow> (nat \<times> byte list) list" where
  "seen vs \<equiv> map (\<lambda>(t, v). (unat t, elems v)) vs"

lemma seen_Cons:
  assumes "seen vs = (n, d) # r"
  obtains t v ws where "vs = (t, v) # ws" "unat t = n" "elems v = d" "seen ws = r"
  using assms by (auto simp: map_eq_Cons_conv)

lemma service_tail:
  assumes "nl_laws L" "list_all (\<lambda>c. c \<noteq> CHR 0x00) z"
    "seen vs = (6, nl_ZeroTerminated L z) # (if pe = [] then [] else [(11, nl_ZeroTerminated L pe)]) @
       [(7, ipvsFlags_Serialize L f), (8, nl_Uint32Attr L x), (9, nl_Uint32Attr L y)]"
  shows "for_attrs (service_attr L) vs (s, b) =
    Ret (s\<lparr>svc_SchedName := z, svc_Flags := fl_flags f, svc_Timeout := x, svc_Netmask := y\<rparr>, b)"
  using assms(2,3)
  by (cases "pe = []") (auto elim!: seen_Cons simp: service_attr_steps[OF assms(1)])

lemma service_by_mark:
  assumes "nl_laws L" "seen vs = (1, nl_Uint16Attr L a) # (5, nl_Uint32Attr L m) # r"
  obtains ws where "seen ws = r"
    "for_attrs (service_attr L) vs (s, b) = for_attrs (service_attr L) ws (s\<lparr>svc_AddressFamily := a, svc_FWMark := m\<rparr>, b)"
  using assms(2) by (auto elim!: seen_Cons simp: service_attr_steps[OF assms(1)])

lemma service_by_address:
  assumes "nl_laws L" "seen vs = (1, nl_Uint16Attr L a) # (2, nl_Uint16Attr L p) # (3, d) # (4, PutUint16 BigEndian q) # r"
  obtains ws v where "seen ws = r" "elems v = d"
    "for_attrs (service_attr L) vs (s, b) = for_attrs (service_attr L) ws
       (s\<lparr>svc_AddressFamily := a, svc_Protocol := p, svc_Port := q\<rparr>, Some v)"
  using assms(2) by (auto elim!: seen_Cons simp: service_attr_steps[OF assms(1)])

abbreviation rest_of :: "nl_lib \<Rightarrow> service \<Rightarrow> (nat \<times> byte list) list" where
  "rest_of L s \<equiv> (6, nl_ZeroTerminated L (svc_SchedName s)) #
    (if svc_PEName s = [] then [] else [(11, nl_ZeroTerminated L (svc_PEName s))]) @
    [(7, ipvsFlags_Serialize L \<lparr>fl_flags = svc_Flags s, fl_mask = 0xFFFFFFFF\<rparr>),
     (8, nl_Uint32Attr L (svc_Timeout s)), (9, nl_Uint32Attr L (svc_Netmask s))]"

lemma children_seen:
  "map (\<lambda>a. (ra_Type a, payload L a)) (ra_children (kernel_form ipvsSvcAttrAddress (fillService L s))) =
    (1, nl_Uint16Attr L (svc_AddressFamily s)) #
    (if svc_FWMark s \<noteq> 0 then (5, nl_Uint32Attr L (svc_FWMark s)) # rest_of L s
     else (2, nl_Uint16Attr L (svc_Protocol s)) #
       (3, rawIPData L (svc_Address s) @ replicate (16 - length (rawIPData L (svc_Address s))) 0) #
       (4, PutUint16 BigEndian (svc_Port s)) # rest_of L s)"
  by (simp add: fillService_children kernel_form_def ipvs_attr_defs)

lemma assembleService_kernel:
  assumes L: "nl_laws L" and s: "sendable_service s"
    and vs: "seen vs = map (\<lambda>a. (ra_Type a, payload L a)) (ra_children (kernel_form ipvsSvcAttrAddress (fillService L s)))"
  shows "assembleService L vs = Ret (service_as_read s)"
proof (cases "svc_FWMark s = 0")
  case True
  then have pr: "proper_ip (svc_Address s)" and fam: "svc_AddressFamily s = family_of (svc_Address s)"
    using s by (auto simp: sendable_service_def)
  have known: "seen vs = (1, nl_Uint16Attr L (svc_AddressFamily s)) # (2, nl_Uint16Attr L (svc_Protocol s)) #
      (3, short_ip (svc_Address s) @ replicate (16 - length (short_ip (svc_Address s))) 0) #
      (4, PutUint16 BigEndian (svc_Port s)) # rest_of L s"
    using vs True by (simp only: children_seen rawIPData_proper[OF L pr]) simp
  obtain ws v where ws: "seen ws = rest_of L s"
    and v: "elems v = short_ip (svc_Address s) @ replicate (16 - length (short_ip (svc_Address s))) 0"
    and run: "for_attrs (service_attr L) vs (zero_service, None) = for_attrs (service_attr L) ws
       (zero_service\<lparr>svc_AddressFamily := svc_AddressFamily s, svc_Protocol := svc_Protocol s, svc_Port := svc_Port s\<rparr>, Some v)"
    by (rule service_by_address[OF L known]) (rule that)
  show ?thesis
    using service_tail[OF L _ ws] s True parseIP_kernel[OF pr v] fam unfolding assembleService_def run
    by (cases s) (simp add: sendable_service_def service_as_read_def Let_def zero_service_def)
next
  case False
  have known: "seen vs = (1, nl_Uint16Attr L (svc_AddressFamily s)) # (5, nl_Uint32Attr L (svc_FWMark s)) # rest_of L s"
    using vs False by (simp only: children_seen) simp
  obtain ws where ws: "seen ws = rest_of L s"
    and run: "for_attrs (service_attr L) vs (zero_service, None) = for_attrs (service_attr L) ws
       (zero_service\<lparr>svc_AddressFamily := svc_AddressFamily s, svc_FWMark := svc_FWMark s\<rparr>, None)"
    by (rule service_by_mark[OF L known]) (rule that)
  show ?thesis
    using service_tail[OF L _ ws] s False unfolding assembleService_def run
    by (cases s) (simp add: sendable_service_def service_as_read_def Let_def zero_service_def)
qed

text \<open>
  C13. A service that is sent, stored by the kernel and sent back is read as the same service, with its
  address in the short form, whatever the netlink library, the machine's byte order and the bytes
  after the message; a service with a firewall mark loses protocol, address and port, and every
  service the name of its persistence engine.
\<close>

theorem service_roundtrip:
  assumes "nl_laws L" "sendable_service s"
  shows "parseService L (Slice (genlMsgHdr_Serialize L h @
      nl_Serialize L (kernel_form ipvsSvcAttrAddress (fillService L s))) sp) = Ret (service_as_read s)"
proof -
  obtain t v vs where
    m: "message_attrs L (Slice (genlMsgHdr_Serialize L h @
        nl_Serialize L (kernel_form ipvsSvcAttrAddress (fillService L s))) sp) = Ret [(t, v)]"
    and p: "nl_ParseRouteAttr L v = Ret vs"
    and vs: "map (\<lambda>(t, v). (unat t, elems v)) vs =
      map (\<lambda>a. (ra_Type a, payload L a)) (ra_children (kernel_form ipvsSvcAttrAddress (fillService L s)))"
    by (rule parse_object[OF assms(1) fits_kernel_service(2)[OF assms] _ fits_kernel_service(1)[OF assms], of h sp])
      (simp add: kernel_form_def fillService_children, rule that)
  have "assembleService L vs = Ret (service_as_read s)"
    using vs by (rule assembleService_kernel[OF assms])
  with m p show ?thesis by (simp add: parseService_def)
qed

lemma service_roundtrip_witness:
  "parseService mem_nl (Slice ([1, 1, 0, 0] @ nl_Serialize mem_nl (kernel_form ipvsSvcAttrAddress
     (fillService mem_nl (zero_service\<lparr>svc_AddressFamily := AF_INET, svc_Protocol := IPPROTO_TCP,
        svc_Address := IPv4 10 0 0 7, svc_Port := 80, svc_SchedName := RoundRobin, svc_PEName := ''sip''\<rparr>)))) []) =
   Ret (zero_service\<lparr>svc_AddressFamily := AF_INET, svc_Protocol := IPPROTO_TCP,
        svc_Address := [10, 0, 0, 7], svc_Port := 80, svc_SchedName := RoundRobin\<rparr>)"
proof -
  let ?s = "zero_service\<lparr>svc_AddressFamily := AF_INET, svc_Protocol := IPPROTO_TCP,
        svc_Address := IPv4 10 0 0 7, svc_Port := 80, svc_SchedName := RoundRobin, svc_PEName := ''sip''\<rparr>"
  have ok: "sendable_service ?s" by code_simp
  have r: "service_as_read ?s = zero_service\<lparr>svc_AddressFamily := AF_INET, svc_Protocol := IPPROTO_TCP,
        svc_Address := [10, 0, 0, 7], svc_Port := 80, svc_SchedName := RoundRobin\<rparr>" by code_simp
  have h: "genlMsgHdr_Serialize mem_nl \<lparr>gh_cmd = 1, gh_version = 1, gh_reserved = 0\<rparr> = [1, 1, 0, 0]" by code_simp
  show ?thesis
    using service_roundtrip[OF mem_nl_laws ok, of "\<lparr>gh_cmd = 1, gh_version = 1, gh_reserved = 0\<rparr>" "[]"]
    unfolding r h .
qed

section \<open>Real servers\<close>

text \<open>
  The weight is written as 32 bits and read as the first 16 of them: the low half on a little-endian
  machine, the high half on a big-endian one.
\<close>

definition weight_as_read :: "byte_order \<Rightarrow> uint64 \<Rightarrow> uint64" where
  "weight_as_read bo w =
     word_of_nat (case bo of LittleEndian \<Rightarrow> unat w mod 65536 | BigEndian \<Rightarrow> unat w div 65536 mod 65536)"

lemma bytes_be_4: "bytes_be 4 n = [word_of_nat (n div 16777216), word_of_nat (n div 65536), word_of_nat (n div 256), word_of_nat n]"
proof -
  have four: "4 = Suc (Suc (Suc (Suc 0)))" by simp
  show ?thesis by (subst four) simp
qed

lemma bytes_be_2: "bytes_be 2 n = [word_of_nat (n div 256), word_of_nat n]"
proof -
  have two: "2 = Suc (Suc 0)" by simp
  show ?thesis by (subst two) simp
qed

lemma Uint16_of_Uint32:
  "Uint16 bo (PutUint32 bo w) = Ret (case bo of LittleEndian \<Rightarrow> ucast w | BigEndian \<Rightarrow> ucast (drop_bit 16 w))"
proof (cases bo)
  case LittleEndian
  have "nat_of_bytes (bytes_be 2 (unat w)) = unat w mod 65536" by (simp add: nat_of_bytes_be)
  moreover have "word_of_nat (unat w mod 65536) = (ucast w :: uint16)"
    by (simp add: word_unat_eq_iff unat_of_nat unsigned_ucast_eq take_bit_eq_mod)
  ultimately show ?thesis using LittleEndian
    by (simp add: Uint16_def PutUint32_def bytes_be_4 bytes_be_2)
next
  case BigEndian
  have "nat_of_bytes (bytes_be 2 (unat w div 65536)) = unat w div 65536 mod 65536" by (simp add: nat_of_bytes_be)
  moreover have "word_of_nat (unat w div 65536 mod 65536) = (ucast (drop_bit 16 w) :: uint16)"
    by (simp add: word_unat_eq_iff unat_of_nat unsigned_ucast_eq take_bit_eq_mod drop_bit_eq_div unat_div)
  ultimately show ?thesis using BigEndian
    by (simp add: Uint16_def PutUint32_def bytes_be_4 bytes_be_2 div_mult2_eq[symmetric])
qed

lemma weight_read:
  "(case bo of LittleEndian \<Rightarrow> ucast (ucast w :: uint32) | BigEndian \<Rightarrow> (ucast (drop_bit 16 (ucast w :: uint32)) :: uint16))
    = word_of_nat (case bo of LittleEndian \<Rightarrow> unat (w :: uint64) mod 65536 | BigEndian \<Rightarrow> unat w div 65536 mod 65536)"
proof (cases bo)
  case LittleEndian
  have "unat (ucast x :: uint16) = unat x mod 65536" for x :: uint32
    by (simp add: unsigned_ucast_eq take_bit_eq_mod)
  moreover have "unat (ucast w :: uint32) = unat w mod 4294967296"
    by (simp add: unsigned_ucast_eq take_bit_eq_mod)
  ultimately have "unat (ucast (ucast w :: uint32) :: uint16) = unat w mod 4294967296 mod 65536"
    by (simp only:)
  then have "unat (ucast (ucast w :: uint32) :: uint16) = unat w mod 65536" by (simp add: mod_mod_cancel)
  with LittleEndian show ?thesis by (simp add: word_unat_eq_iff unat_of_nat del: ucast_down_ucast_id)
next
  case BigEndian
  have "unat w mod 4294967296 div 65536 = unat w div 65536 mod 65536"
    using mod_mult2_eq[of "unat w" 65536 65536] by simp
  with BigEndian show ?thesis
    by (simp add: word_unat_eq_iff unat_of_nat unsigned_ucast_eq take_bit_eq_mod drop_bit_eq_div unat_div)
qed

lemma weight_as_read_ucast:
  "ucast (word_of_nat (case bo of LittleEndian \<Rightarrow> unat (w :: uint64) mod 65536 | BigEndian \<Rightarrow> unat w div 65536 mod 65536) :: uint16)
    = weight_as_read bo w"
  by (simp add: weight_as_read_def word_unat_eq_iff unat_of_nat unsigned_ucast_eq take_bit_eq_mod split: byte_order.splits)

lemma fillDestination_children:
  "fillDestination L d = RtAttr ipvsCmdAttrDest [] [
     RtAttr ipvsDestAttrAddress (rawIPData L (dst_Address d)) [],
     RtAttr ipvsDestAttrPort (PutUint16 BigEndian (dst_Port d)) [],
     RtAttr ipvsDestAttrForwardingMethod (nl_Uint32Attr L (dst_ConnectionFlags d AND ConnectionFlagFwdMask)) [],
     RtAttr ipvsDestAttrWeight (nl_Uint32Attr L (ucast (dst_Weight d))) [],
     RtAttr ipvsDestAttrUpperThreshold (nl_Uint32Attr L (dst_UpperThreshold d)) [],
     RtAttr ipvsDestAttrLowerThreshold (nl_Uint32Attr L (dst_LowerThreshold d)) []]"
  by (simp add: fillDestination_def NewRtAttr_def NewRtAttrChild_def Let_def)

lemma fits_kernel_destination:
  assumes "nl_laws L" "proper_ip (dst_Address d)"
  shows "list_all (fits L) (ra_children (kernel_form ipvsDestAttrAddress (fillDestination L d)))" (is "list_all _ ?cs")
    "fits L (kernel_form ipvsDestAttrAddress (fillDestination L d))"
proof -
  note bytes = fillDestination_children kernel_form_def fits_leaf nl_lawsD(1,2,4)[OF assms(1)] ipvs_attr_defs
    ipvsCmdAttrDest_def rawIPData_proper[OF assms] short_bound[OF assms(2)]
  show a: "list_all (fits L) ?cs" using short_bound[OF assms(2)] by (simp add: bytes)
  have "fits L (RtAttr ipvsCmdAttrDest [] ?cs)"
    using a by (rule fits_of_children[OF assms(1)]) (use short_bound[OF assms(2)] in \<open>simp_all add: bytes\<close>)
  then show "fits L (kernel_form ipvsDestAttrAddress (fillDestination L d))"
    by (simp add: kernel_form_def fillDestination_children)
qed

text \<open>The family of an address in the kernel's 16 bytes.\<close>

definition guessed_family :: "ip \<Rightarrow> (go_error, uint16) outcome" where
  "guessed_family a =
     (if isZeros a then Err (ErrText ''could not parse IP family from address data'')
      else if length a = 4 \<or> isZeros (drop 4 a) then Ret AF_INET else Ret AF_INET6)"

lemma isZeros_append [simp]: "isZeros (a @ b) \<longleftrightarrow> isZeros a \<and> isZeros b" "isZeros (replicate n 0)"
  by (auto simp: isZeros_def list_all_iff)

lemma getIPFamily_split:
  assumes "length h = 4"
  shows "getIPFamily (Slice (h @ t) sp) =
    (if t = [] then Ret AF_INET
     else if isZeros h \<and> isZeros t then Err (ErrText ''could not parse IP family from address data'')
     else if \<not> isZeros h \<and> isZeros t then Ret AF_INET else Ret AF_INET6)"
  using assms by (auto simp: getIPFamily_def slice_at_prefix)

text \<open>
  The family guessed for the 16 bytes of an address is IPv4 exactly when the first four bytes are not
  zero and the others are, so an IPv4 address is recognised unless it is 0.0.0.0 (an error), and an
  IPv6 address whose last twelve bytes are zero is taken for IPv4.
\<close>

lemma getIPFamily_kernel:
  assumes "proper_ip a"
  shows "getIPFamily (Slice (short_ip a @ replicate (16 - length (short_ip a)) 0) sp) = guessed_family (short_ip a)"
proof -
  have len: "length (short_ip a) = 4 \<or> length (short_ip a) = 16"
    using length_short_ip[OF assms] by auto
  have four: "length (take 4 (short_ip a)) = 4" using len by auto
  have split: "short_ip a @ r = take 4 (short_ip a) @ drop 4 (short_ip a) @ r" for r by simp
  have z: "isZeros (short_ip a) \<longleftrightarrow> isZeros (take 4 (short_ip a)) \<and> isZeros (drop 4 (short_ip a))"
    using isZeros_append(1)[of "take 4 (short_ip a)" "drop 4 (short_ip a)"] by simp
  show ?thesis
    unfolding split getIPFamily_split[OF four] guessed_family_def z using len
    by (auto simp: isZeros_def list_all_iff)
qed

lemma destination_attr_steps:
  assumes "nl_laws L"
  shows "unat t = 1 \<Longrightarrow> destination_attr L (t, v) (d, b) = Ret (d, Some v)"
    "unat t = 2 \<Longrightarrow> elems v = PutUint16 BigEndian x \<Longrightarrow> destination_attr L (t, v) (d, b) = Ret (d\<lparr>dst_Port := x\<rparr>, b)"
    "unat t = 3 \<Longrightarrow> elems v = nl_Uint32Attr L y \<Longrightarrow> destination_attr L (t, v) (d, b) = Ret (d\<lparr>dst_ConnectionFlags := y\<rparr>, b)"
    "unat t = 4 \<Longrightarrow> elems v = nl_Uint32Attr L (ucast w) \<Longrightarrow>
       destination_attr L (t, v) (d, b) = Ret (d\<lparr>dst_Weight := weight_as_read (nl_NativeEndian L) w\<rparr>, b)"
    "unat t = 5 \<Longrightarrow> elems v = nl_Uint32Attr L y \<Longrightarrow> destination_attr L (t, v) (d, b) = Ret (d\<lparr>dst_UpperThreshold := y\<rparr>, b)"
    "unat t = 6 \<Longrightarrow> elems v = nl_Uint32Attr L y \<Longrightarrow> destination_attr L (t, v) (d, b) = Ret (d\<lparr>dst_LowerThreshold := y\<rparr>, b)"
  by (simp_all add: destination_attr_def ipvs_attr_defs nl_lawsD[OF assms] Let_def Uint16_of_Uint32 weight_read
      weight_as_read_ucast)

lemma destination_loop:
  assumes "nl_laws L"
    "seen vs = [(1, a), (2, PutUint16 BigEndian p), (3, nl_Uint32Attr L f), (4, nl_Uint32Attr L (ucast w)),
       (5, nl_Uint32Attr L u), (6, nl_Uint32Attr L l)]"
  obtains v where "elems v = a" "for_attrs (destination_attr L) vs (d, b) =
    Ret (d\<lparr>dst_Port := p, dst_ConnectionFlags := f, dst_Weight := weight_as_read (nl_NativeEndian L) w,
      dst_UpperThreshold := u, dst_LowerThreshold := l\<rparr>, Some v)"
  using assms(2) by (auto elim!: seen_Cons simp: destination_attr_steps[OF assms(1)])

definition destination_as_read :: "byte_order \<Rightarrow> destination \<Rightarrow> destination" where
  "destination_as_read bo d =
     d\<lparr>dst_Address := short_ip (dst_Address d),
       dst_Weight := weight_as_read bo (dst_Weight d),
       dst_ConnectionFlags := dst_ConnectionFlags d AND ConnectionFlagFwdMask,
       dst_AddressFamily := family_of (dst_Address d),
       dst_ActiveConnections := 0, dst_InactiveConnections := 0, dst_Stats := zero_stats\<rparr>"

lemma assembleDestination_kernel:
  assumes L: "nl_laws L" and pr: "proper_ip (dst_Address d)"
    and fam: "guessed_family (short_ip (dst_Address d)) = Ret (family_of (dst_Address d))"
    and vs: "seen vs = map (\<lambda>a. (ra_Type a, payload L a)) (ra_children (kernel_form ipvsDestAttrAddress (fillDestination L d)))"
  shows "assembleDestination L vs = Ret (destination_as_read (nl_NativeEndian L) d)"
proof -
  let ?a = "short_ip (dst_Address d) @ replicate (16 - length (short_ip (dst_Address d))) 0"
  have known: "seen vs = [(1, ?a), (2, PutUint16 BigEndian (dst_Port d)),
      (3, nl_Uint32Attr L (dst_ConnectionFlags d AND ConnectionFlagFwdMask)), (4, nl_Uint32Attr L (ucast (dst_Weight d))),
      (5, nl_Uint32Attr L (dst_UpperThreshold d)), (6, nl_Uint32Attr L (dst_LowerThreshold d))]"
    using vs by (simp add: fillDestination_children kernel_form_def ipvs_attr_defs rawIPData_proper[OF L pr])
  obtain v where v: "elems v = ?a"
    and run: "for_attrs (destination_attr L) vs (zero_destination, None) =
      Ret (zero_destination\<lparr>dst_Port := dst_Port d, dst_ConnectionFlags := dst_ConnectionFlags d AND ConnectionFlagFwdMask,
        dst_Weight := weight_as_read (nl_NativeEndian L) (dst_Weight d),
        dst_UpperThreshold := dst_UpperThreshold d, dst_LowerThreshold := dst_LowerThreshold d\<rparr>, Some v)"
    by (rule destination_loop[OF L known]) (rule that)
  have guess: "getIPFamily v = Ret (family_of (dst_Address d))"
    using getIPFamily_kernel[OF pr, of "spare v"] slice_eta[OF v] fam by simp
  show ?thesis
    using guess parseIP_kernel[OF pr v] unfolding assembleDestination_def run
    by (cases d) (simp add: zero_destination_def destination_as_read_def)
qed

text \<open>
  C18. A real server that is sent, stored by the kernel and sent back without its family (as kernels before
  3.18 do) is read as the same server with its forwarding method masked and its address in the short
  form, provided its family can be guessed; but of its weight, written as 32 bits, only 16 are read.
\<close>

theorem destination_roundtrip:
  assumes "nl_laws L" "proper_ip (dst_Address d)"
    and "guessed_family (short_ip (dst_Address d)) = Ret (family_of (dst_Address d))"
  shows "parseDestination L (Slice (genlMsgHdr_Serialize L h @
      nl_Serialize L (kernel_form ipvsDestAttrAddress (fillDestination L d))) sp) =
    Ret (destination_as_read (nl_NativeEndian L) d)"
proof -
  obtain t v vs where
    m: "message_attrs L (Slice (genlMsgHdr_Serialize L h @
        nl_Serialize L (kernel_form ipvsDestAttrAddress (fillDestination L d))) sp) = Ret [(t, v)]"
    and p: "nl_ParseRouteAttr L v = Ret vs"
    and vs: "seen vs = map (\<lambda>a. (ra_Type a, payload L a)) (ra_children (kernel_form ipvsDestAttrAddress (fillDestination L d)))"
    by (rule parse_object[OF assms(1) fits_kernel_destination(2)[OF assms(1,2)] _ fits_kernel_destination(1)[OF assms(1,2)], of h sp])
      (simp add: kernel_form_def fillDestination_children, rule that)
  from assembleDestination_kernel[OF assms vs] m p show ?thesis by (simp add: parseDestination_def)
qed

lemma getIPFamily_kernel_witness:
  "getIPFamily (Slice [32, 1, 13, 184, 0, 0, 0, 0, 0, 0, 0, 0, 0, 0, 0, 0] []) = Ret AF_INET"
proof -
  have ok: "proper_ip [32, 1, 13, 184, 0, 0, 0, 0, 0, 0, 0, 0, 0, 0, 0, 0]" by code_simp
  have raw: "short_ip [32, 1, 13, 184, 0, 0, 0, 0, 0, 0, 0, 0, 0, 0, 0, 0] =
    [32, 1, 13, 184, 0, 0, 0, 0, 0, 0, 0, 0, 0, 0, 0, 0]" by code_simp
  have g: "guessed_family [32, 1, 13, 184, 0, 0, 0, 0, 0, 0, 0, 0, 0, 0, 0, 0] = Ret AF_INET" by code_simp
  show ?thesis using getIPFamily_kernel[OF ok, of "[]"] unfolding raw g by simp
qed

lemma destination_roundtrip_witness:
  "parseDestination mem_nl (Slice ([1, 1, 0, 0] @ nl_Serialize mem_nl (kernel_form ipvsDestAttrAddress
     (fillDestination mem_nl (zero_destination\<lparr>dst_Address := IPv4 10 0 0 7, dst_Port := 80, dst_Weight := 65537\<rparr>)))) []) =
   Ret (zero_destination\<lparr>dst_Address := [10, 0, 0, 7], dst_AddressFamily := AF_INET, dst_Port := 80, dst_Weight := 1\<rparr>)"
proof -
  let ?d = "zero_destination\<lparr>dst_Address := IPv4 10 0 0 7, dst_Port := 80, dst_Weight := 65537\<rparr>"
  have ok: "proper_ip (dst_Address ?d)"
    "guessed_family (short_ip (dst_Address ?d)) = Ret (family_of (dst_Address ?d))" by code_simp+
  have r: "destination_as_read (nl_NativeEndian mem_nl) ?d =
    zero_destination\<lparr>dst_Address := [10, 0, 0, 7], dst_AddressFamily := AF_INET, dst_Port := 80, dst_Weight := 1\<rparr>" by code_simp
  have h: "genlMsgHdr_Serialize mem_nl \<lparr>gh_cmd = 1, gh_version = 1, gh_reserved = 0\<rparr> = [1, 1, 0, 0]" by code_simp
  show ?thesis
    using destination_roundtrip[OF mem_nl_laws ok, of "\<lparr>gh_cmd = 1, gh_version = 1, gh_reserved = 0\<rparr>" "[]"]
    unfolding r h .
qed

end
