(* ===== verification/Ipvs_Config.thy ===== *)
theory Ipvs_Config
  imports Ipvs_Handle Ipvs_Roundtrip Complex_Main
begin

text \<open>
  The timeout configuration of IPVS: \<^verbatim>\<open>SetConfig\<close> and \<^verbatim>\<open>doSetConfigCmd\<close> of \<^verbatim>\<open>internal/ipvs\<close>. A \<^verbatim>\<open>time.Duration\<close>
  becomes seconds in \<^verbatim>\<open>float64\<close> and then a \<^verbatim>\<open>uint32\<close>, so the rounding of \<^verbatim>\<open>float64\<close> is modelled on the rationals.
\<close>

section \<open>Rounding to 53 bits\<close>

text \<open>The exponent of a positive number \<open>x\<close>: \<open>2^e \<le> x < 2^(e+1)\<close>; the fuel exceeds the exponents of \<^verbatim>\<open>float64\<close>.\<close>

fun ex_up :: "nat \<Rightarrow> rat \<Rightarrow> int" where
  "ex_up 0 x = 0"
| "ex_up (Suc k) x = (if x < 2 then 0 else ex_up k (x / 2) + 1)"

fun ex_down :: "nat \<Rightarrow> rat \<Rightarrow> int" where
  "ex_down 0 x = 0"
| "ex_down (Suc k) x = (if 1 \<le> x then 0 else ex_down k (2 * x) - 1)"

definition float_exponent :: "rat \<Rightarrow> int" where
  "float_exponent x = (if 1 \<le> x then ex_up 1100 x else ex_down 1100 x)"

definition pow2 :: "int \<Rightarrow> rat" where
  "pow2 e = (if 0 \<le> e then 2 ^ nat e else 1 / 2 ^ nat (- e))"

definition round_half_even :: "rat \<Rightarrow> int" where
  "round_half_even x =
     (let f = \<lfloor>x\<rfloor>; r = x - of_int f in
      if r < 1 / 2 then f else if 1 / 2 < r then f + 1 else if even f then f else f + 1)"

definition round53 :: "rat \<Rightarrow> rat" where
  "round53 x =
     (if x = 0 then 0
      else let e = float_exponent \<bar>x\<bar> - 52; m = of_int (round_half_even (\<bar>x\<bar> / pow2 e)) * pow2 e
        in if x < 0 then - m else m)"

text \<open>\<^verbatim>\<open>Duration.Seconds\<close>: the whole seconds plus the rest over \<^verbatim>\<open>1e9\<close>, both divided towards zero.\<close>

definition Duration_Seconds :: "int \<Rightarrow> rat" where
  "Duration_Seconds d =
     (let sec = sgn d * (\<bar>d\<bar> div 1000000000); nsec = sgn d * (\<bar>d\<bar> mod 1000000000)
      in round53 (of_int sec + round53 (of_int nsec / 1000000000)))"

text \<open>\<^verbatim>\<open>uint32(f)\<close> drops the fraction; outside the range the result depends on the machine, a parameter.\<close>

definition go_uint32 :: "(rat \<Rightarrow> uint32) \<Rightarrow> rat \<Rightarrow> uint32" where
  "go_uint32 overflow f =
     (let n = (if 0 \<le> f then \<lfloor>f\<rfloor> else \<lceil>f\<rceil>) in if 0 \<le> n \<and> n < 2 ^ 32 then word_of_int n else overflow f)"

section \<open>The command\<close>

definition config_attrs :: "nl_lib \<Rightarrow> (rat \<Rightarrow> uint32) \<Rightarrow> ipvs_config \<Rightarrow> rt_attr list" where
  "config_attrs L ov c =
     [NewRtAttr ipvsCmdAttrTimeoutTCP (nl_Uint32Attr L (go_uint32 ov (Duration_Seconds (cfg_TimeoutTCP c)))),
      NewRtAttr ipvsCmdAttrTimeoutTCPFin (nl_Uint32Attr L (go_uint32 ov (Duration_Seconds (cfg_TimeoutTCPFin c)))),
      NewRtAttr ipvsCmdAttrTimeoutUDP (nl_Uint32Attr L (go_uint32 ov (Duration_Seconds (cfg_TimeoutUDP c))))]"

definition doSetConfigCmd ::
  "'v nl_env \<Rightarrow> (rat \<Rightarrow> uint32) \<Rightarrow> ipvs_config \<Rightarrow> 'v handle \<Rightarrow> (go_error, unit) outcome \<times> 'v handle" where
  "doSetConfigCmd E ov c i =
     (let req = newIPVSRequest (ne_conn E) (ne_ipvsFamily E) (ipvs_cmd_num CmdSetConfig);
          i = i\<lparr>h_seq := h_seq i + 1\<rparr>;
          req = fold (\<lambda>a. AddData (Rt_Attr a)) (config_attrs (ne_lib E) ov c) (req\<lparr>rq_Seq := h_seq i\<rparr>)
      in sbind (run_request E req i) (\<lambda>_ i. (Ret (), i)))"

definition SetConfig where "SetConfig E ov c = doSetConfigCmd E ov c"

section \<open>Whole seconds survive\<close>

lemma round_half_even_int [simp]: "round_half_even (of_int n) = n"
  by (simp add: round_half_even_def)

lemma ex_up_bound: "1 \<le> x \<Longrightarrow> x < 2 ^ Suc m \<Longrightarrow> 0 \<le> ex_up k x \<and> ex_up k x \<le> int m"
proof (induction k arbitrary: x m)
  case (Suc k)
  show ?case
  proof (cases "x < 2")
    case False
    then obtain m' where m: "m = Suc m'" using Suc.prems by (cases m) auto
    have "0 \<le> ex_up k (x / 2) \<and> ex_up k (x / 2) \<le> int m'"
      using Suc.prems False m by (intro Suc.IH) auto
    with False m show ?thesis by simp
  qed simp
qed simp

lemma round53_int:
  assumes "0 \<le> n" "n < 2 ^ 53" shows "round53 (of_int n) = of_int n"
proof (cases "n = 0")
  case False
  let ?x = "of_int n :: rat" and ?e = "float_exponent (of_int n)"
  have one: "1 \<le> ?x" using assms(1) False by simp
  have "?x < of_int (2 ^ 53)" using assms(2) by (simp only: of_int_less_iff)
  then have "?x < 2 ^ Suc 52" by simp
  with one have e: "0 \<le> ?e" "?e \<le> 52"
    using ex_up_bound[of ?x 52 1100] by (auto simp: float_exponent_def)
  then have p: "pow2 (?e - 52) = 1 / 2 ^ nat (52 - ?e)" by (auto simp: pow2_def)
  have "?x / pow2 (?e - 52) = of_int (n * 2 ^ nat (52 - ?e))" by (simp add: p)
  then have "round_half_even (?x / pow2 (?e - 52)) = n * 2 ^ nat (52 - ?e)" by (simp only: round_half_even_int)
  then show ?thesis using one False by (simp add: round53_def p)
qed (simp add: round53_def)

lemma whole_seconds:
  assumes "0 \<le> n" "n < 2 ^ 32"
  shows "go_uint32 ov (Duration_Seconds (n * 1000000000)) = word_of_int n"
proof -
  have "Duration_Seconds (n * 1000000000) = of_int n"
    using assms round53_int[of n]
    by (cases "n = 0") (auto simp: Duration_Seconds_def Let_def sgn_mult round53_int[of 0, simplified])
  then show ?thesis using assms by (simp add: go_uint32_def)
qed

lemma config_attr_steps:
  assumes "nl_laws L"
  shows "unat t = 4 \<Longrightarrow> elems v = nl_Uint32Attr L w \<Longrightarrow> config_attr L (t, v) x = Ret (x\<lparr>cfg_TimeoutTCP := uint w * 1000000000\<rparr>)"
    and "unat t = 5 \<Longrightarrow> elems v = nl_Uint32Attr L w \<Longrightarrow> config_attr L (t, v) x = Ret (x\<lparr>cfg_TimeoutTCPFin := uint w * 1000000000\<rparr>)"
    and "unat t = 6 \<Longrightarrow> elems v = nl_Uint32Attr L w \<Longrightarrow> config_attr L (t, v) x = Ret (x\<lparr>cfg_TimeoutUDP := uint w * 1000000000\<rparr>)"
  by (simp_all add: config_attr_def nl_lawsD[OF assms] Let_def ipvsCmdAttrTimeoutTCP_def
      ipvsCmdAttrTimeoutTCPFin_def ipvsCmdAttrTimeoutUDP_def)

text \<open>
  Timeouts of whole seconds that fit 32 bits survive: what \<^verbatim>\<open>parseConfig\<close> reads of an answer with the attributes
  that \<^verbatim>\<open>SetConfig\<close> sends is the configuration that was set, through the rounding of floating-point seconds.
\<close>

lemma config_roundtrip:
  assumes "nl_laws L" "c = \<lparr>cfg_TimeoutTCP = a * 1000000000, cfg_TimeoutTCPFin = f * 1000000000, cfg_TimeoutUDP = u * 1000000000\<rparr>"
    and "0 \<le> a" "a < 2 ^ 32" "0 \<le> f" "f < 2 ^ 32" "0 \<le> u" "u < 2 ^ 32"
  shows "parseConfig L (Slice (genlMsgHdr_Serialize L h @ concat (map (nl_Serialize L) (config_attrs L ov c))) sp) = Ret c"
proof -
  have attrs: "config_attrs L ov c = [RtAttr 4 (nl_Uint32Attr L (word_of_int a)) [], RtAttr 5 (nl_Uint32Attr L (word_of_int f)) [],
      RtAttr 6 (nl_Uint32Attr L (word_of_int u)) []]"
    using assms(3-8) by (simp add: config_attrs_def assms(2) whole_seconds NewRtAttr_def ipvsCmdAttrTimeoutTCP_def
        ipvsCmdAttrTimeoutTCPFin_def ipvsCmdAttrTimeoutUDP_def)
  have fits: "list_all (fits L) (config_attrs L ov c)" by (simp add: attrs fits_leaf nl_lawsD[OF assms(1)])
  obtain vs where vs: "nl_ParseRouteAttr L (Slice (concat (map (nl_Serialize L) (config_attrs L ov c))) sp) = Ret vs"
    "seen vs = map (\<lambda>a. (ra_Type a, payload L a)) (config_attrs L ov c)"
    by (rule nl_parse[OF assms(1) fits])
  have w: "uint (word_of_int a :: uint32) = a" "uint (word_of_int f :: uint32) = f" "uint (word_of_int u :: uint32) = u"
    using assms(3-8) by (simp_all add: uint_word_of_int)
  have "for_attrs (config_attr L) vs \<lparr>cfg_TimeoutTCP = 0, cfg_TimeoutTCPFin = 0, cfg_TimeoutUDP = 0\<rparr> =
      Ret \<lparr>cfg_TimeoutTCP = a * 1000000000, cfg_TimeoutTCPFin = f * 1000000000, cfg_TimeoutUDP = u * 1000000000\<rparr>"
    using vs(2) unfolding attrs
    by (auto simp: config_attr_steps[OF assms(1)] w simp del: unsigned_of_int elim!: seen_Cons)
  with vs(1) show ?thesis by (simp add: parseConfig_def message_attrs_of assms(2)[symmetric])
qed

lemma config_roundtrip_witness:
  "parseConfig mem_nl (Slice ([1, 1, 0, 0] @ concat (map (nl_Serialize mem_nl) (config_attrs mem_nl (\<lambda>_. 0)
     \<lparr>cfg_TimeoutTCP = 900000000000, cfg_TimeoutTCPFin = 120000000000, cfg_TimeoutUDP = 0\<rparr>))) []) =
   Ret \<lparr>cfg_TimeoutTCP = 900000000000, cfg_TimeoutTCPFin = 120000000000, cfg_TimeoutUDP = 0\<rparr>"
proof -
  have h: "genlMsgHdr_Serialize mem_nl \<lparr>gh_cmd = 1, gh_version = 1, gh_reserved = 0\<rparr> = [1, 1, 0, 0]" by code_simp
  show ?thesis
    using config_roundtrip[OF mem_nl_laws, of _ 900 120 0 "\<lparr>gh_cmd = 1, gh_version = 1, gh_reserved = 0\<rparr>" "\<lambda>_. 0" "[]"]
    unfolding h by simp
qed

text \<open>What is below a second is dropped: 900 milliseconds become 0, which IPVS takes for no change.\<close>

lemma below_a_second: "go_uint32 ov (Duration_Seconds 900000000) = 0"
  by code_simp

end
