(* ===== verification/Ipvs_Kernel.thy ===== *)
theory Ipvs_Kernel
  imports Ipvs_Handle Ipvs_Roundtrip
begin

text \<open>
  The IPVS handle against a kernel that keeps its documented protocol: when the receive loop returns and
  with what, and that the handle implements the table of \<open>Ipvs_Table\<close> the load balancer server relies on.
\<close>

section \<open>The receive loop against a stream of messages\<close>

text \<open>The messages that answer a request; the others, of earlier requests, are skipped.\<close>

abbreviation own :: "nl_request \<Rightarrow> nl_message list \<Rightarrow> nl_message list" where
  "own req ms \<equiv> filter (\<lambda>m. nm_Seq m = rq_Seq req) ms"

text \<open>An answer is some parts of a list, and a last message: the end of the list, an acknowledgement, an error or one object.\<close>

definition part :: "uint32 \<Rightarrow> nl_message \<Rightarrow> bool" where
  "part pid m \<longleftrightarrow> nm_Pid m = pid \<and> nm_Type m \<noteq> NLMSG_DONE \<and> nm_Type m \<noteq> NLMSG_ERROR \<and> nm_Flags m AND NLM_F_MULTI \<noteq> 0"

datatype last_kind = End_of_list | Ack | Errno_reply uint32 | Object

definition last_msg :: "byte_order \<Rightarrow> uint32 \<Rightarrow> nl_message \<Rightarrow> last_kind \<Rightarrow> bool" where
  "last_msg bo pid m k \<longleftrightarrow> nm_Pid m = pid \<and>
     (case k of
        End_of_list \<Rightarrow> nm_Type m = NLMSG_DONE
      | Ack \<Rightarrow> nm_Type m = NLMSG_ERROR \<and> take 4 (elems (nm_Data m)) = PutUint32 bo 0
      | Errno_reply n \<Rightarrow> nm_Type m = NLMSG_ERROR \<and> n \<noteq> 0 \<and> take 4 (elems (nm_Data m)) = PutUint32 bo (- n)
      | Object \<Rightarrow> nm_Type m \<noteq> NLMSG_DONE \<and> nm_Type m \<noteq> NLMSG_ERROR \<and> nm_Flags m AND NLM_F_MULTI = 0)"

definition answer :: "slice list \<Rightarrow> nl_message \<Rightarrow> last_kind \<Rightarrow> (go_error, slice list) outcome" where
  "answer parts m k =
     (case k of Object \<Rightarrow> Ret (parts @ [nm_Data m]) | Errno_reply n \<Rightarrow> Err (Errno (sint n)) | _ \<Rightarrow> Ret parts)"

lemma NLMSG_distinct [simp]: "NLMSG_DONE \<noteq> NLMSG_ERROR" "NLMSG_ERROR \<noteq> NLMSG_DONE"
  by (simp_all add: NLMSG_DONE_def NLMSG_ERROR_def)

lemma scan_parts:
  "list_all (part pid) (own req ms) \<Longrightarrow> scan_msgs bo req pid 0 ms res = Read_on (res @ map nm_Data (own req ms))"
  by (induction ms arbitrary: res) (auto simp: part_def)

lemma error_code:
  assumes "take 4 (elems b) = PutUint32 bo e"
  shows "obind (slice_upto 4 b) (\<lambda>b. Uint32 bo (elems b)) = (Ret e :: ('e, uint32) outcome)"
proof -
  have "length (take 4 (elems b)) = 4" using assms by simp
  then have "elems b = PutUint32 bo e @ drop 4 (elems b)" using assms append_take_drop_id[of 4 "elems b"] by simp
  then have "b = Slice (PutUint32 bo e @ drop 4 (elems b)) (spare b)" by (rule slice_eta)
  then have "(slice_upto 4 b :: ('e, slice) outcome) = Ret (Slice (PutUint32 bo e) (drop 4 (elems b) @ spare b))"
    using slice_at_prefix(1)[OF length_Put(2)] by metis
  then show ?thesis by simp
qed

lemma scan_last:
  assumes "last_msg bo pid m k"
  shows "nm_Seq m = rq_Seq req \<Longrightarrow> scan_msgs bo req pid 0 (m # ms) res =
    (case answer res m k of Ret r \<Rightarrow> Leave r | r \<Rightarrow> Fail_with r)"
  using assms by (cases k) (auto simp: last_msg_def answer_def error_code)

lemma scan_answer:
  assumes "own req ms = ps @ m # junk" "list_all (part pid) ps" "last_msg bo pid m k"
  shows "scan_msgs bo req pid 0 ms res = (case answer (res @ map nm_Data ps) m k of Ret r \<Rightarrow> Leave r | r \<Rightarrow> Fail_with r)"
  using assms(1,2)
proof (induction ms arbitrary: res ps)
  case (Cons x ms)
  show ?case
  proof (cases "nm_Seq x = rq_Seq req")
    case False
    with Cons show ?thesis by simp
  next
    case True
    show ?thesis
    proof (cases ps)
      case Nil
      with Cons.prems(1) True have "x = m" by simp
      with True scan_last[OF assms(3)] Nil show ?thesis by simp
    next
      case (Cons p qs)
      with Cons.prems True have x: "x = p" "own req ms = qs @ m # junk" "part pid p" "list_all (part pid) qs" by auto
      from Cons.IH[OF x(2,4), of "res @ [nm_Data p]"] x(1,3) True Cons
      show ?thesis by (simp add: part_def)
    qed
  qed
qed simp

text \<open>A number of receives, in some of which the timeout fires, and the messages they bring.\<close>

inductive received :: "'v nl_conn \<Rightarrow> nat \<Rightarrow> 'v \<Rightarrow> nl_message list \<Rightarrow> 'v \<Rightarrow> bool" for C where
  nothing: "received C 0 v [] v"
| batch: "nc_Receive C v = (Inr b, u) \<Longrightarrow> received C n u ms w \<Longrightarrow> received C (Suc n) v (b @ ms) w"
| timeout: "nc_Receive C v = (Inl EAGAIN, u) \<Longrightarrow> nc_GetFd C u \<noteq> -1 \<Longrightarrow> received C n u ms w \<Longrightarrow>
    received C (Suc n) v ms w"

inductive_cases received_SucE: "received C (Suc n) v ms w"

lemma loop_reads_parts:
  assumes "received C n v ms w" "list_all (part pid) (own req ms)"
  shows "execute_loop (n + fuel) bo C req pid 0 res v =
    execute_loop fuel bo C req pid 0 (res @ map nm_Data (own req ms)) w"
  using assms by (induction arbitrary: res) (auto simp: scan_parts)

lemma loop_returns:
  assumes "nc_Send C req v = (None, v1)" "nc_GetPid C v1 = Inr pid"
    and "received C n v1 ms v2" "nc_Receive C v2 = (Inr b, v3)"
    and "own req ms = ps" "own req b = qs @ m # junk" "list_all (part pid) (ps @ qs)" "last_msg bo pid m k"
  shows "execute (Suc n + fuel) bo C req 0 v = (answer (map nm_Data (ps @ qs)) m k, v3)"
proof -
  have "execute_loop (n + Suc fuel) bo C req pid 0 [] v1 = execute_loop (Suc fuel) bo C req pid 0 (map nm_Data ps) v2"
    using loop_reads_parts[OF assms(3), of pid req "Suc fuel" bo "[]"] assms(5,7) by simp
  also have "\<dots> = (answer (map nm_Data (ps @ qs)) m k, v3)"
    using assms(4,7) by (simp add: scan_answer[OF assms(6) _ assms(8)] answer_def split: last_kind.split)
  finally show ?thesis using assms(1,2) by (simp add: execute_def)
qed

text \<open>
  C12. \<^verbatim>\<open>execute\<close> returns: when the kernel's answer is complete after \<open>n\<close> receives and one more, whatever
  timeouts fire between them and whatever messages of other requests are mixed in, the loop returns in
  that receive with the parts of the answer, the object, or the error number of the reply.
\<close>

theorem execute_returns:
  assumes "nc_Send C req v = (None, v1)" "nc_GetPid C v1 = Inr pid"
    and "received C n v1 ms v2" "nc_Receive C v2 = (Inr b, v3)"
    and "own req ms = ps" "own req b = qs @ m # junk" "list_all (part pid) (ps @ qs)" "last_msg bo pid m k"
  shows "execute (Suc n + fuel) bo C req 0 v = (answer (map nm_Data (ps @ qs)) m k, v3)"
  by (rule loop_returns[OF assms])

text \<open>
  \<^verbatim>\<open>execute\<close> never gives up: on a socket whose every receive times out, the loop starts over each time,
  so no fuel is enough. The receive timeout of \<^verbatim>\<open>NewInNamespace\<close> does not bound a call.
\<close>

lemma execute_waits_forever:
  assumes "nc_Send C req v = (None, v1)" "nc_GetPid C v1 = Inr pid"
    and "\<And>n. \<exists>w. received C n v1 [] w"
  shows "fst (execute fuel bo C req resType v) = Stuck"
proof -
  have "fst (execute_loop fuel bo C req pid resType res u) = Stuck" if "received C fuel u [] w" for res u w
    using that
  proof (induction fuel arbitrary: u)
    case (Suc fuel)
    from Suc.prems show ?case by (rule received_SucE) (auto simp: Suc.IH)
  qed simp
  with assms show ?thesis by (simp add: execute_def) metis
qed

section \<open>The kernel's side of the protocol\<close>

text \<open>What the kernel reads of the attributes of a service and of a real server; a missing number is 0.\<close>

definition attr_data :: "nl_lib \<Rightarrow> nat \<Rightarrow> rt_attr \<Rightarrow> byte list" where
  "attr_data L ty a = (case find (\<lambda>c. ra_Type c = ty) (ra_children a) of None \<Rightarrow> [] | Some c \<Rightarrow> payload L c)"

definition number16 :: "byte_order \<Rightarrow> byte list \<Rightarrow> uint16" where
  "number16 bo b = (case Uint16 bo b :: (go_error, uint16) outcome of Ret x \<Rightarrow> x | _ \<Rightarrow> 0)"

definition number32 :: "byte_order \<Rightarrow> byte list \<Rightarrow> uint32" where
  "number32 bo b = (case Uint32 bo b :: (go_error, uint32) outcome of Ret x \<Rightarrow> x | _ \<Rightarrow> 0)"

definition attr_family :: "nl_lib \<Rightarrow> rt_attr \<Rightarrow> uint16" where
  "attr_family L a = number16 (nl_NativeEndian L) (attr_data L ipvsSvcAttrAddressFamily a)"

definition attr_service_key :: "nl_lib \<Rightarrow> rt_attr \<Rightarrow> svc_key" where
  "attr_service_key L a =
     (let bo = nl_NativeEndian L; af = attr_family L a; mark = number32 bo (attr_data L ipvsSvcAttrFWMark a) in
      if mark \<noteq> 0 then Mark_Key af mark
      else Addr_Key af (number16 bo (attr_data L ipvsSvcAttrProtocol a))
        (kernel_addr af (attr_data L ipvsSvcAttrAddress a)) (number16 BigEndian (attr_data L ipvsSvcAttrPort a)))"

definition attr_destination_key :: "nl_lib \<Rightarrow> rt_attr \<Rightarrow> rt_attr \<Rightarrow> dst_key" where
  "attr_destination_key L s d =
     (kernel_addr (attr_family L s) (attr_data L ipvsDestAttrAddress d), number16 BigEndian (attr_data L ipvsDestAttrPort d))"

text \<open>The commands on the table; the result is empty where the command is refused.\<close>

fun kernel_op :: "nl_lib \<Rightarrow> ipvs_cmd \<Rightarrow> rt_attr list \<Rightarrow> ipvs_tab \<Rightarrow> ipvs_tab option" where
  "kernel_op L CmdGetService [s] T = (if T (attr_service_key L s) = None then None else Some T)"
| "kernel_op L CmdNewService [s] T = tab_new_service (attr_service_key L s) T"
| "kernel_op L CmdDelService [s] T = tab_del_service (attr_service_key L s) T"
| "kernel_op L CmdNewDest [s, d] T = tab_new_dest (attr_service_key L s) (attr_destination_key L s d) T"
| "kernel_op L CmdDelDest [s, d] T = tab_del_dest (attr_service_key L s) (attr_destination_key L s d) T"
| "kernel_op L _ _ T = None"

definition answered ::
  "'v nl_env \<Rightarrow> uint32 \<Rightarrow> nl_request \<Rightarrow> 'v \<Rightarrow> last_kind \<Rightarrow> 'v \<Rightarrow> bool" where
  "answered E pid req v k w \<longleftrightarrow>
     (\<exists>n ms u b ps qs m junk. n < ne_fuel E \<and> received (ne_conn E) n v ms u \<and> nc_Receive (ne_conn E) u = (Inr b, w) \<and>
        own req ms = ps \<and> own req b = qs @ m # junk \<and> list_all (part pid) (ps @ qs) \<and>
        last_msg (nl_NativeEndian (ne_lib E)) pid m k)"

text \<open>The commands on the table, with the number of attributes they carry.\<close>

definition table_cmd :: "ipvs_cmd \<Rightarrow> nat \<Rightarrow> bool" where
  "table_cmd cmd n \<longleftrightarrow> cmd \<in> {CmdGetService, CmdNewService, CmdDelService} \<and> n = 1 \<or> cmd \<in> {CmdNewDest, CmdDelDest} \<and> n = 2"

definition request_of :: "uint16 \<Rightarrow> ipvs_cmd \<Rightarrow> rt_attr list \<Rightarrow> nl_request \<Rightarrow> bool" where
  "request_of fam cmd attrs req \<longleftrightarrow> rq_Type req = fam \<and>
     rq_Data req = Genl_Hdr \<lparr>gh_cmd = ipvs_cmd_num cmd, gh_version = 1, gh_reserved = 0\<rparr> # map Rt_Attr attrs"

text \<open>
  The protocol: a new request has the family it is made for and no data; the socket has a port number;
  a request that cannot be sent changes nothing; one that is sent is answered within the fuel, by an
  error number when nothing has changed, otherwise after the command has been carried out.
\<close>

definition ipvs_kernel :: "'v nl_env \<Rightarrow> uint32 \<Rightarrow> ('v \<Rightarrow> ipvs_tab) \<Rightarrow> bool" where
  "ipvs_kernel E pid tbl \<longleftrightarrow>
     (\<forall>p f. rq_Type (nc_NewNetlinkRequest (ne_conn E) p f) = p \<and> rq_Data (nc_NewNetlinkRequest (ne_conn E) p f) = []) \<and>
     (\<forall>v. nc_GetPid (ne_conn E) v = Inr pid) \<and>
     (\<forall>cmd attrs req v. table_cmd cmd (length attrs) \<and> request_of (ne_ipvsFamily E) cmd attrs req \<longrightarrow>
        (\<exists>e v1. nc_Send (ne_conn E) req v = (Some e, v1) \<and> tbl v1 = tbl v) \<or>
        (\<exists>v1 k w. nc_Send (ne_conn E) req v = (None, v1) \<and> answered E pid req v1 k w \<and>
           (case k of Errno_reply n \<Rightarrow> tbl w = tbl v | _ \<Rightarrow> kernel_op (ne_lib E) cmd attrs (tbl v) = Some (tbl w))))"

text \<open>A kernel that refuses only what it must, on a socket that can be written.\<close>

definition willing_kernel :: "'v nl_env \<Rightarrow> uint32 \<Rightarrow> ('v \<Rightarrow> ipvs_tab) \<Rightarrow> bool" where
  "willing_kernel E pid tbl \<longleftrightarrow> ipvs_kernel E pid tbl \<and>
     (\<forall>cmd attrs req v. table_cmd cmd (length attrs) \<and> request_of (ne_ipvsFamily E) cmd attrs req \<and>
          kernel_op (ne_lib E) cmd attrs (tbl v) \<noteq> None \<longrightarrow>
        fst (nc_Send (ne_conn E) req v) = None \<and>
        (\<forall>n w. \<not> answered E pid req (snd (nc_Send (ne_conn E) req v)) (Errno_reply n) w))"

section \<open>The handle implements the table\<close>

lemma number_Put [simp]: "number16 bo (PutUint16 bo x) = x" "number32 bo (PutUint32 bo y) = y" "number32 bo [] = 0"
  by (simp_all add: number16_def number32_def) (simp add: Uint32_def)

lemma rawIPData_wire: "nl_laws L \<Longrightarrow> rawIPData L a = wire_addr a"
  by (simp add: rawIPData_def wire_addr_def nl_lawsD)

lemma family_fillService: "nl_laws L \<Longrightarrow> attr_family L (fillService L s) = svc_AddressFamily s"
  by (simp add: attr_family_def attr_data_def fillService_children ipvs_attr_defs nl_lawsD)

lemma key_fillService: "nl_laws L \<Longrightarrow> attr_service_key L (fillService L s) = service_key s"
  by (simp add: attr_service_key_def family_fillService service_key_def Let_def)
    (simp add: attr_data_def fillService_children ipvs_attr_defs nl_lawsD rawIPData_wire)

lemma key_fillDestination: "nl_laws L \<Longrightarrow> attr_destination_key L (fillService L s) (fillDestination L d) = destination_key s d"
  by (simp add: attr_destination_key_def family_fillService destination_key_def)
    (simp add: attr_data_def fillDestination_children ipvs_attr_defs nl_lawsD rawIPData_wire)

text \<open>The attributes a command sends.\<close>

definition sent_attrs :: "nl_lib \<Rightarrow> service \<Rightarrow> destination option \<Rightarrow> rt_attr list" where
  "sent_attrs L s d = fillService L s # (case d of None \<Rightarrow> [] | Some d \<Rightarrow> [fillDestination L d])"

lemma doCmd_request:
  assumes "\<And>p f. rq_Type (nc_NewNetlinkRequest (ne_conn E) p f) = p \<and> rq_Data (nc_NewNetlinkRequest (ne_conn E) p f) = []"
  obtains req where "request_of (ne_ipvsFamily E) cmd (sent_attrs (ne_lib E) s d) req"
    "doCmdwithResponse E (Some s) d (ipvs_cmd_num cmd) i = run_request E req (i\<lparr>h_seq := h_seq i + 1\<rparr>)"
proof -
  let ?r0 = "(newIPVSRequest (ne_conn E) (ne_ipvsFamily E) (ipvs_cmd_num cmd))\<lparr>rq_Seq := h_seq i + 1\<rparr>"
  let ?r1 = "AddData (Rt_Attr (fillService (ne_lib E) s)) ?r0"
  let ?req = "case d of
      None \<Rightarrow> if ipvs_cmd_num cmd = ipvs_cmd_num CmdGetDest then ?r1\<lparr>rq_Flags := rq_Flags ?r1 OR NLM_F_DUMP\<rparr> else ?r1
    | Some d \<Rightarrow> AddData (Rt_Attr (fillDestination (ne_lib E) d)) ?r1"
  have "request_of (ne_ipvsFamily E) cmd (sent_attrs (ne_lib E) s d) ?req"
    using assms by (auto simp: request_of_def sent_attrs_def newIPVSRequest_def newGenlRequest_def AddData_def
        split: option.split)
  moreover have "doCmdwithResponse E (Some s) d (ipvs_cmd_num cmd) i = run_request E ?req (i\<lparr>h_seq := h_seq i + 1\<rparr>)"
    by (cases d) (simp_all add: doCmdwithResponse_def Let_def)
  ultimately show thesis by (rule that)
qed

lemma answered_execute:
  assumes "ipvs_kernel E pid tbl" "nc_Send (ne_conn E) req v = (None, v1)" "answered E pid req v1 k w"
  obtains parts m where
    "execute (ne_fuel E) (nl_NativeEndian (ne_lib E)) (ne_conn E) req 0 v = (answer parts m k, w)"
proof -
  let ?C = "ne_conn E" and ?bo = "nl_NativeEndian (ne_lib E)"
  from assms(3) obtain n ms u b ps qs m junk where a: "n < ne_fuel E" "received ?C n v1 ms u"
    "nc_Receive ?C u = (Inr b, w)" "own req ms = ps" "own req b = qs @ m # junk" "list_all (part pid) (ps @ qs)"
    "last_msg ?bo pid m k" unfolding answered_def by blast
  have "nc_GetPid ?C v1 = Inr pid" using assms(1) by (simp add: ipvs_kernel_def)
  from loop_returns[OF assms(2) this a(2-7), of "ne_fuel E - Suc n"] a(1) that show thesis by simp
qed

lemma doCmd_cases:
  assumes "ipvs_kernel E pid tbl" "table_cmd cmd (length (sent_attrs (ne_lib E) s d))"
  obtains (refused) e i' where "doCmd E (Some s) d (ipvs_cmd_num cmd) i = (Err e, i')" "tbl (h_sock i') = tbl (h_sock i)"
  | (accepted) i' where "doCmd E (Some s) d (ipvs_cmd_num cmd) i = (Ret (), i')"
      "kernel_op (ne_lib E) cmd (sent_attrs (ne_lib E) s d) (tbl (h_sock i)) = Some (tbl (h_sock i'))"
proof -
  obtain req where req: "request_of (ne_ipvsFamily E) cmd (sent_attrs (ne_lib E) s d) req"
    "doCmdwithResponse E (Some s) d (ipvs_cmd_num cmd) i = run_request E req (i\<lparr>h_seq := h_seq i + 1\<rparr>)"
    by (rule doCmd_request[of E cmd s d i]) (use assms(1) in \<open>simp add: ipvs_kernel_def\<close>)
  let ?C = "ne_conn E" and ?bo = "nl_NativeEndian (ne_lib E)" and ?v = "h_sock i"
  consider (unsent) e v1 where "nc_Send ?C req ?v = (Some e, v1)" "tbl v1 = tbl ?v"
    | (sent) v1 k w where "nc_Send ?C req ?v = (None, v1)" "answered E pid req v1 k w"
      "case k of Errno_reply n \<Rightarrow> tbl w = tbl ?v
       | _ \<Rightarrow> kernel_op (ne_lib E) cmd (sent_attrs (ne_lib E) s d) (tbl ?v) = Some (tbl w)"
    using assms(1)[unfolded ipvs_kernel_def] assms(2) req(1) by blast
  then show thesis
  proof cases
    case unsent
    then show ?thesis
      using refused[of e "i\<lparr>h_seq := h_seq i + 1, h_sock := v1\<rparr>"] req(2)
      by (simp add: doCmd_def run_request_def execute_def)
  next
    case sent
    obtain parts m where "execute (ne_fuel E) ?bo ?C req 0 ?v = (answer parts m k, w)"
      using answered_execute[OF assms(1) sent(1,2)] .
    then have run: "doCmd E (Some s) d (ipvs_cmd_num cmd) i =
        sbind (answer parts m k, i\<lparr>h_seq := h_seq i + 1, h_sock := w\<rparr>) (\<lambda>_ i. (Ret (), i))"
      using req(2) by (simp add: doCmd_def run_request_def)
    show ?thesis
      using sent(3) run refused[of _ "i\<lparr>h_seq := h_seq i + 1, h_sock := w\<rparr>"]
        accepted[of "i\<lparr>h_seq := h_seq i + 1, h_sock := w\<rparr>"]
      by (cases k) (auto simp: answer_def)
  qed
qed

lemma handle_obeys:
  assumes "ipvs_kernel E pid tbl" "table_cmd cmd (length (sent_attrs (ne_lib E) s d))"
    and "kernel_op (ne_lib E) cmd (sent_attrs (ne_lib E) s d) (tbl (h_sock i)) = spec"
  shows "obeys spec (\<lambda>i. tbl (h_sock i)) i (doCmd E (Some s) d (ipvs_cmd_num cmd) i)"
  by (rule doCmd_cases[OF assms(1,2), of i]) (use assms(3) in \<open>auto simp: obeys_def\<close>)

lemma ops_sent:
  assumes "nl_laws L"
  shows "kernel_op L CmdNewService (sent_attrs L s None) T = tab_new_service (service_key s) T"
    "kernel_op L CmdDelService (sent_attrs L s None) T = tab_del_service (service_key s) T"
    "kernel_op L CmdGetService (sent_attrs L s None) T = (if T (service_key s) = None then None else Some T)"
    "kernel_op L CmdNewDest (sent_attrs L s (Some d)) T = tab_new_dest (service_key s) (destination_key s d) T"
    "kernel_op L CmdDelDest (sent_attrs L s (Some d)) T = tab_del_dest (service_key s) (destination_key s d) T"
  by (simp_all add: sent_attrs_def key_fillService[OF assms] key_fillDestination[OF assms])

lemma sent_lengths [simp]: "length (sent_attrs L s None) = 1" "length (sent_attrs L s (Some d)) = 2"
  by (simp_all add: sent_attrs_def)

lemma handle_laws:
  assumes L: "nl_laws (ne_lib E)" and K: "ipvs_kernel E pid tbl"
  shows "ipvs_laws (handle_intf E) (\<lambda>i. tbl (h_sock i))"
  unfolding ipvs_laws_def
proof (intro conjI allI)
  fix s i
  have "table_cmd CmdGetService (length (sent_attrs (ne_lib E) s None))" by (simp add: table_cmd_def)
  then show "\<exists>b v'. ipvs_IsServicePresent (handle_intf E) s i = (Ret b, v') \<and> tbl (h_sock v') = tbl (h_sock i) \<and>
      (b \<longrightarrow> tbl (h_sock i) (service_key s) \<noteq> None)"
    by (rule doCmd_cases[OF K, of CmdGetService s None i])
      (auto simp: handle_intf_def IsServicePresent_def ops_sent[OF L] split: if_splits)
qed (auto simp: handle_intf_def NewService_def DelService_def NewDestination_def DelDestination_def table_cmd_def
    simp del: ipvs_cmd_num.simps intro!: handle_obeys[OF K] ops_sent[OF L])

text \<open>A willing kernel refuses no command that can be carried out.\<close>

lemma doCmd_succeeds:
  assumes "willing_kernel E pid tbl" "table_cmd cmd (length (sent_attrs (ne_lib E) s d))"
    and "kernel_op (ne_lib E) cmd (sent_attrs (ne_lib E) s d) (tbl (h_sock i)) \<noteq> None"
  shows "fst (doCmd E (Some s) d (ipvs_cmd_num cmd) i) = Ret ()"
proof -
  have K: "ipvs_kernel E pid tbl" using assms(1) by (simp add: willing_kernel_def)
  obtain req where req: "request_of (ne_ipvsFamily E) cmd (sent_attrs (ne_lib E) s d) req"
    "doCmdwithResponse E (Some s) d (ipvs_cmd_num cmd) i = run_request E req (i\<lparr>h_seq := h_seq i + 1\<rparr>)"
    by (rule doCmd_request[of E cmd s d i]) (use K in \<open>simp add: ipvs_kernel_def\<close>)
  let ?C = "ne_conn E" and ?bo = "nl_NativeEndian (ne_lib E)" and ?v = "h_sock i"
  have w: "fst (nc_Send ?C req ?v) = None" "\<not> answered E pid req (snd (nc_Send ?C req ?v)) (Errno_reply n) w" for n w
    using assms req(1) unfolding willing_kernel_def by blast+
  then obtain v1 k w where sent: "nc_Send ?C req ?v = (None, v1)" "answered E pid req v1 k w"
    using K[unfolded ipvs_kernel_def] assms(2) req(1) by (metis fst_conv option.distinct(1))
  obtain parts m where "execute (ne_fuel E) ?bo ?C req 0 ?v = (answer parts m k, w)"
    using answered_execute[OF K sent] .
  moreover have "k \<noteq> Errno_reply n" for n using w(2) sent by auto
  ultimately show ?thesis using req(2)
    by (cases k) (auto simp: doCmd_def run_request_def answer_def)
qed

lemma handle_exact:
  assumes L: "nl_laws (ne_lib E)" and W: "willing_kernel E pid tbl"
  shows "ipvs_exact (handle_intf E) (\<lambda>i. tbl (h_sock i))"
proof -
  have K: "ipvs_kernel E pid tbl" using W by (simp add: willing_kernel_def)
  have present: "fst (IsServicePresent E s i) = Ret True" if "tbl (h_sock i) (service_key s) \<noteq> None" for s i
  proof -
    have "fst (doCmd E (Some s) None (ipvs_cmd_num CmdGetService) i) = Ret ()"
      using that by (intro doCmd_succeeds[OF W]) (auto simp: table_cmd_def ops_sent[OF L])
    then show ?thesis by (cases "doCmd E (Some s) None (ipvs_cmd_num CmdGetService) i") (simp add: IsServicePresent_def)
  qed
  show ?thesis
    unfolding ipvs_exact_def
    by (intro conjI allI impI handle_laws[OF L K])
      (auto simp: handle_intf_def present NewService_def DelService_def NewDestination_def DelDestination_def
        table_cmd_def ops_sent[OF L] simp del: ipvs_cmd_num.simps intro!: doCmd_succeeds[OF W])
qed

text \<open>The handle is a provider of the table, under the protocol.\<close>

interpretation handle: ipvs_exact_table "handle_intf E" "\<lambda>i. tbl (h_sock i)" "nl_laws (ne_lib E) \<and> willing_kernel E pid tbl"
  for E :: "'v nl_env" and tbl pid
  by unfold_locales (auto intro: handle_exact simp: handle_exact[unfolded ipvs_exact_def])

end
