(* ===== verification/Mem_Kernel.thy ===== *)
theory Mem_Kernel
  imports Ipvs_Kernel
begin

text \<open>
  A kernel in memory: an instance of the protocol of \<open>Ipvs_Kernel\<close> whose table is a list, and which lets one
  receive time out before it answers; and the handle of \<^verbatim>\<open>internal/ipvs\<close> as a refinement of the table.
\<close>

section \<open>The kernel\<close>

record mem_kernel =
  mk_tab :: mem_tab
  mk_wait :: nat
  mk_queue :: "nl_message list"

fun mem_op :: "nl_lib \<Rightarrow> ipvs_cmd \<Rightarrow> rt_attr list \<Rightarrow> mem_tab \<Rightarrow> mem_tab option" where
  "mem_op L CmdGetService [s] v = (if map_of v (attr_service_key L s) = None then None else Some v)"
| "mem_op L CmdNewService [s] v =
     (if map_of v (attr_service_key L s) = None then Some (v @ [(attr_service_key L s, [])]) else None)"
| "mem_op L CmdDelService [s] v =
     (if map_of v (attr_service_key L s) = None then None else Some (filter (\<lambda>e. fst e \<noteq> attr_service_key L s) v))"
| "mem_op L CmdNewDest [s, d] v =
     (let k = attr_service_key L s; x = attr_destination_key L s d in
      case map_of v k of
        None \<Rightarrow> None
      | Some ds \<Rightarrow> if x \<in> set ds then None else Some (map (\<lambda>e. if fst e = k then (k, ds @ [x]) else e) v))"
| "mem_op L CmdDelDest [s, d] v =
     (let k = attr_service_key L s; x = attr_destination_key L s d in
      case map_of v k of
        None \<Rightarrow> None
      | Some ds \<Rightarrow> if x \<in> set ds then Some (map (\<lambda>e. if fst e = k then (k, removeAll x ds) else e) v) else None)"
| "mem_op L _ _ v = None"

lemma mem_view_None: "mem_view v k = None \<longleftrightarrow> map_of v k = None"
  by (simp add: mem_view_def)

lemma mem_view_empty: "map_of v k = None \<Longrightarrow> dests (mem_view v) k = {}"
  by (simp add: dests_def mem_view_def)

lemma mem_op_view: "kernel_op L cmd attrs (mem_view v) = map_option mem_view (mem_op L cmd attrs v)"
  by (induction L cmd attrs v rule: mem_op.induct)
    (auto simp: tab_ops mem_view_None mem_view_empty mem_view_add mem_view_remove mem_view_set mem_view_dests
      set_removeAll Let_def split: option.splits)

definition mem_reply :: "uint32 \<Rightarrow> uint16 \<Rightarrow> slice \<Rightarrow> nl_message" where
  "mem_reply seq ty d = \<lparr>nm_Type = ty, nm_Flags = 0, nm_Seq = seq, nm_Pid = 77, nm_Data = d\<rparr>"

definition mem_replies :: "ipvs_cmd \<Rightarrow> uint32 \<Rightarrow> nl_message list" where
  "mem_replies cmd seq =
     (if cmd = CmdGetService then [mem_reply seq 34 (Slice [1, 1, 0, 0] [])] else []) @
     [mem_reply seq NLMSG_ERROR (Slice (PutUint32 LittleEndian 0) [])]"

definition mem_refusal :: "uint32 \<Rightarrow> nl_message list" where
  "mem_refusal seq = [mem_reply seq NLMSG_ERROR (Slice (PutUint32 LittleEndian (- 3)) [])]"

fun request_attrs :: "nl_data list \<Rightarrow> rt_attr list" where
  "request_attrs [] = []"
| "request_attrs (Rt_Attr a # ds) = a # request_attrs ds"
| "request_attrs (Genl_Hdr h # ds) = request_attrs ds"

definition request_cmd :: "nl_data list \<Rightarrow> ipvs_cmd" where
  "request_cmd ds = (case ds of
     Genl_Hdr h # _ \<Rightarrow> (case find (\<lambda>c. ipvs_cmd_num c = gh_cmd h) all_ipvs_cmds of Some c \<Rightarrow> c | None \<Rightarrow> CmdUnspec)
   | _ \<Rightarrow> CmdUnspec)"

definition mem_Send :: "nl_request \<Rightarrow> mem_kernel \<Rightarrow> go_error option \<times> mem_kernel" where
  "mem_Send req v =
     (let old = filter (\<lambda>m. nm_Seq m \<noteq> rq_Seq req) (mk_queue v); cmd = request_cmd (rq_Data req) in
      case mem_op mem_nl cmd (request_attrs (rq_Data req)) (mk_tab v) of
        None \<Rightarrow> (None, v\<lparr>mk_wait := 1, mk_queue := old @ mem_refusal (rq_Seq req)\<rparr>)
      | Some t \<Rightarrow> (None, \<lparr>mk_tab = t, mk_wait = 1, mk_queue = old @ mem_replies cmd (rq_Seq req)\<rparr>))"

definition mem_Receive :: "mem_kernel \<Rightarrow> (go_error + nl_message list) \<times> mem_kernel" where
  "mem_Receive v =
     (if 0 < mk_wait v then (Inl EAGAIN, v\<lparr>mk_wait := mk_wait v - 1\<rparr>)
      else (Inr (mk_queue v), v\<lparr>mk_queue := []\<rparr>))"

definition mem_conn :: "mem_kernel nl_conn" where
  "mem_conn = \<lparr>
     nc_NewNetlinkRequest = (\<lambda>p f. \<lparr>rq_Type = p, rq_Flags = f OR 1, rq_Seq = 0, rq_Data = []\<rparr>),
     nc_Send = mem_Send, nc_GetPid = (\<lambda>_. Inr 77), nc_Receive = mem_Receive, nc_GetFd = (\<lambda>_. 3)\<rparr>"

definition mem_env :: "mem_kernel nl_env" where
  "mem_env = \<lparr>ne_lib = mem_nl, ne_conn = mem_conn, ne_ipvsFamily = 34, ne_fuel = 2\<rparr>"

lemma mem_env_simps [simp]:
  "ne_lib mem_env = mem_nl" "ne_conn mem_env = mem_conn" "nc_Send mem_conn = mem_Send" "nl_NativeEndian mem_nl = LittleEndian"
  by (simp_all add: mem_env_def mem_conn_def mem_nl_def)

abbreviation mem_tbl :: "mem_kernel \<Rightarrow> ipvs_tab" where
  "mem_tbl v \<equiv> mem_view (mk_tab v)"

section \<open>It keeps the protocol\<close>

lemma request_cmd_num: "request_cmd (Genl_Hdr \<lparr>gh_cmd = ipvs_cmd_num cmd, gh_version = x, gh_reserved = y\<rparr> # ds) = cmd"
  by (cases cmd) (simp_all add: request_cmd_def all_ipvs_cmds_def)

lemma request_attrs_map: "request_attrs (map Rt_Attr as) = as"
  by (induction as) auto

lemma request_parts:
  "request_of fam cmd attrs req \<Longrightarrow> request_cmd (rq_Data req) = cmd \<and> request_attrs (rq_Data req) = attrs"
  by (auto simp: request_of_def request_cmd_num request_attrs_map)

lemma NLMSG_34: "(34 :: uint16) \<noteq> NLMSG_ERROR" "(34 :: uint16) \<noteq> NLMSG_DONE"
  by (simp_all add: NLMSG_ERROR_def NLMSG_DONE_def)

lemma mem_answered:
  assumes "mk_wait v = 1" "mk_queue v = old @ m # junk" "own req old = []" "own req (m # junk) = m # junk"
    and "last_msg LittleEndian 77 m k"
  shows "answered mem_env 77 req v k (v\<lparr>mk_wait := 0, mk_queue := []\<rparr>)"
proof -
  let ?u = "v\<lparr>mk_wait := 0\<rparr>"
  have r: "received mem_conn (Suc 0) v [] ?u"
    by (rule received.timeout[OF _ _ received.nothing]) (use assms(1) in \<open>simp_all add: mem_conn_def mem_Receive_def\<close>)
  have b: "nc_Receive mem_conn ?u = (Inr (old @ m # junk), v\<lparr>mk_wait := 0, mk_queue := []\<rparr>)"
    using assms(2) by (simp add: mem_conn_def mem_Receive_def)
  have "own req (old @ m # junk) = [] @ m # junk" using assms(3,4) by simp
  with r b assms(5) show ?thesis
    unfolding answered_def
    by (intro exI[of _ "Suc 0"] exI[of _ "[]"] exI[of _ ?u] exI[of _ "old @ m # junk"] exI[of _ m] exI[of _ junk])
      (auto simp: mem_env_def mem_nl_def)
qed

lemma own_new:
  "own req (mem_replies cmd (rq_Seq req)) = mem_replies cmd (rq_Seq req)"
  "own req (mem_refusal (rq_Seq req)) = mem_refusal (rq_Seq req)"
  "own req (filter (\<lambda>m. nm_Seq m \<noteq> rq_Seq req) q) = []"
  by (auto simp: mem_replies_def mem_refusal_def mem_reply_def filter_empty_conv)

lemma mem_kernel_protocol: "ipvs_kernel mem_env 77 mem_tbl"
  unfolding ipvs_kernel_def
proof (intro conjI allI impI)
  fix cmd attrs req and v :: mem_kernel
  assume "table_cmd cmd (length attrs) \<and> request_of (ne_ipvsFamily mem_env) cmd attrs req"
  then have p: "request_cmd (rq_Data req) = cmd" "request_attrs (rq_Data req) = attrs"
    using request_parts by blast+
  let ?old = "filter (\<lambda>m. nm_Seq m \<noteq> rq_Seq req) (mk_queue v)"
  have "\<exists>v1 k w. mem_Send req v = (None, v1) \<and> answered mem_env 77 req v1 k w \<and>
      (case k of Errno_reply n \<Rightarrow> mem_tbl w = mem_tbl v | _ \<Rightarrow> kernel_op mem_nl cmd attrs (mem_tbl v) = Some (mem_tbl w))"
  proof (cases "mem_op mem_nl cmd attrs (mk_tab v)")
    case None
    let ?v1 = "v\<lparr>mk_wait := 1, mk_queue := ?old @ mem_refusal (rq_Seq req)\<rparr>"
    have "answered mem_env 77 req ?v1 (Errno_reply 3) (?v1\<lparr>mk_wait := 0, mk_queue := []\<rparr>)"
      by (rule mem_answered[where old = ?old and junk = "[]" and m = "hd (mem_refusal (rq_Seq req))"])
        (use own_new in \<open>simp_all add: mem_refusal_def mem_reply_def last_msg_def\<close>)
    moreover have "mem_Send req v = (None, ?v1)" using None p by (simp add: mem_Send_def Let_def)
    moreover have "case Errno_reply 3 of Errno_reply n \<Rightarrow> mem_tbl (?v1\<lparr>mk_wait := 0, mk_queue := []\<rparr>) = mem_tbl v
        | _ \<Rightarrow> kernel_op mem_nl cmd attrs (mem_tbl v) = Some (mem_tbl (?v1\<lparr>mk_wait := 0, mk_queue := []\<rparr>))"
      by simp
    ultimately show ?thesis by blast
  next
    case (Some t)
    let ?v1 = "\<lparr>mk_tab = t, mk_wait = 1, mk_queue = ?old @ mem_replies cmd (rq_Seq req)\<rparr>"
    let ?m = "hd (mem_replies cmd (rq_Seq req))" and ?j = "tl (mem_replies cmd (rq_Seq req))"
    let ?k = "if cmd = CmdGetService then Object else Ack"
    have ne: "mem_replies cmd (rq_Seq req) = ?m # ?j" by (simp add: mem_replies_def)
    have last: "last_msg LittleEndian 77 ?m ?k"
      by (simp add: mem_replies_def mem_reply_def last_msg_def NLMSG_34 split: if_splits)
    have "answered mem_env 77 req ?v1 ?k (?v1\<lparr>mk_wait := 0, mk_queue := []\<rparr>)"
      by (rule mem_answered[where old = ?old and junk = ?j and m = ?m, OF _ _ _ _ last])
        (use own_new ne in \<open>simp_all\<close>)
    moreover have "mem_Send req v = (None, ?v1)" using Some p by (simp add: mem_Send_def Let_def)
    moreover have "kernel_op mem_nl cmd attrs (mem_tbl v) = Some (mem_tbl (?v1\<lparr>mk_wait := 0, mk_queue := []\<rparr>))"
      using Some by (simp add: mem_op_view)
    moreover from calculation(3) have "case ?k of Errno_reply n \<Rightarrow> mem_tbl (?v1\<lparr>mk_wait := 0, mk_queue := []\<rparr>) = mem_tbl v
        | _ \<Rightarrow> kernel_op mem_nl cmd attrs (mem_tbl v) = Some (mem_tbl (?v1\<lparr>mk_wait := 0, mk_queue := []\<rparr>))"
      by (cases "cmd = CmdGetService") simp_all
    ultimately show ?thesis by blast
  qed
  then show "(\<exists>e v1. nc_Send (ne_conn mem_env) req v = (Some e, v1) \<and> mem_tbl v1 = mem_tbl v) \<or>
    (\<exists>v1 k w. nc_Send (ne_conn mem_env) req v = (None, v1) \<and> answered mem_env 77 req v1 k w \<and>
       (case k of Errno_reply n \<Rightarrow> mem_tbl w = mem_tbl v
        | _ \<Rightarrow> kernel_op (ne_lib mem_env) cmd attrs (mem_tbl v) = Some (mem_tbl w)))"
    unfolding mem_env_simps by (rule disjI2)
qed (simp_all add: mem_env_def mem_conn_def)

lemma PutUint32_inj: "PutUint32 bo x = PutUint32 bo y \<Longrightarrow> x = y"
  using Uint_Put(2)[of bo x] Uint_Put(2)[of bo y] by (metis outcome.inject(1))

inductive_cases received_0E: "received C 0 v ms w"

lemma nc_Receive_mem: "nc_Receive mem_conn = mem_Receive"
  by (simp add: mem_conn_def)

lemma mem_answer_unique:
  assumes "answered mem_env 77 req v k w" "mk_wait v = 1"
  obtains m junk where "own req (mk_queue v) = m # junk" "last_msg LittleEndian 77 m k \<or> part 77 m"
proof -
  obtain n ms u b ps qs m junk where a: "n < 2" "received mem_conn n v ms u" "nc_Receive mem_conn u = (Inr b, w)"
    "own req b = qs @ m # junk" "list_all (part 77) (ps @ qs)" "last_msg LittleEndian 77 m k"
    using assms(1) unfolding answered_def by (auto simp: mem_env_def mem_nl_def)
  have "mk_wait u = 0" using a(3) by (simp add: mem_conn_def mem_Receive_def split: if_splits)
  then have "n \<noteq> 0" using a(2) assms(2) by (auto elim: received.cases)
  with a(1) have "n = Suc 0" by simp
  with a(2) have "mk_queue u = mk_queue v"
    using assms(2) by (auto elim!: received_SucE received_0E simp: nc_Receive_mem mem_Receive_def)
  with a(3) have "b = mk_queue v" by (simp add: mem_conn_def mem_Receive_def split: if_splits)
  with a(4-6) show thesis by (cases qs) (auto intro: that)
qed

lemma mem_kernel_willing: "willing_kernel mem_env 77 mem_tbl"
  unfolding willing_kernel_def
proof (intro conjI allI impI mem_kernel_protocol)
  fix cmd attrs req and v :: mem_kernel
  assume "table_cmd cmd (length attrs) \<and> request_of (ne_ipvsFamily mem_env) cmd attrs req \<and>
    kernel_op (ne_lib mem_env) cmd attrs (mem_tbl v) \<noteq> None"
  then have p: "request_cmd (rq_Data req) = cmd" "request_attrs (rq_Data req) = attrs"
    and "mem_op mem_nl cmd attrs (mk_tab v) \<noteq> None"
    using request_parts by (auto simp: mem_op_view mem_env_def)
  then obtain t where t: "mem_op mem_nl cmd attrs (mk_tab v) = Some t" by auto
  let ?v1 = "\<lparr>mk_tab = t, mk_wait = 1,
    mk_queue = filter (\<lambda>m. nm_Seq m \<noteq> rq_Seq req) (mk_queue v) @ mem_replies cmd (rq_Seq req)\<rparr>"
  have s: "nc_Send (ne_conn mem_env) req v = (None, ?v1)"
    using t p by (simp add: mem_env_def mem_conn_def mem_Send_def Let_def)
  then show "fst (nc_Send (ne_conn mem_env) req v) = None" by simp
  fix n w
  have own: "own req (mk_queue ?v1) = mem_replies cmd (rq_Seq req)" using own_new by simp
  have "\<not> answered mem_env 77 req ?v1 (Errno_reply n) w"
  proof
    assume "answered mem_env 77 req ?v1 (Errno_reply n) w"
    then obtain m junk where m: "mem_replies cmd (rq_Seq req) = m # junk"
      "last_msg LittleEndian 77 m (Errno_reply n) \<or> part 77 m"
      by (rule mem_answer_unique) (simp, metis own)
    moreover have "PutUint32 LittleEndian 0 \<noteq> PutUint32 LittleEndian (- n)" if "n \<noteq> 0"
      using that PutUint32_inj[of LittleEndian 0 "- n"] by auto
    ultimately show False
      by (auto simp: mem_replies_def mem_reply_def last_msg_def part_def NLMSG_34 split: if_splits)
  qed
  then show "\<not> answered mem_env 77 req (snd (nc_Send (ne_conn mem_env) req v)) (Errno_reply n) w"
    unfolding s snd_conv .
qed

section \<open>The handle refines the table\<close>



section \<open>Concrete runs of the receive loop\<close>

text \<open>A reply with an old sequence number waits in the socket; the loop sits out a timeout, skips it, and returns the error.\<close>

definition demo_request :: nl_request where
  "demo_request = \<lparr>rq_Type = 34, rq_Flags = 5, rq_Seq = 9,
     rq_Data = [Genl_Hdr \<lparr>gh_cmd = 4, gh_version = 1, gh_reserved = 0\<rparr>, Rt_Attr (RtAttr 1 [] [])]\<rparr>"

definition demo_kernel :: mem_kernel where
  "demo_kernel = \<lparr>mk_tab = [], mk_wait = 0, mk_queue = [mem_reply 8 NLMSG_ERROR (Slice [0, 0, 0, 0] [])]\<rparr>"

lemma execute_returns_witness:
  "execute 2 LittleEndian mem_conn demo_request 0 demo_kernel =
    (Err (Errno 3), \<lparr>mk_tab = [], mk_wait = 0, mk_queue = []\<rparr>)"
proof -
  let ?q = "[mem_reply 8 NLMSG_ERROR (Slice [0, 0, 0, 0] []), hd (mem_refusal 9)]"
  let ?v1 = "\<lparr>mk_tab = [], mk_wait = 1, mk_queue = ?q\<rparr>" and ?v2 = "\<lparr>mk_tab = [], mk_wait = 0, mk_queue = ?q\<rparr>"
  have a: "nc_Send mem_conn demo_request demo_kernel = (None, ?v1)" by code_simp
  have b: "nc_GetPid mem_conn ?v1 = Inr 77" by code_simp
  have c: "received mem_conn (Suc 0) ?v1 [] ?v2"
    by (rule received.timeout[OF _ _ received.nothing]) (simp_all add: mem_conn_def mem_Receive_def)
  have d: "nc_Receive mem_conn ?v2 = (Inr ?q, \<lparr>mk_tab = [], mk_wait = 0, mk_queue = []\<rparr>)" by code_simp
  have e: "own demo_request [] = []" by simp
  have f: "own demo_request ?q = [] @ hd (mem_refusal 9) # []" by code_simp
  have g: "list_all (part 77) ([] @ [])" by simp
  have h: "last_msg LittleEndian 77 (hd (mem_refusal 9)) (Errno_reply 3)" by code_simp
  have two: "2 = Suc (Suc 0) + 0" by simp
  show ?thesis unfolding two execute_returns[OF a b c d e f g h] by (simp add: answer_def)
qed

text \<open>A socket that only ever times out.\<close>

definition mute_conn :: "unit nl_conn" where
  "mute_conn = \<lparr>nc_NewNetlinkRequest = (\<lambda>p f. demo_request), nc_Send = (\<lambda>_ v. (None, v)), nc_GetPid = (\<lambda>_. Inr 77),
     nc_Receive = (\<lambda>v. (Inl EAGAIN, v)), nc_GetFd = (\<lambda>_. 3)\<rparr>"

lemma execute_waits_forever_witness:
  "\<forall>fuel. fst (execute fuel LittleEndian mute_conn demo_request 0 ()) = Stuck"
proof
  fix fuel
  have a: "nc_Send mute_conn demo_request () = (None, ())" "nc_GetPid mute_conn () = Inr 77"
    by (simp_all add: mute_conn_def)
  have c: "received mute_conn n () [] ()" for n
    by (induction n) (auto intro: received.nothing received.timeout simp: mute_conn_def)
  show "fst (execute fuel LittleEndian mute_conn demo_request 0 ()) = Stuck"
    by (rule execute_waits_forever[OF a]) (use c in blast)
qed

end
