(* ===== verification/Lb_Server.thy ===== *)
theory Lb_Server
  imports Simple_Ipam Lb_Messages Ipvs_Types
begin

text \<open>
  \<^verbatim>\<open>internal/loadbalancer/impl.go\<close>: the gRPC server that keeps the load balancers. Its state is the
  external link (address aliases), the IPVS table of the namespace, and the key-value store; every
  handler threads the three as a \<open>world\<close>. This theory holds the handlers as the code has them.
\<close>

section \<open>Error codes\<close>

definition ErrSuccess :: uint32 where "ErrSuccess = 0"
definition ErrNoSuchLB :: uint32 where "ErrNoSuchLB = 1"
definition ErrNoSuchService :: uint32 where "ErrNoSuchService = 2"
definition ErrNoSuchIP :: uint32 where "ErrNoSuchIP = 4"
definition ErrAddDestinationFailed :: uint32 where "ErrAddDestinationFailed = 8"
definition ErrDelDestinationFailed :: uint32 where "ErrDelDestinationFailed = 16"
definition ErrTargetAlreadyMapped :: uint32 where "ErrTargetAlreadyMapped = 32"
definition ErrTargetNotMapped :: uint32 where "ErrTargetNotMapped = 64"
definition ErrIPAMError :: uint32 where "ErrIPAMError = 128"

lemmas error_codes = ErrSuccess_def ErrNoSuchLB_def ErrNoSuchService_def ErrNoSuchIP_def
  ErrAddDestinationFailed_def ErrDelDestinationFailed_def ErrTargetAlreadyMapped_def
  ErrTargetNotMapped_def ErrIPAMError_def

section \<open>State\<close>

record ('l, 'v, 'd) world =
  link_st :: 'l
  ipvs_st :: 'v
  db_st :: 'd

text \<open>
  Texts made by code outside the repository: the messages of external errors, and how the netlink
  and protobuf packages print their values.
\<close>

record texts =
  txt_error :: "go_error \<Rightarrow> string"
  txt_addr :: "addr \<Rightarrow> string"
  txt_target :: "target option \<Rightarrow> string"

text \<open>
  The server: its network, the store, the netlink and IPVS handles, the address manager, and the
  orders in which Go happens to visit the entries of a target map and of a protocol map.
\<close>

record ('l, 'v, 'd) lbServer =
  srv_cidr :: addr
  srv_db :: "('d, json) kv_db"
  srv_nlHandle :: "'l nl_handle"
  srv_ipvsHandle :: "'v ipvs_intf"
  srv_ipam :: "'l ipam_intf"
  srv_texts :: texts
  srv_port_order :: "(int32 \<times> target_list) list \<Rightarrow> (int32 \<times> target_list) list"
  srv_proto_order :: "int32 list \<Rightarrow> int32 list"

definition error_text :: "texts \<Rightarrow> go_error \<Rightarrow> string" where
  "error_text tx e =
     (case e of
        ErrNoSuchLoadbalancer \<Rightarrow> ''no such loadbalancer''
      | ErrText s \<Rightarrow> s
      | _ \<Rightarrow> txt_error tx e)"

section \<open>Services and destinations\<close>

definition toIPVSService :: "lb_info \<Rightarrow> int32 \<Rightarrow> int32 \<Rightarrow> service" where
  "toIPVSService l srcPort protocol =
     (let srcIP = ParseIP (lb_IpAddr l);
          fam = (if To4 srcIP = [] then AF_INET6 else AF_INET);
          p = (if protocol = Protocol_UDP then IPPROTO_UDP else IPPROTO_TCP)
      in zero_service\<lparr>svc_Address := srcIP, svc_Port := ucast srcPort, svc_Protocol := p,
           svc_AddressFamily := fam, svc_SchedName := ''rr''\<rparr>)"

definition toDestination :: "string \<Rightarrow> int32 \<Rightarrow> destination" where
  "toDestination dstIP dstPort =
     (let targetIP = ParseIP dstIP;
          fam = (if To4 targetIP = [] then AF_INET6 else AF_INET)
      in zero_destination\<lparr>dst_Address := targetIP, dst_Port := ucast dstPort,
           dst_ConnectionFlags := ConnFwdMasq, dst_AddressFamily := fam, dst_Weight := 1\<rparr>)"

section \<open>Reading the store\<close>

definition getLB :: "('l, 'v, 'd) lbServer \<Rightarrow> string \<Rightarrow> 'd \<Rightarrow> (go_error, lb_info) outcome" where
  "getLB srv name d =
     (case db_Get (srv_db srv) name d of
        Inl e \<Rightarrow> Err (if e = ErrKeyNotFound then ErrNoSuchLoadbalancer else e)
      | Inr raw \<Rightarrow> obind (unmarshal_lb raw) (\<lambda>l.
          Ret (if lb_Targets l = None then l\<lparr>lb_Targets := Some []\<rparr> else l)))"

text \<open>\<^verbatim>\<open>GetLoadBalancer\<close>: nil when there is no such load balancer.\<close>

definition GetLoadBalancer ::
  "('l, 'v, 'd) lbServer \<Rightarrow> string \<Rightarrow> ('l, 'v, 'd) world \<Rightarrow> (go_error, lb_info option) outcome \<times> ('l, 'v, 'd) world" where
  "GetLoadBalancer srv name w =
     (case getLB srv name (db_st w) of
        Ret l \<Rightarrow> (Ret (Some l), w)
      | Err e \<Rightarrow> (if e \<noteq> ErrNoSuchLoadbalancer then Err e else Ret None, w)
      | Panic \<Rightarrow> (Panic, w)
      | Stuck \<Rightarrow> (Stuck, w))"

text \<open>\<^verbatim>\<open>GetLoadBalancers\<close> sends every stored load balancer over a stream and stops at the first error.\<close>

fun send_all :: "(lb_info \<Rightarrow> 's \<Rightarrow> go_error option \<times> 's) \<Rightarrow> (go_error + json) list \<Rightarrow> 's \<Rightarrow> (go_error, unit) outcome \<times> 's" where
  "send_all send [] s = (Ret (), s)"
| "send_all send (Inl e # vs) s = (Err e, s)"
| "send_all send (Inr raw # vs) s =
     (case unmarshal_lb raw of
        Ret lbi \<Rightarrow>
          (case send lbi s of
             (Some e, s') \<Rightarrow> (Err e, s')
           | (None, s') \<Rightarrow> send_all send vs s')
      | Err e \<Rightarrow> (Err e, s)
      | Panic \<Rightarrow> (Panic, s)
      | Stuck \<Rightarrow> (Stuck, s))"

definition GetLoadBalancers ::
  "('l, 'v, 'd) lbServer \<Rightarrow> (lb_info \<Rightarrow> 's \<Rightarrow> go_error option \<times> 's) \<Rightarrow> ('l, 'v, 'd) world \<Rightarrow> 's \<Rightarrow> (go_error, unit) outcome \<times> 's" where
  "GetLoadBalancers srv send w s = send_all send (db_Values (srv_db srv) (db_st w)) s"

section \<open>Address aliases\<close>

definition addAddrAlias :: "('l, 'v, 'd) lbServer \<Rightarrow> string \<Rightarrow> 'l \<Rightarrow> (go_error, unit) outcome \<times> 'l" where
  "addAddrAlias srv addrString l =
     (let externalIP = ParseIP addrString in
      if \<not> ipam_Contains (srv_ipam srv) externalIP then
        (Err (ErrText (''Requested IP '' @ addrString @ '' is not contained in the configured CIDR ('' @
           txt_addr (srv_texts srv) (srv_cidr srv) @ '')'')), l)
      else
        let requiredAddr = \<lparr>net_IP = externalIP, net_Mask = net_Mask (srv_cidr srv)\<rparr>;
            addrFound = list_ex (Addr_Equal (srv_nlHandle srv) requiredAddr) (fst (AddrList (srv_nlHandle srv) l))
        in if \<not> addrFound then
             (case AddrAdd (srv_nlHandle srv) requiredAddr l of
                (Some e, l') \<Rightarrow> (Err e, l')
              | (None, l') \<Rightarrow> (Ret (), l'))
           else (Ret (), l))"

section \<open>Create\<close>

definition Create ::
  "('l, 'v, 'd) lbServer \<Rightarrow> create_req \<Rightarrow> ('l, 'v, 'd) world \<Rightarrow> (go_error, lb_info) outcome \<times> ('l, 'v, 'd) world" where
  "Create srv clb w =
     (case db_Get (srv_db srv) (clb_Name clb) (db_st w) of
        Inr _ \<Rightarrow> (Err (ErrText (''loadbalancer called '' @ clb_Name clb @ '' already exists'')), w)
      | Inl e \<Rightarrow>
          if e \<noteq> ErrKeyNotFound then (Err e, w)
          else
            sbind
              (if clb_IpAddr clb = None \<or> clb_IpAddr clb = Some [] then
                 (obind (ipam_Allocate (srv_ipam srv) (link_st w)) (\<lambda>nextIP. Ret (IP_String nextIP)), w)
               else (Ret (the (clb_IpAddr clb)), w))
              (\<lambda>ipAddr w.
                 let lbInfo = \<lparr>lb_Name = clb_Name clb, lb_IpAddr = ipAddr, lb_Targets = Some []\<rparr> in
                 case addAddrAlias srv (lb_IpAddr lbInfo) (link_st w) of (r, l') \<Rightarrow>
                 sbind (r, w\<lparr>link_st := l'\<rparr>) (\<lambda>_ w.
                   case db_Put (srv_db srv) (clb_Name clb) (marshal_lb lbInfo) (db_st w) of
                     (Some e, d') \<Rightarrow> (Err e, w\<lparr>db_st := d'\<rparr>)
                   | (None, d') \<Rightarrow> (Ret lbInfo, w\<lparr>db_st := d'\<rparr>))))"

section \<open>Targets\<close>

text \<open>\<^verbatim>\<open>mapTarget\<close>: the service is made when it is not there, then the destination is added to it.\<close>

definition mapTarget ::
  "('l, 'v, 'd) lbServer \<Rightarrow> lb_info \<Rightarrow> int32 \<Rightarrow> target option \<Rightarrow> 'v \<Rightarrow> (go_error, lb_error option) outcome \<times> 'v" where
  "mapTarget srv lbInfo srcPort tgt v =
     (case tgt of
        None \<Rightarrow> (Panic, v)
      | Some t \<Rightarrow>
          let ip = srv_ipvsHandle srv; s = toIPVSService lbInfo srcPort (tgt_Protocol t) in
          sbind (ipvs_IsServicePresent ip s v) (\<lambda>present v.
          sbind (if \<not> present then ipvs_NewService ip s v else (Ret (), v)) (\<lambda>_ v.
            case ipvs_NewDestination ip s (toDestination (tgt_DstIP t) (tgt_DstPort t)) v of
              (Ret _, v') \<Rightarrow> (Ret None, v')
            | (Err e, v') \<Rightarrow>
                (Ret (Some \<lparr>err_Code = ErrAddDestinationFailed, err_Message = error_text (srv_texts srv) e\<rparr>), v')
            | (Panic, v') \<Rightarrow> (Panic, v')
            | (Stuck, v') \<Rightarrow> (Stuck, v'))))"

definition same_target :: "target \<Rightarrow> target \<Rightarrow> bool" where
  "same_target a b \<longleftrightarrow>
     tgt_Protocol a = tgt_Protocol b \<and> tgt_DstIP a = tgt_DstIP b \<and> tgt_DstPort a = tgt_DstPort b"

text \<open>The loops over a target list compare with the request's target: nil is dereferenced at the first element.\<close>

definition find_target :: "target list \<Rightarrow> target option \<Rightarrow> (go_error, nat option) outcome" where
  "find_target ts req =
     (case req of
        None \<Rightarrow> if ts = [] then Ret None else Panic
      | Some t \<Rightarrow> Ret (find (\<lambda>i. same_target (ts ! i) t) [0..<length ts]))"

definition put_lb ::
  "('l, 'v, 'd) lbServer \<Rightarrow> string \<Rightarrow> lb_info \<Rightarrow> ('l, 'v, 'd) world \<Rightarrow> (go_error, lb_error) outcome \<times> ('l, 'v, 'd) world" where
  "put_lb srv name lbInfo w =
     (case db_Put (srv_db srv) name (marshal_lb lbInfo) (db_st w) of
        (Some e, d') \<Rightarrow> (Err e, w\<lparr>db_st := d'\<rparr>)
      | (None, d') \<Rightarrow> (Ret no_error, w\<lparr>db_st := d'\<rparr>))"

text \<open>What \<^verbatim>\<open>AddTarget\<close>, \<^verbatim>\<open>DelTarget\<close> and \<^verbatim>\<open>Delete\<close> do first: a missing load balancer is an \<^verbatim>\<open>Error\<close> reply.\<close>

definition with_lb ::
  "('l, 'v, 'd) lbServer \<Rightarrow> string \<Rightarrow> ('l, 'v, 'd) world \<Rightarrow>
     (lb_info \<Rightarrow> (go_error, lb_error) outcome \<times> ('l, 'v, 'd) world) \<Rightarrow>
     (go_error, lb_error) outcome \<times> ('l, 'v, 'd) world" where
  "with_lb srv name w body =
     (case getLB srv name (db_st w) of
        Ret l \<Rightarrow> body l
      | Err e \<Rightarrow>
          if e = ErrNoSuchLoadbalancer then
            (Ret \<lparr>err_Code = ErrNoSuchLB, err_Message = ''no such loadbalancer '' @ name\<rparr>, w)
          else (Err e, w)
      | Panic \<Rightarrow> (Panic, w)
      | Stuck \<Rightarrow> (Stuck, w))"

definition AddTarget ::
  "('l, 'v, 'd) lbServer \<Rightarrow> target_req \<Rightarrow> ('l, 'v, 'd) world \<Rightarrow> (go_error, lb_error) outcome \<times> ('l, 'v, 'd) world" where
  "AddTarget srv atr w = with_lb srv (req_LbName atr) w (\<lambda>lbInfo.
     let targetList = (case map_get (lb_Targets lbInfo) (req_SrcPort atr) of
                         Some (Some ts) \<Rightarrow> ts
                       | _ \<Rightarrow> [])
     in sbind (find_target targetList (req_Target atr), w) (\<lambda>found w.
        if found \<noteq> None then
          (Ret \<lparr>err_Code = ErrTargetAlreadyMapped,
                err_Message = ''target '' @ txt_target (srv_texts srv) (req_Target atr) @
                  '' already mapped to load balancer '' @ req_LbName atr\<rparr>, w)
        else
          case mapTarget srv lbInfo (req_SrcPort atr) (req_Target atr) (ipvs_st w) of (r, v') \<Rightarrow>
          sbind (r, w\<lparr>ipvs_st := v'\<rparr>) (\<lambda>ret w.
            case ret of
              Some e \<Rightarrow> (Ret e, w)
            | None \<Rightarrow>
                sbind (map_set (lb_Targets lbInfo) (req_SrcPort atr) (Some (targetList @ [the (req_Target atr)])), w)
                  (\<lambda>targets w. put_lb srv (req_LbName atr) (lbInfo\<lparr>lb_Targets := targets\<rparr>) w))))"

definition target_not_mapped :: "('l, 'v, 'd) lbServer \<Rightarrow> target_req \<Rightarrow> string \<Rightarrow> lb_error" where
  "target_not_mapped srv dtr suffix =
     \<lparr>err_Code = ErrTargetNotMapped,
      err_Message = ''target '' @ txt_target (srv_texts srv) (req_Target dtr) @
        '' not mapped to load balancer '' @ req_LbName dtr @ suffix\<rparr>"

definition DelTarget ::
  "('l, 'v, 'd) lbServer \<Rightarrow> target_req \<Rightarrow> ('l, 'v, 'd) world \<Rightarrow> (go_error, lb_error) outcome \<times> ('l, 'v, 'd) world" where
  "DelTarget srv dtr w = with_lb srv (req_LbName dtr) w (\<lambda>lbInfo.
     case map_get (lb_Targets lbInfo) (req_SrcPort dtr) of
       Some (Some ts) \<Rightarrow>
         sbind (find_target ts (req_Target dtr), w) (\<lambda>found w.
         case found of
           None \<Rightarrow> (Ret (target_not_mapped srv dtr ('' on port '' @ print_int (sint (req_SrcPort dtr)))), w)
         | Some i \<Rightarrow>
             let ip = srv_ipvsHandle srv; t = ts ! i;
                 s = toIPVSService lbInfo (req_SrcPort dtr) (tgt_Protocol t);
                 dest = toDestination (tgt_DstIP (the (req_Target dtr))) (tgt_DstPort t);
                 failed = (\<lambda>e. \<lparr>err_Code = ErrDelDestinationFailed, err_Message = error_text (srv_texts srv) e\<rparr>);
                 ts' = take i ts @ drop (Suc i) ts
             in case ipvs_DelDestination ip s dest (ipvs_st w) of
                  (Err e, v1) \<Rightarrow> (Ret (failed e), w\<lparr>ipvs_st := v1\<rparr>)
                | (Panic, v1) \<Rightarrow> (Panic, w\<lparr>ipvs_st := v1\<rparr>)
                | (Stuck, v1) \<Rightarrow> (Stuck, w\<lparr>ipvs_st := v1\<rparr>)
                | (Ret _, v1) \<Rightarrow>
                    if ts' = [] then
                      (case ipvs_DelService ip s v1 of
                         (Err e, v2) \<Rightarrow> (Ret (failed e), w\<lparr>ipvs_st := v2\<rparr>)
                       | (Panic, v2) \<Rightarrow> (Panic, w\<lparr>ipvs_st := v2\<rparr>)
                       | (Stuck, v2) \<Rightarrow> (Stuck, w\<lparr>ipvs_st := v2\<rparr>)
                       | (Ret _, v2) \<Rightarrow>
                           put_lb srv (req_LbName dtr)
                             (lbInfo\<lparr>lb_Targets := map_del (lb_Targets lbInfo) (req_SrcPort dtr)\<rparr>)
                             (w\<lparr>ipvs_st := v2\<rparr>))
                    else
                      sbind (map_set (lb_Targets lbInfo) (req_SrcPort dtr) (Some ts'), w\<lparr>ipvs_st := v1\<rparr>)
                        (\<lambda>targets w. put_lb srv (req_LbName dtr) (lbInfo\<lparr>lb_Targets := targets\<rparr>) w))
     | _ \<Rightarrow> (Ret (target_not_mapped srv dtr []), w))"

section \<open>Delete\<close>

text \<open>One service per protocol among the targets of a port; a failed removal is noted and the loop goes on.\<close>

fun delete_protocols ::
  "('l, 'v, 'd) lbServer \<Rightarrow> lb_info \<Rightarrow> int32 \<Rightarrow> int32 list \<Rightarrow> lb_error \<Rightarrow> 'v \<Rightarrow> (go_error, lb_error) outcome \<times> 'v" where
  "delete_protocols srv lbInfo port [] retErr v = (Ret retErr, v)"
| "delete_protocols srv lbInfo port (p # ps) retErr v =
     (case ipvs_DelService (srv_ipvsHandle srv) (toIPVSService lbInfo port p) v of
        (Ret _, v') \<Rightarrow> delete_protocols srv lbInfo port ps retErr v'
      | (Err e, v') \<Rightarrow>
          delete_protocols srv lbInfo port ps
            (retErr\<lparr>err_Message := error_text (srv_texts srv) e, err_Code := ErrNoSuchService\<rparr>) v'
      | (Panic, v') \<Rightarrow> (Panic, v')
      | (Stuck, v') \<Rightarrow> (Stuck, v'))"

fun delete_services ::
  "('l, 'v, 'd) lbServer \<Rightarrow> lb_info \<Rightarrow> (int32 \<times> target_list) list \<Rightarrow> lb_error \<Rightarrow> 'v \<Rightarrow> (go_error, lb_error) outcome \<times> 'v" where
  "delete_services srv lbInfo [] retErr v = (Ret retErr, v)"
| "delete_services srv lbInfo ((port, None) # es) retErr v = (Panic, v)"
| "delete_services srv lbInfo ((port, Some ts) # es) retErr v =
     sbind (delete_protocols srv lbInfo port (srv_proto_order srv (remdups (map tgt_Protocol ts))) retErr v)
       (\<lambda>retErr v. delete_services srv lbInfo es retErr v)"

text \<open>A later failure is appended to the message and its code added to the bits.\<close>

definition note_error :: "texts \<Rightarrow> uint32 \<Rightarrow> go_error option \<Rightarrow> lb_error \<Rightarrow> lb_error" where
  "note_error tx code e retErr =
     (case e of
        None \<Rightarrow> retErr
      | Some x \<Rightarrow> retErr\<lparr>err_Message := err_Message retErr @ [CHR 0x0A] @ error_text tx x,
                         err_Code := or (err_Code retErr) code\<rparr>)"

definition Delete ::
  "('l, 'v, 'd) lbServer \<Rightarrow> string \<Rightarrow> ('l, 'v, 'd) world \<Rightarrow> (go_error, lb_error) outcome \<times> ('l, 'v, 'd) world" where
  "Delete srv name w = with_lb srv name w (\<lambda>lbInfo.
     case delete_services srv lbInfo (srv_port_order srv (map_entries (lb_Targets lbInfo))) no_error (ipvs_st w) of (r, v') \<Rightarrow>
     sbind (r, w\<lparr>ipvs_st := v'\<rparr>) (\<lambda>retErr w.
       let addrToDelete = \<lparr>net_IP = ParseIP (lb_IpAddr lbInfo), net_Mask = net_Mask (srv_cidr srv)\<rparr> in
       case AddrDel (srv_nlHandle srv) addrToDelete (link_st w) of (e1, l') \<Rightarrow>
       let retErr = note_error (srv_texts srv) ErrNoSuchIP e1 retErr;
           retErr = note_error (srv_texts srv) ErrIPAMError (ipam_Release (srv_ipam srv) (net_IP addrToDelete)) retErr
       in case db_Delete (srv_db srv) name (db_st w) of
            (Some e, d') \<Rightarrow> (Err e, w\<lparr>link_st := l', db_st := d'\<rparr>)
          | (None, d') \<Rightarrow> (Ret retErr, w\<lparr>link_st := l', db_st := d'\<rparr>)))"

section \<open>Restore\<close>

text \<open>An \<^verbatim>\<open>Error\<close> reply of \<^verbatim>\<open>mapTarget\<close> is dropped; only a Go error ends the loop.\<close>

fun restore_targets ::
  "('l, 'v, 'd) lbServer \<Rightarrow> lb_info \<Rightarrow> int32 \<Rightarrow> target list \<Rightarrow> 'v \<Rightarrow> (go_error, unit) outcome \<times> 'v" where
  "restore_targets srv lbInfo port [] v = (Ret (), v)"
| "restore_targets srv lbInfo port (t # ts) v =
     sbind (mapTarget srv lbInfo port (Some t) v) (\<lambda>_ v. restore_targets srv lbInfo port ts v)"

fun restore_ports ::
  "('l, 'v, 'd) lbServer \<Rightarrow> lb_info \<Rightarrow> (int32 \<times> target_list) list \<Rightarrow> 'v \<Rightarrow> (go_error, unit) outcome \<times> 'v" where
  "restore_ports srv lbInfo [] v = (Ret (), v)"
| "restore_ports srv lbInfo ((port, None) # es) v = restore_ports srv lbInfo es v"
| "restore_ports srv lbInfo ((port, Some ts) # es) v =
     sbind (restore_targets srv lbInfo port ts v) (\<lambda>_ v. restore_ports srv lbInfo es v)"

fun restore_all ::
  "('l, 'v, 'd) lbServer \<Rightarrow> (go_error + json) list \<Rightarrow> ('l, 'v, 'd) world \<Rightarrow> (go_error, unit) outcome \<times> ('l, 'v, 'd) world" where
  "restore_all srv [] w = (Ret (), w)"
| "restore_all srv (Inl e # vs) w = (Err e, w)"
| "restore_all srv (Inr raw # vs) w =
     sbind (unmarshal_lb raw, w) (\<lambda>currLB w.
     case addAddrAlias srv (lb_IpAddr currLB) (link_st w) of (r, l') \<Rightarrow>
     sbind (r, w\<lparr>link_st := l'\<rparr>) (\<lambda>_ w.
     case restore_ports srv currLB (srv_port_order srv (map_entries (lb_Targets currLB))) (ipvs_st w) of (r, v') \<Rightarrow>
     sbind (r, w\<lparr>ipvs_st := v'\<rparr>) (\<lambda>_ w. restore_all srv vs w)))"

definition Restore :: "('l, 'v, 'd) lbServer \<Rightarrow> ('l, 'v, 'd) world \<Rightarrow> (go_error, unit) outcome \<times> ('l, 'v, 'd) world" where
  "Restore srv w = restore_all srv (db_Values (srv_db srv) (db_st w)) w"

end
