(* ===== verification/Lb_Demo.thy ===== *)
theory Lb_Demo
  imports Lb_Server Ipvs_Table
begin

text \<open>
  A server with the development configuration (\<^verbatim>\<open>lbmanager.yaml\<close>) over a link, a store and an IPVS
  table in memory: the concrete instance the runs of this development use.
\<close>

definition demo_texts :: texts where
  "demo_texts = \<lparr>txt_error = (\<lambda>e. ''errno''), txt_addr = (\<lambda>a. IPNet_String a), txt_target = (\<lambda>t. ''target'')\<rparr>"

definition demo_srv :: "(addr list, mem_tab, (string \<times> json) list) lbServer" where
  "demo_srv = \<lparr>
     srv_cidr = cidr dev_ipam,
     srv_db = mem_db,
     srv_nlHandle = mem_link,
     srv_ipvsHandle = mem_ipvs,
     srv_ipam = simple_ipam mem_link dev_ipam,
     srv_texts = demo_texts,
     srv_port_order = (\<lambda>es. es),
     srv_proto_order = (\<lambda>ps. ps)\<rparr>"

type_synonym demo_world = "(addr list, mem_tab, (string \<times> json) list) world"

definition demo_w0 :: demo_world where
  "demo_w0 = \<lparr>link_st = [], ipvs_st = [], db_st = []\<rparr>"

definition demo_create :: create_req where
  "demo_create = \<lparr>clb_Name = ''web'', clb_IpAddr = None\<rparr>"

definition demo_target :: target where
  "demo_target = \<lparr>tgt_Protocol = Protocol_TCP, tgt_DstIP = ''192.168.50.3'', tgt_DstPort = 30080\<rparr>"

definition demo_req :: target_req where
  "demo_req = \<lparr>req_LbName = ''web'', req_SrcPort = 80, req_Target = Some demo_target\<rparr>"

text \<open>After \<^verbatim>\<open>Create\<close>, then after \<^verbatim>\<open>AddTarget\<close>.\<close>

definition demo_w1 :: demo_world where
  "demo_w1 = snd (Create demo_srv demo_create demo_w0)"

definition demo_w2 :: demo_world where
  "demo_w2 = snd (AddTarget demo_srv demo_req demo_w1)"

lemma demo_laws:
  "ipvs_exact (srv_ipvsHandle demo_srv) mem_view" "ipvs_laws (srv_ipvsHandle demo_srv) mem_view"
  "db_laws (srv_db demo_srv) map_of" "link_laws (srv_nlHandle demo_srv) (\<lambda>l. l)"
  using mem_ipvs_laws mem_db_laws mem_link_laws by (simp_all add: demo_srv_def ipvs_exact_def)

lemma demo_create_run: "Create demo_srv demo_create demo_w0 =
    (Ret \<lparr>lb_Name = ''web'', lb_IpAddr = ''192.168.87.200'', lb_Targets = Some []\<rparr>, demo_w1)"
  by code_simp

lemma demo_add_run: "AddTarget demo_srv demo_req demo_w1 = (Ret no_error, demo_w2)"
  by code_simp

end
