(* ===== verification/Lb_Setup.thy ===== *)
theory Lb_Setup
  imports Lb_Demo
begin

text \<open>
  Making and closing a load balancer server: \<^verbatim>\<open>NewServer\<close> and \<^verbatim>\<open>Close\<close> of \<^verbatim>\<open>internal/loadbalancer/impl.go\<close>,
  with \<^verbatim>\<open>NewInNamespace\<close> and \<^verbatim>\<open>Close\<close> of \<^verbatim>\<open>internal/ipvs/ipvs_linux.go\<close>. The state is the list of handles
  that are open, the last one first; what the libraries answer is a parameter.
\<close>

section \<open>Handles\<close>

datatype resource = Res_namespace | Res_netlink | Res_socket | Res_database

type_synonym open_handles = "resource list"

definition acquire :: "resource \<Rightarrow> open_handles \<Rightarrow> open_handles" where
  "acquire r hs = r # hs"

definition release :: "resource \<Rightarrow> open_handles \<Rightarrow> open_handles" where
  "release r hs = remove1 r hs"

text \<open>
  The answers of the libraries: the parsed address, the namespace by name, a netlink handle in it, the
  link by name, a netlink socket and the two settings of its timeouts, the opened store; and the parts of
  the server that are not made here (what an open IPVS handle does, texts, map orders).
\<close>

record ('l, 'v, 'd) libs =
  li_ParseAddr :: "string \<Rightarrow> go_error + addr"
  li_GetFromName :: "string \<Rightarrow> go_error option"
  li_NewHandleAt :: "go_error + 'l nl_handle"
  li_LinkByName :: "string \<Rightarrow> go_error option"
  li_GetNetlinkSocketAt :: "go_error option"
  li_SetSendTimeout :: "go_error option"
  li_SetReceiveTimeout :: "go_error option"
  li_Open :: "string \<Rightarrow> go_error + ('d, json) kv_db"
  li_ipvs :: "'v ipvs_intf"
  li_texts :: texts
  li_port_order :: "(int32 \<times> target_list) list \<Rightarrow> (int32 \<times> target_list) list"
  li_proto_order :: "int32 list \<Rightarrow> int32 list"

section \<open>The IPVS handle\<close>

definition NewInNamespace :: "('l, 'v, 'd) libs \<Rightarrow> open_handles \<Rightarrow> (go_error, 'v ipvs_intf) outcome \<times> open_handles" where
  "NewInNamespace L hs =
     (case li_GetNetlinkSocketAt L of
        Some err \<Rightarrow> (Err err, hs)
      | None \<Rightarrow>
          (let hs = acquire Res_socket hs in
           case li_SetSendTimeout L of
             Some err \<Rightarrow> (Err err, hs)
           | None \<Rightarrow>
               (case li_SetReceiveTimeout L of
                  Some err \<Rightarrow> (Err err, hs)
                | None \<Rightarrow> (Ret (li_ipvs L), hs))))"

definition Handle_Close :: "open_handles \<Rightarrow> open_handles" where
  "Handle_Close hs = release Res_socket hs"

section \<open>The server\<close>

text \<open>A call of a library: its error, or its value.\<close>

fun lib_call :: "go_error + 'a \<Rightarrow> (go_error, 'a) outcome" where
  "lib_call (Inl e) = Err e"
| "lib_call (Inr a) = Ret a"

fun lib_done :: "go_error option \<Rightarrow> (go_error, unit) outcome" where
  "lib_done (Some e) = Err e"
| "lib_done None = Ret ()"

text \<open>An error path closes the handles that are open so far, in the order of the code, and returns the error.\<close>

fun on_error ::
  "(go_error, 'a) outcome \<times> open_handles \<Rightarrow> (open_handles \<Rightarrow> open_handles) \<Rightarrow>
   ('a \<Rightarrow> open_handles \<Rightarrow> (go_error, 'b) outcome \<times> open_handles) \<Rightarrow> (go_error, 'b) outcome \<times> open_handles" where
  "on_error (Ret a, hs) clean k = k a hs"
| "on_error (Err e, hs) clean k = (Err e, clean hs)"
| "on_error (Panic, hs) clean k = (Panic, hs)"
| "on_error (Stuck, hs) clean k = (Stuck, hs)"

definition NewServer ::
  "('l, 'v, 'd) libs \<Rightarrow> config \<Rightarrow> open_handles \<Rightarrow> (go_error, ('l, 'v, 'd) lbServer) outcome \<times> open_handles" where
  "NewServer L config hs =
     sbind (config ''loadbalancer.ipam.cidr'', hs) (\<lambda>c hs.
     sbind (lib_call (li_ParseAddr L c), hs) (\<lambda>cidr hs.
     sbind (config ''loadbalancer.namespace'', hs) (\<lambda>nsName hs.
     sbind (lib_done (li_GetFromName L nsName), hs) (\<lambda>_ hs.
     let hs = acquire Res_namespace hs in
     on_error (lib_call (li_NewHandleAt L), hs) (release Res_namespace) (\<lambda>netlinkHandle hs.
     let hs = acquire Res_netlink hs in
     sbind (config ''loadbalancer.externalInterface'', hs) (\<lambda>ifName hs.
     on_error (lib_done (li_LinkByName L ifName), hs) (\<lambda>hs. release Res_namespace (release Res_netlink hs)) (\<lambda>_ hs.
     on_error (NewInNamespace L hs) (\<lambda>hs. release Res_namespace (release Res_netlink hs)) (\<lambda>ipvsHandle hs.
     sbind (config ''dbDir'', hs) (\<lambda>dbDir hs.
     on_error (lib_call (li_Open L dbDir), hs)
         (\<lambda>hs. release Res_namespace (release Res_netlink (Handle_Close hs))) (\<lambda>db hs.
     let hs = acquire Res_database hs in
     on_error (ipam_New config, hs)
         (\<lambda>hs. release Res_namespace (release Res_netlink (Handle_Close (release Res_database hs)))) (\<lambda>ipManagement hs.
     (Ret \<lparr>srv_cidr = cidr, srv_db = db, srv_nlHandle = netlinkHandle, srv_ipvsHandle = ipvsHandle,
        srv_ipam = simple_ipam netlinkHandle ipManagement, srv_texts = li_texts L,
        srv_port_order = li_port_order L, srv_proto_order = li_proto_order L\<rparr>, hs))))))))))))"

definition server_Close :: "open_handles \<Rightarrow> open_handles" where
  "server_Close hs = release Res_database (release Res_namespace (release Res_netlink (Handle_Close hs)))"

section \<open>What is open afterwards\<close>

definition settles :: "open_handles \<Rightarrow> (go_error, ('l, 'v, 'd) lbServer) outcome \<times> open_handles \<Rightarrow> bool" where
  "settles hs r \<longleftrightarrow>
     (case r of (Ret _, hs') \<Rightarrow> server_Close hs' = hs | (Err _, hs') \<Rightarrow> hs' = hs | _ \<Rightarrow> True)"

lemma settles_simps [simp]:
  "settles hs (Ret a, hs') \<longleftrightarrow> server_Close hs' = hs" "settles hs (Err e, hs') \<longleftrightarrow> hs' = hs"
  "settles hs (Panic, hs')" "settles hs (Stuck, hs')"
  by (simp_all add: settles_def)

lemma settles_sbind: "(\<And>a. settles hs (k a hs)) \<Longrightarrow> settles hs (sbind (r, hs) k)"
  by (cases r) auto

lemma settles_config:
  "(\<And>e. config key \<noteq> Err e) \<Longrightarrow> (\<And>a. settles hs (k a hs')) \<Longrightarrow> settles hs (sbind (config key, hs') k)"
  by (cases "config key") auto

lemma settles_on_error: "(\<And>a. settles hs (k a hs')) \<Longrightarrow> clean hs' = hs \<Longrightarrow> settles hs (on_error (r, hs') clean k)"
  by (cases r) auto

lemma settles_ipvs:
  assumes "li_SetSendTimeout L = None" "li_SetReceiveTimeout L = None"
    and "settles hs (k (li_ipvs L) (Res_socket # hs'))" "clean hs' = hs"
  shows "settles hs (on_error (NewInNamespace L hs') clean k)"
  using assms by (cases "li_GetNetlinkSocketAt L") (auto simp: NewInNamespace_def acquire_def)

lemmas handle_ops = acquire_def release_def Handle_Close_def server_Close_def


text \<open>
  A handle can be lost in \<^verbatim>\<open>NewInNamespace\<close>: when the netlink socket opens but one of its timeouts cannot be
  set, \<^verbatim>\<open>NewServer\<close> returns the error, everything else is closed, and the socket stays open for good.
\<close>

lemma NewServer_leaks_socket:
  assumes "config ''loadbalancer.ipam.cidr'' = Ret c" "li_ParseAddr L c = Inr a"
    and "config ''loadbalancer.namespace'' = Ret ns" "li_GetFromName L ns = None" "li_NewHandleAt L = Inr h"
    and "config ''loadbalancer.externalInterface'' = Ret ifn" "li_LinkByName L ifn = None"
    and "li_GetNetlinkSocketAt L = None"
    and "li_SetSendTimeout L = Some e \<or> li_SetSendTimeout L = None \<and> li_SetReceiveTimeout L = Some e"
  shows "NewServer L config hs = (Err e, Res_socket # hs)"
  using assms by (auto simp: NewServer_def NewInNamespace_def handle_ops)

section \<open>A concrete configuration\<close>

text \<open>The development configuration \<^verbatim>\<open>lbmanager.yaml\<close>, over libraries in memory.\<close>

definition dev_config :: config where
  "dev_config k =
     (if k = ''loadbalancer.namespace'' then Ret ''LB''
      else if k = ''loadbalancer.externalInterface'' then Ret ''dummy0''
      else if k = ''dbDir'' then Ret ''/tmp/db''
      else config_of ''192.168.87.0/24'' ''192.168.87.200'' ''192.168.87.225'' k)"

definition dev_libs :: "'v ipvs_intf \<Rightarrow> (addr list, 'v, (string \<times> json) list) libs" where
  "dev_libs ipv = \<lparr>
     li_ParseAddr = (\<lambda>s. case ParseCIDR s of Ret (a, n) \<Rightarrow> Inr \<lparr>net_IP = a, net_Mask = net_Mask n\<rparr> | Err e \<Rightarrow> Inl e | _ \<Rightarrow> Inl (Errno 22)),
     li_GetFromName = (\<lambda>s. None), li_NewHandleAt = Inr mem_link, li_LinkByName = (\<lambda>s. None),
     li_GetNetlinkSocketAt = None, li_SetSendTimeout = None, li_SetReceiveTimeout = None,
     li_Open = (\<lambda>s. Inr mem_db), li_ipvs = ipv, li_texts = demo_texts,
     li_port_order = (\<lambda>es. es), li_proto_order = (\<lambda>ps. ps)\<rparr>"

definition dev_server :: "'v ipvs_intf \<Rightarrow> (addr list, 'v, (string \<times> json) list) lbServer" where
  "dev_server ipv = \<lparr>
     srv_cidr = \<lparr>net_IP = v4InV6Prefix @ [192, 168, 87, 0], net_Mask = [255, 255, 255, 0]\<rparr>, srv_db = mem_db,
     srv_nlHandle = mem_link, srv_ipvsHandle = ipv, srv_ipam = simple_ipam mem_link dev_ipam,
     srv_texts = demo_texts, srv_port_order = (\<lambda>es. es), srv_proto_order = (\<lambda>ps. ps)\<rparr>"

lemma dev_config_never_errs: "dev_config key \<noteq> Err e"
  by (simp add: dev_config_def config_of_def)

lemma dev_parse:
  "li_ParseAddr (dev_libs ipv) ''192.168.87.0/24'' =
    Inr \<lparr>net_IP = v4InV6Prefix @ [192, 168, 87, 0], net_Mask = [255, 255, 255, 0]\<rparr>"
proof -
  have "ParseCIDR ''192.168.87.0/24'' =
    Ret (v4InV6Prefix @ [192, 168, 87, 0], \<lparr>net_IP = [192, 168, 87, 0], net_Mask = [255, 255, 255, 0]\<rparr>)" by code_simp
  then show ?thesis by (simp add: dev_libs_def)
qed

lemma dev_ipam_ok: "ipam_New dev_config = Ret dev_ipam"
  using dev_ipam_New by (simp add: ipam_New_def dev_config_def)

lemma dev_NewServer:
  "NewServer (dev_libs ipv) dev_config hs = (Ret (dev_server ipv), [Res_database, Res_socket, Res_netlink, Res_namespace] @ hs)"
proof -
  have c: "dev_config ''loadbalancer.ipam.cidr'' = Ret ''192.168.87.0/24''"
    "dev_config ''loadbalancer.namespace'' = Ret ''LB''" "dev_config ''loadbalancer.externalInterface'' = Ret ''dummy0''"
    "dev_config ''dbDir'' = Ret ''/tmp/db''" by (simp_all add: dev_config_def config_of_def)
  show ?thesis
    unfolding NewServer_def c NewInNamespace_def
    by (simp add: dev_parse dev_ipam_ok acquire_def) (simp add: dev_libs_def dev_server_def acquire_def)
qed


lemma NewServer_leaks_socket_witness:
  "NewServer (dev_libs mem_ipvs\<lparr>li_SetReceiveTimeout := Some (Errno 33)\<rparr>) dev_config [] = (Err (Errno 33), [Res_socket])"
proof -
  let ?L = "dev_libs mem_ipvs\<lparr>li_SetReceiveTimeout := Some (Errno 33)\<rparr>"
  have p: "li_ParseAddr ?L ''192.168.87.0/24'' =
    Inr \<lparr>net_IP = v4InV6Prefix @ [192, 168, 87, 0], net_Mask = [255, 255, 255, 0]\<rparr>" using dev_parse by simp
  show ?thesis
    by (rule NewServer_leaks_socket[where c = "''192.168.87.0/24''" and ns = "''LB''" and h = mem_link and ifn = "''dummy0''", OF _ p])
      (simp_all add: dev_config_def config_of_def dev_libs_def)
qed

end
