(* ===== verification/Lb_Targets.thy ===== *)
theory Lb_Targets
  imports Lb_Demo
begin

text \<open>
  What \<^verbatim>\<open>AddTarget\<close> and \<^verbatim>\<open>DelTarget\<close> of \<^verbatim>\<open>internal/loadbalancer/impl.go\<close> do to the store and to the IPVS
  table, over any store and any IPVS handle that keep their contracts. The store is read through
  \<open>lb_view\<close>: for every stored name its address and the target list of each port.
\<close>

section \<open>The store as load balancers\<close>

definition targets_at :: "lb_info \<Rightarrow> int32 \<Rightarrow> target list" where
  "targets_at l p = (case map_get (lb_Targets l) p of Some (Some ts) \<Rightarrow> ts | _ \<Rightarrow> [])"

type_synonym lb_contents = "string \<times> (int32 \<Rightarrow> target list)"

definition contents :: "lb_info \<Rightarrow> lb_contents" where
  "contents l = (lb_IpAddr l, targets_at l)"

definition lb_view :: "(string \<Rightarrow> json option) \<Rightarrow> string \<Rightarrow> lb_contents option" where
  "lb_view docs name =
     (case docs name of
        None \<Rightarrow> None
      | Some raw \<Rightarrow> (case unmarshal_lb raw of Ret l \<Rightarrow> Some (contents l) | _ \<Rightarrow> None))"

text \<open>The IPVS service and real server of a target.\<close>

definition svc_of :: "string \<Rightarrow> int32 \<Rightarrow> int32 \<Rightarrow> svc_key" where
  "svc_of ip p proto = service_key (toIPVSService (empty_lb_info\<lparr>lb_IpAddr := ip\<rparr>) p proto)"

definition dst_of :: "string \<Rightarrow> target \<Rightarrow> dst_key" where
  "dst_of ip t = destination_key (toIPVSService (empty_lb_info\<lparr>lb_IpAddr := ip\<rparr>) 0 0) (toDestination (tgt_DstIP t) (tgt_DstPort t))"

lemma service_key_toIPVSService [simp]: "service_key (toIPVSService l p proto) = svc_of (lb_IpAddr l) p proto"
  by (simp add: svc_of_def toIPVSService_def Let_def)

lemma destination_key_toDestination [simp]:
  "destination_key (toIPVSService l p proto) (toDestination (tgt_DstIP t) (tgt_DstPort t)) = dst_of (lb_IpAddr l) t"
  by (simp add: dst_of_def toIPVSService_def destination_key_def Let_def)

lemma same_target_eq [simp]: "same_target a b \<longleftrightarrow> a = b"
  by (cases a; cases b) (simp add: same_target_def)

text \<open>A document that could be read has one entry per port.\<close>

lemma read_target_map_distinct:
  "read_target_map ms es = Ret es' \<Longrightarrow> distinct (map fst es) \<Longrightarrow> distinct (map fst es')"
proof (induction ms es rule: read_target_map.induct)
  case (2 k v ms es)
  from "2.prems" obtain i tl where "parse_int k = Some i" "- (2 ^ 31) \<le> i \<and> i < 2 ^ 31"
    "read_target_list v = Ret tl" "read_target_map ms (AList.update (word_of_int i) tl es) = Ret es'"
    by (auto simp: outcome_simps split: option.splits if_splits)
  with "2.IH" "2.prems"(2) show ?case by (metis distinct_update)
qed simp

lemma read_lb_fields_wf:
  "read_lb_fields ms l = Ret l' \<Longrightarrow> wf_map (lb_Targets l) \<Longrightarrow> wf_map (lb_Targets l')"
proof (induction ms arbitrary: l)
  case (Cons kv ms)
  obtain k v where kv: "kv = (k, v)" by fastforce
  from Cons.prems(1) obtain x where
    x: "(if is_field k ''name'' then obind (read_string v (lb_Name l)) (\<lambda>x. Ret (l\<lparr>lb_Name := x\<rparr>))
         else if is_field k ''ip_addr'' then obind (read_string v (lb_IpAddr l)) (\<lambda>x. Ret (l\<lparr>lb_IpAddr := x\<rparr>))
         else if is_field k ''targets'' then
              (case v of
                 JNull \<Rightarrow> Ret (l\<lparr>lb_Targets := None\<rparr>)
               | JObj es \<Rightarrow> obind (read_target_map es (map_entries (lb_Targets l))) (\<lambda>m. Ret (l\<lparr>lb_Targets := Some m\<rparr>))
               | _ \<Rightarrow> Err json_error)
         else Ret l) = Ret x"
    and rest: "read_lb_fields ms x = Ret l'"
    unfolding kv read_lb_fields.simps obind_Ret_iff by blast
  from x Cons.prems(2) have "wf_map (lb_Targets x)"
    by (auto simp: outcome_simps wf_map_def map_entries_def dest: read_target_map_distinct
        split: if_splits json.splits)
  with Cons.IH rest show ?case by blast
qed simp

lemma unmarshal_wf: "unmarshal_lb raw = Ret l \<Longrightarrow> wf_map (lb_Targets l)"
  by (cases raw) (auto dest!: read_lb_fields_wf simp: empty_lb_info_def wf_map_def map_entries_def)

lemma contents_stored_form [simp]: "contents (stored_form l) = contents l"
  by (cases "lb_Targets l") (auto simp: contents_def stored_form_def targets_at_def map_get_def map_entries_def)

lemma lb_view_put:
  "wf_map (lb_Targets l) \<Longrightarrow> lb_view (docs(name \<mapsto> marshal_lb l)) = (lb_view docs)(name \<mapsto> contents l)"
  by (rule ext) (simp add: lb_view_def unmarshal_marshal_text)

text \<open>Reading a document gives a value or the error of \<^verbatim>\<open>encoding/json\<close>.\<close>

definition settled :: "('e, 'a) outcome \<Rightarrow> bool" where
  "settled r \<longleftrightarrow> r \<noteq> Panic \<and> r \<noteq> Stuck"

definition unspoiled :: "(go_error, 'a) outcome \<Rightarrow> bool" where
  "unspoiled r \<longleftrightarrow> settled r \<and> (\<forall>e. r = Err e \<longrightarrow> e = json_error)"

lemma settled_simps [simp]: "settled (Ret a)" "settled (Err e)" "\<not> settled Panic" "\<not> settled Stuck"
  by (auto simp: settled_def)

lemma unspoiled_simps [simp]: "unspoiled (Ret a)" "unspoiled (Err e) \<longleftrightarrow> e = json_error" "\<not> unspoiled Panic" "\<not> unspoiled Stuck"
  by (auto simp: unspoiled_def)

lemma settled_obind: "settled r \<Longrightarrow> (\<And>a. settled (f a)) \<Longrightarrow> settled (obind r f)"
  by (cases r) auto

lemma unspoiled_obind: "unspoiled r \<Longrightarrow> (\<And>a. unspoiled (f a)) \<Longrightarrow> unspoiled (obind r f)"
  by (cases r) auto

lemma unspoiled_read_int32 [simp]: "unspoiled (read_int32 j x)" by (cases j) auto
lemma unspoiled_read_string [simp]: "unspoiled (read_string j x)" by (cases j) auto

lemma unspoiled_read_target_fields [simp]: "unspoiled (read_target_fields ms t)"
  by (induction ms t rule: read_target_fields.induct) (auto intro!: unspoiled_obind)

lemma unspoiled_read_targets [simp]: "unspoiled (read_targets js)"
  by (induction js rule: read_targets.induct) (auto intro!: unspoiled_obind)

lemma unspoiled_read_target_list_fields [simp]: "unspoiled (read_target_list_fields ms ts)"
  by (induction ms ts rule: read_target_list_fields.induct) (auto intro!: unspoiled_obind split: json.splits)

lemma unspoiled_read_target_list [simp]: "unspoiled (read_target_list j)"
  by (cases j) (auto intro!: unspoiled_obind)

lemma unspoiled_read_target_map [simp]: "unspoiled (read_target_map ms es)"
  by (induction ms es rule: read_target_map.induct) (auto intro!: unspoiled_obind split: option.splits)

lemma unspoiled_read_lb_fields [simp]: "unspoiled (read_lb_fields ms l)"
  by (induction ms l rule: read_lb_fields.induct) (auto intro!: unspoiled_obind split: json.splits)

lemma unspoiled_unmarshal [simp]: "unspoiled (unmarshal_lb raw)"
  by (cases raw) auto

lemma settled_unmarshal [simp]: "settled (unmarshal_lb raw)"
  using unspoiled_unmarshal[of raw] by (simp add: unspoiled_def)

section \<open>Reading a load balancer\<close>

definition gets_succeed :: "('d, 'j) kv_db \<Rightarrow> ('d \<Rightarrow> string \<Rightarrow> 'j option) \<Rightarrow> bool" where
  "gets_succeed db m \<longleftrightarrow>
     (\<forall>k d. db_Get db k d = (case m d k of None \<Rightarrow> Inl ErrKeyNotFound | Some v \<Rightarrow> Inr v))"

lemma getLB_settled: "settled (getLB srv name d)"
  by (auto simp: getLB_def intro!: settled_obind split: sum.splits)

lemma getLB_missing:
  assumes "gets_succeed (srv_db srv) m" "getLB srv name d = Err ErrNoSuchLoadbalancer"
  shows "m d name = None"
proof (rule ccontr)
  assume "m d name \<noteq> None"
  then obtain raw where "m d name = Some raw" by auto
  with assms have "obind (unmarshal_lb raw) (\<lambda>l. Ret (if lb_Targets l = None then l\<lparr>lb_Targets := Some []\<rparr> else l))
      = Err ErrNoSuchLoadbalancer" by (simp add: getLB_def gets_succeed_def)
  then show False using unspoiled_unmarshal[of raw]
    by (cases "unmarshal_lb raw") (auto simp: json_error_def)
qed

lemma getLB_Ret:
  assumes "db_laws (srv_db srv) m" "getLB srv name d = Ret l"
  shows "lb_view (m d) name = Some (contents l)" "wf_map (lb_Targets l)" "lb_Targets l \<noteq> None"
proof -
  from assms(2) obtain raw l0 where raw: "db_Get (srv_db srv) name d = Inr raw" "unmarshal_lb raw = Ret l0"
    and l: "l = (if lb_Targets l0 = None then l0\<lparr>lb_Targets := Some []\<rparr> else l0)"
    by (auto simp: getLB_def outcome_simps split: sum.splits)
  have "m d name = Some raw" using assms(1) raw(1) by (simp add: db_laws_def)
  moreover have "contents l = contents l0"
    by (auto simp: l contents_def targets_at_def map_get_def map_entries_def fun_eq_iff)
  ultimately show "lb_view (m d) name = Some (contents l)" using raw(2) by (simp add: lb_view_def)
  show "wf_map (lb_Targets l)" using unmarshal_wf[OF raw(2)]
    by (auto simp: l wf_map_def map_entries_def)
  show "lb_Targets l \<noteq> None" by (auto simp: l)
qed

lemma with_lb_cases:
  assumes "with_lb srv name w body = (r, w')"
  obtains (found) l where "getLB srv name (db_st w) = Ret l" "body l = (r, w')"
    | (missing) "r = Ret \<lparr>err_Code = ErrNoSuchLB, err_Message = ''no such loadbalancer '' @ name\<rparr>" "w' = w"
      "getLB srv name (db_st w) = Err ErrNoSuchLoadbalancer"
    | (failed) e where "r = Err e" "w' = w"
  using assms getLB_settled[of srv name "db_st w"]
  by (auto simp: with_lb_def settled_def split: outcome.splits if_splits)

definition puts_succeed :: "('d, 'j) kv_db \<Rightarrow> bool" where
  "puts_succeed db \<longleftrightarrow> (\<forall>k v d. fst (db_Put db k v d) = None)"

lemma put_lb_cases:
  assumes "db_laws (srv_db srv) m" "put_lb srv name l w = (r, w')" "wf_map (lb_Targets l)"
  obtains (stored) "r = Ret no_error" "lb_view (m (db_st w')) = (lb_view (m (db_st w)))(name \<mapsto> contents l)"
      "link_st w' = link_st w" "ipvs_st w' = ipvs_st w"
    | (failed) e where "r = Err e" "m (db_st w') = m (db_st w)" "link_st w' = link_st w" "ipvs_st w' = ipvs_st w"
      "\<not> puts_succeed (srv_db srv)"
proof (cases "db_Put (srv_db srv) name (marshal_lb l) (db_st w)")
  case (Pair e d')
  show thesis
  proof (cases e)
    case None
    with assms(1) Pair have "m d' = (m (db_st w))(name \<mapsto> marshal_lb l)" by (simp add: db_laws_def)
    with None Pair assms(2,3) show thesis by (intro stored) (auto simp: put_lb_def lb_view_put)
  next
    case (Some x)
    with assms(1) Pair have "m d' = m (db_st w)" by (simp add: db_laws_def)
    moreover have "\<not> puts_succeed (srv_db srv)"
      unfolding puts_succeed_def using Pair Some by (metis fst_conv option.distinct(1))
    ultimately show thesis using Some Pair assms(2) by (intro failed[of x]) (auto simp: put_lb_def)
  qed
qed

section \<open>Finding a target\<close>

lemma find_target_cases:
  assumes "find_target ts req = r"
  obtains (fresh) t where "req = Some t" "r = Ret None" "t \<notin> set ts"
    | (found) t i where "req = Some t" "r = Ret (Some i)" "i < length ts" "ts ! i = t"
        "take i ts @ drop (Suc i) ts = remove1 t ts"
    | (nil_empty) "req = None" "ts = []" "r = Ret None"
    | (nil_panic) "req = None" "ts \<noteq> []" "r = Panic"
proof (cases req)
  case None
  with assms nil_empty nil_panic show thesis by (cases "ts = []") (auto simp: find_target_def)
next
  case (Some t)
  show thesis
  proof (cases "find (\<lambda>i. ts ! i = t) [0..<length ts]")
    case None
    then have "t \<notin> set ts" by (auto simp: find_None_iff in_set_conv_nth)
    with Some None assms show thesis by (intro fresh) (auto simp: find_target_def)
  next
    case (Some i)
    then have i: "i < length ts" "ts ! i = t" "\<forall>j<i. ts ! j \<noteq> t"
      by (auto simp: find_Some_iff)
    have "ts = take i ts @ t # drop (Suc i) ts" using i by (metis id_take_nth_drop)
    moreover have "t \<notin> set (take i ts)" using i by (auto simp: in_set_conv_nth)
    ultimately have "remove1 t ts = take i ts @ drop (Suc i) ts"
      by (metis remove1_append remove1.simps(2))
    with i Some \<open>req = Some t\<close> assms show thesis by (intro found) (auto simp: find_target_def)
  qed
qed

section \<open>Mapping a target\<close>

context ipvs_table
begin

lemma mapTarget_cases:
  assumes ok "srv_ipvsHandle srv = I"
  obtains (mapped) v' where "mapTarget srv l p (Some t) v = (Ret None, v')"
      "dst_of (lb_IpAddr l) t \<notin> dests (tbl v) (svc_of (lb_IpAddr l) p (tgt_Protocol t))"
      "tbl v' = (tbl v)(svc_of (lb_IpAddr l) p (tgt_Protocol t) \<mapsto>
         insert (dst_of (lb_IpAddr l) t) (dests (tbl v) (svc_of (lb_IpAddr l) p (tgt_Protocol t))))"
    | (refused) e v' where "mapTarget srv l p (Some t) v = (Ret (Some e), v')" "err_Code e = ErrAddDestinationFailed"
      "dests (tbl v') = dests (tbl v)"
    | (failed) e v' where "mapTarget srv l p (Some t) v = (Err e, v')" "dests (tbl v') = dests (tbl v)"
proof -
  let ?s = "toIPVSService l p (tgt_Protocol t)" and ?d = "toDestination (tgt_DstIP t) (tgt_DstPort t)"
  have add: thesis
    if start: "mapTarget srv l p (Some t) v =
        (case ipvs_NewDestination I ?s ?d v1 of
              (Ret _, v') \<Rightarrow> (Ret None, v')
            | (Err e, v') \<Rightarrow>
                (Ret (Some \<lparr>err_Code = ErrAddDestinationFailed, err_Message = error_text (srv_texts srv) e\<rparr>), v')
            | (Panic, v') \<Rightarrow> (Panic, v')
            | (Stuck, v') \<Rightarrow> (Stuck, v'))"
      and eq: "dests (tbl v1) = dests (tbl v)"
      and upd: "\<And>ds. (tbl v1)(service_key ?s \<mapsto> ds) = (tbl v)(service_key ?s \<mapsto> ds)" for v1
  proof (rule new_dest_cases[OF assms(1), of ?s ?d v1])
    fix v' assume "ipvs_NewDestination I ?s ?d v1 = (Ret (), v')"
      "destination_key ?s ?d \<notin> dests (tbl v1) (service_key ?s)"
      "tbl v' = (tbl v1)(service_key ?s \<mapsto> insert (destination_key ?s ?d) (dests (tbl v1) (service_key ?s)))"
    then show thesis using start eq upd by (intro mapped[of v']) auto
  next
    fix e v' assume "ipvs_NewDestination I ?s ?d v1 = (Err e, v')" "tbl v' = tbl v1"
    then show thesis using start eq
      by (intro refused[of "\<lparr>err_Code = ErrAddDestinationFailed, err_Message = error_text (srv_texts srv) e\<rparr>" v']) auto
  qed
  obtain b v0 where p: "ipvs_IsServicePresent I ?s v = (Ret b, v0)" "tbl v0 = tbl v"
    using present_spec[OF assms(1)] by metis
  show thesis
  proof (cases b)
    case True
    then show thesis using p assms(2) by (intro add[of v0]) (auto simp: mapTarget_def Let_def)
  next
    case False
    show thesis
    proof (rule new_service_cases[OF assms(1), of ?s v0])
      fix v1 assume n: "ipvs_NewService I ?s v0 = (Ret (), v1)" "tbl v0 (service_key ?s) = None"
        "tbl v1 = (tbl v0)(service_key ?s \<mapsto> {})"
      then show thesis using p False assms(2)
        by (intro add[of v1]) (auto simp: mapTarget_def Let_def dests_None fun_upd_idem)
    next
      fix e v1 assume "ipvs_NewService I ?s v0 = (Err e, v1)" "tbl v1 = tbl v0"
      then show thesis using p False assms(2) by (intro failed[of e v1]) (auto simp: mapTarget_def Let_def)
    qed
  qed
qed

end

section \<open>AddTarget\<close>

lemma targets_after_set:
  assumes "lb_Targets l \<noteq> None"
  obtains m' where "map_set (lb_Targets l) p (Some ts) = Ret m'"
    "contents (l\<lparr>lb_Targets := m'\<rparr>) = (lb_IpAddr l, (targets_at l)(p := ts))"
    "wf_map (lb_Targets l) \<Longrightarrow> wf_map m'"
proof -
  from assms obtain es where es: "lb_Targets l = Some es" by auto
  define m' where "m' = Some (AList.update p (Some ts) es)"
  have m': "map_set (lb_Targets l) p (Some ts) = (Ret m' :: ('e, _) outcome)" by (simp add: map_set_def es m'_def)
  have "contents (l\<lparr>lb_Targets := m'\<rparr>) = (lb_IpAddr l, (targets_at l)(p := ts))"
    using map_get_set[OF m'] by (auto simp: contents_def targets_at_def)
  moreover have "wf_map (lb_Targets l) \<Longrightarrow> wf_map m'" using wf_map_set[OF m'] by simp
  ultimately show thesis using that[of m'] by (simp add: map_set_def es m'_def)
qed

lemma targets_at_get: "(case map_get (lb_Targets l) p of Some (Some ts) \<Rightarrow> ts | _ \<Rightarrow> []) = targets_at l p"
  by (simp add: targets_at_def)

lemma AddTarget_cases:
  assumes laws: "ipvs_laws (srv_ipvsHandle srv) tbl" "db_laws (srv_db srv) m"
    and run: "AddTarget srv atr w = (r, w')"
  obtains (added) l t where "r = Ret no_error" "req_Target atr = Some t"
      "lb_view (m (db_st w)) (req_LbName atr) = Some (contents l)" "t \<notin> set (targets_at l (req_SrcPort atr))"
      "dst_of (lb_IpAddr l) t \<notin> dests (tbl (ipvs_st w)) (svc_of (lb_IpAddr l) (req_SrcPort atr) (tgt_Protocol t))"
      "lb_view (m (db_st w')) = (lb_view (m (db_st w)))(req_LbName atr \<mapsto>
         (lb_IpAddr l, (targets_at l)(req_SrcPort atr := targets_at l (req_SrcPort atr) @ [t])))"
      "tbl (ipvs_st w') = (tbl (ipvs_st w))(svc_of (lb_IpAddr l) (req_SrcPort atr) (tgt_Protocol t) \<mapsto>
         insert (dst_of (lb_IpAddr l) t) (dests (tbl (ipvs_st w)) (svc_of (lb_IpAddr l) (req_SrcPort atr) (tgt_Protocol t))))"
      "link_st w' = link_st w"
    | (refused) e where "r = Ret e" "err_Code e \<noteq> ErrSuccess" "m (db_st w') = m (db_st w)"
      "dests (tbl (ipvs_st w')) = dests (tbl (ipvs_st w))" "link_st w' = link_st w"
    | (failed) e where "r = Err e" "m (db_st w') = m (db_st w)"
      "\<And>k. dests (tbl (ipvs_st w)) k \<subseteq> dests (tbl (ipvs_st w')) k" "link_st w' = link_st w"
    | (nil_target) "r = Panic" "req_Target atr = None" "w' = w"
proof (rule with_lb_cases[OF run[unfolded AddTarget_def]])
  assume "r = Ret \<lparr>err_Code = ErrNoSuchLB, err_Message = ''no such loadbalancer '' @ req_LbName atr\<rparr>" "w' = w"
  then show thesis by (intro refused) (auto simp: error_codes)
next
  fix e assume "r = Err e" "w' = w" then show thesis by (intro failed[of e]) auto
next
  fix l
  let ?p = "req_SrcPort atr" and ?d = "db_st w"
  let ?ts = "targets_at l ?p"
  assume l: "getLB srv (req_LbName atr) ?d = Ret l"
    and body: "(let targetList = (case map_get (lb_Targets l) ?p of Some (Some ts) \<Rightarrow> ts | _ \<Rightarrow> [])
     in sbind (find_target targetList (req_Target atr), w) (\<lambda>found w.
        if found \<noteq> None then
          (Ret \<lparr>err_Code = ErrTargetAlreadyMapped,
                err_Message = ''target '' @ txt_target (srv_texts srv) (req_Target atr) @
                  '' already mapped to load balancer '' @ req_LbName atr\<rparr>, w)
        else
          case mapTarget srv l (req_SrcPort atr) (req_Target atr) (ipvs_st w) of (r, v') \<Rightarrow>
          sbind (r, w\<lparr>ipvs_st := v'\<rparr>) (\<lambda>ret w.
            case ret of
              Some e \<Rightarrow> (Ret e, w)
            | None \<Rightarrow>
                sbind (map_set (lb_Targets l) (req_SrcPort atr) (Some (targetList @ [the (req_Target atr)])), w)
                  (\<lambda>targets w. put_lb srv (req_LbName atr) (l\<lparr>lb_Targets := targets\<rparr>) w)))) = (r, w')"
  note body = body[unfolded targets_at_get Let_def]
  have view: "lb_view (m ?d) (req_LbName atr) = Some (contents l)" and wf: "wf_map (lb_Targets l)"
    and some: "lb_Targets l \<noteq> None"
    using getLB_Ret[OF laws(2) l] by auto
  have "find_target ?ts (req_Target atr) = find_target ?ts (req_Target atr)" ..
  then show thesis
  proof (cases rule: find_target_cases)
    case (found t i)
    then show thesis using body by (intro refused) (auto simp: error_codes)
  next
    case nil_panic
    then show thesis using body by (intro nil_target) auto
  next
    case nil_empty
    then show thesis using body by (intro nil_target) (auto simp: mapTarget_def)
  next
    case (fresh t)
    note ft = fresh
    from laws(1) refl show thesis
    proof (cases rule: by_laws.mapTarget_cases[where l = l and p = ?p and t = t and v = "ipvs_st w"])
      case (failed e v')
      then show thesis using body ft by (intro that(3)[of e]) auto
    next
      case (refused e v')
      then show thesis using body ft by (intro that(2)[of e]) (auto simp: error_codes)
    next
      case (mapped v')
      obtain m' where m': "map_set (lb_Targets l) ?p (Some (?ts @ [t])) = (Ret m' :: (go_error, _) outcome)"
          "contents (l\<lparr>lb_Targets := m'\<rparr>) = (lb_IpAddr l, (targets_at l)(?p := ?ts @ [t]))" "wf_map m'"
        using targets_after_set[OF some, of ?p "?ts @ [t]"] wf by metis
      have put: "put_lb srv (req_LbName atr) (l\<lparr>lb_Targets := m'\<rparr>) (w\<lparr>ipvs_st := v'\<rparr>) = (r, w')"
        using body ft mapped(1) m'(1) by simp
      have "wf_map (lb_Targets (l\<lparr>lb_Targets := m'\<rparr>))" using m'(3) by simp
      from laws(2) put this show thesis
      proof (cases rule: put_lb_cases)
        case stored
        then show thesis using ft mapped m'(2) view by (intro added[of t l]) auto
      next
        case (failed e)
        then show thesis using mapped by (intro that(3)[of e]) auto
      qed
    qed
  qed
qed

section \<open>DelTarget\<close>

lemma targets_after_del:
  "contents (l\<lparr>lb_Targets := map_del (lb_Targets l) p\<rparr>) = (lb_IpAddr l, (targets_at l)(p := []))"
  by (auto simp: contents_def targets_at_def)

text \<open>The table after a target of a list is gone: with the last one goes its service.\<close>

definition tab_after_del :: "svc_key \<Rightarrow> dst_key \<Rightarrow> bool \<Rightarrow> ipvs_tab \<Rightarrow> ipvs_tab" where
  "tab_after_del k d emptied t = (if emptied then t(k := None) else t(k \<mapsto> dests t k - {d}))"

lemma DelTarget_cases:
  assumes laws: "ipvs_laws (srv_ipvsHandle srv) tbl" "db_laws (srv_db srv) m"
    and run: "DelTarget srv dtr w = (r, w')"
  obtains (removed) l t ts' k where "r = Ret no_error" "req_Target dtr = Some t"
      "lb_view (m (db_st w)) (req_LbName dtr) = Some (contents l)" "t \<in> set (targets_at l (req_SrcPort dtr))"
      "k = svc_of (lb_IpAddr l) (req_SrcPort dtr) (tgt_Protocol t)" "dst_of (lb_IpAddr l) t \<in> dests (tbl (ipvs_st w)) k"
      "ts' = remove1 t (targets_at l (req_SrcPort dtr))"
      "lb_view (m (db_st w')) = (lb_view (m (db_st w)))(req_LbName dtr \<mapsto>
         (lb_IpAddr l, (targets_at l)(req_SrcPort dtr := ts')))"
      "tbl (ipvs_st w') = tab_after_del k (dst_of (lb_IpAddr l) t) (ts' = []) (tbl (ipvs_st w))"
      "link_st w' = link_st w"
    | (not_mapped) e where "r = Ret e" "err_Code e \<in> {ErrNoSuchLB, ErrTargetNotMapped}"
      "m (db_st w') = m (db_st w)" "tbl (ipvs_st w') = tbl (ipvs_st w)" "link_st w' = link_st w"
    | (not_removed) e where "r = Ret e" "err_Code e = ErrDelDestinationFailed"
      "m (db_st w') = m (db_st w)" "link_st w' = link_st w"
      "ipvs_exact (srv_ipvsHandle srv) tbl \<Longrightarrow> tbl (ipvs_st w') = tbl (ipvs_st w)"
    | (failed) e where "r = Err e" "m (db_st w') = m (db_st w)" "link_st w' = link_st w"
      "puts_succeed (srv_db srv) \<Longrightarrow> w' = w"
    | (nil_target) "r = Panic" "req_Target dtr = None" "w' = w"
proof -
  show thesis
  proof (rule with_lb_cases[OF run[unfolded DelTarget_def]], goal_cases)
    case 2 then show thesis by (intro not_mapped) (auto simp: error_codes)
  next
    case (3 e) then show thesis by (intro failed[of e]) auto
  next
    case (1 l)
    let ?p = "req_SrcPort dtr" and ?d = "db_st w" and ?n = "req_LbName dtr"
    let ?ts = "targets_at l ?p"
    note body = 1(2)
    have view: "lb_view (m ?d) ?n = Some (contents l)" and wf: "wf_map (lb_Targets l)"
      and some: "lb_Targets l \<noteq> None"
      using getLB_Ret[OF laws(2) 1(1)] by auto
    show thesis
    proof (cases "map_get (lb_Targets l) ?p \<in> {None, Some None}")
      case True
      then show thesis using body
        by (intro not_mapped[of "target_not_mapped srv dtr []"]) (auto simp: target_not_mapped_def)
    next
      case False
      then have get: "map_get (lb_Targets l) ?p = Some (Some ?ts)" by (auto simp: targets_at_def split: option.splits)
      have "find_target ?ts (req_Target dtr) = find_target ?ts (req_Target dtr)" ..
      then show thesis
      proof (cases rule: find_target_cases)
        case (fresh t)
        then show thesis using body get
          by (intro not_mapped[of "target_not_mapped srv dtr ('' on port '' @ print_int (sint (req_SrcPort dtr)))"])
            (auto simp: target_not_mapped_def)
      next
        case nil_empty
        then show thesis using body get
          by (intro not_mapped[of "target_not_mapped srv dtr ('' on port '' @ print_int (sint (req_SrcPort dtr)))"])
            (auto simp: target_not_mapped_def)
      next
        case nil_panic
        then show thesis using body get by (intro nil_target) auto
      next
        case (found t i)
        let ?s = "toIPVSService l ?p (tgt_Protocol t)" and ?x = "toDestination (tgt_DstIP t) (tgt_DstPort t)"
        let ?k = "svc_of (lb_IpAddr l) ?p (tgt_Protocol t)" and ?r = "remove1 t ?ts"
        note b = body[unfolded get option.case found(2) sbind.simps option.sel Let_def, unfolded option.case found(4,5), unfolded found(1) option.sel]
        have mem: "t \<in> set ?ts" using found(3,4) by auto
        show thesis
        proof (rule by_laws.del_dest_cases[OF laws(1), of ?s ?x "ipvs_st w"], goal_cases)
          case (2 e v1)
          with b show thesis
            by (intro not_removed[of "\<lparr>err_Code = ErrDelDestinationFailed, err_Message = error_text (srv_texts srv) e\<rparr>"]) auto
        next
          case (1 v1)
          note del = 1[simplified]
          show thesis
          proof (cases "?r = []")
            case True
            show thesis
            proof (rule by_laws.del_service_cases[OF laws(1), of ?s v1], goal_cases)
              case (2 e v2)
              have no: "\<not> ipvs_exact (srv_ipvsHandle srv) tbl"
                using by_exact.remove_service_present[of "srv_ipvsHandle srv" tbl v1 ?s] del 2(1) by auto
              from b del(1) True 2(1) no show thesis
                by (intro not_removed[of "\<lparr>err_Code = ErrDelDestinationFailed, err_Message = error_text (srv_texts srv) e\<rparr>"]) auto
            next
              case (1 v2)
              note sdel = 1[simplified]
              have put: "put_lb srv ?n (l\<lparr>lb_Targets := map_del (lb_Targets l) ?p\<rparr>) (w\<lparr>ipvs_st := v2\<rparr>) = (r, w')"
                using b del(1) sdel(1) True by simp
              have "wf_map (lb_Targets (l\<lparr>lb_Targets := map_del (lb_Targets l) ?p\<rparr>))" using wf by (simp add: wf_map_del)
              from laws(2) put this show thesis
              proof (cases rule: put_lb_cases)
                case stored
                with del sdel True mem view found(1) show thesis
                  by (intro removed[of t l ?k "[]"]) (auto simp: tab_after_del_def targets_after_del)
              next
                case (failed e) then show thesis by (intro that(4)[of e]) auto
              qed
            qed
          next
            case False
            obtain m' where m': "map_set (lb_Targets l) ?p (Some ?r) = (Ret m' :: (go_error, _) outcome)"
                "contents (l\<lparr>lb_Targets := m'\<rparr>) = (lb_IpAddr l, (targets_at l)(?p := ?r))" "wf_map m'"
              using targets_after_set[OF some, of ?p ?r] wf by metis
            have put: "put_lb srv ?n (l\<lparr>lb_Targets := m'\<rparr>) (w\<lparr>ipvs_st := v1\<rparr>) = (r, w')"
              using b del(1) False m'(1) by simp
            have "wf_map (lb_Targets (l\<lparr>lb_Targets := m'\<rparr>))" using m'(3) by simp
            from laws(2) put this show thesis
            proof (cases rule: put_lb_cases)
              case stored
              with del False mem view found(1) m'(2) show thesis
                by (intro removed[of t l ?k ?r]) (auto simp: tab_after_del_def)
            next
              case (failed e) then show thesis by (intro that(4)[of e]) auto
            qed
          qed
        qed
      qed
    qed
  qed
qed

section \<open>Properties\<close>

text \<open>
  C7. A successful \<^verbatim>\<open>AddTarget\<close> appends the requested target, which was not there before, to the list
  of its port in the stored load balancer, and adds its real server, not there before either, to the
  load balancer's IPVS service, which is made if needed. No other load balancer, port, service or
  address alias changes.
\<close>

theorem AddTarget_adds:
  assumes "ipvs_laws (srv_ipvsHandle srv) tbl" "db_laws (srv_db srv) m"
    and "AddTarget srv atr w = (Ret e, w')" "err_Code e = ErrSuccess"
  shows "\<exists>ip tg t k. req_Target atr = Some t \<and> lb_view (m (db_st w)) (req_LbName atr) = Some (ip, tg) \<and>
     k = svc_of ip (req_SrcPort atr) (tgt_Protocol t) \<and>
     t \<notin> set (tg (req_SrcPort atr)) \<and> dst_of ip t \<notin> dests (tbl (ipvs_st w)) k \<and>
     lb_view (m (db_st w')) = (lb_view (m (db_st w)))(req_LbName atr \<mapsto>
       (ip, tg(req_SrcPort atr := tg (req_SrcPort atr) @ [t]))) \<and>
     tbl (ipvs_st w') = (tbl (ipvs_st w))(k \<mapsto> insert (dst_of ip t) (dests (tbl (ipvs_st w)) k)) \<and>
     link_st w' = link_st w"
  using assms(1-3)
proof (cases rule: AddTarget_cases)
  case (added l t) then show ?thesis by (auto simp: contents_def)
qed (use assms(4) in auto)

theorem AddTarget_adds_witness:
  "lb_view (map_of (db_st demo_w2)) ''web'' = Some (''192.168.87.200'', (\<lambda>_. [])(80 := [demo_target])) \<and>
   mem_view (ipvs_st demo_w2) = [svc_of ''192.168.87.200'' 80 Protocol_TCP \<mapsto> {dst_of ''192.168.87.200'' demo_target}]"
proof -
  have ok: "err_Code no_error = ErrSuccess" by (simp add: no_error_def ErrSuccess_def)
  have "unmarshal_lb (the (map_of (db_st demo_w1) ''web'')) =
      Ret \<lparr>lb_Name = ''web'', lb_IpAddr = ''192.168.87.200'', lb_Targets = None\<rparr>"
    "map_of (db_st demo_w1) ''web'' \<noteq> None" by code_simp+
  then have v: "lb_view (map_of (db_st demo_w1)) ''web'' = Some (''192.168.87.200'', \<lambda>_. [])"
    by (auto simp: lb_view_def contents_def targets_at_def map_get_def map_entries_def fun_eq_iff)
  have "ipvs_st demo_w1 = []" by code_simp
  then have t: "mem_view (ipvs_st demo_w1) = Map.empty" by (simp add: mem_view_def fun_eq_iff)
  from AddTarget_adds [OF demo_laws(2,3) demo_add_run ok] v t show ?thesis
    by (auto simp: demo_req_def dests_def demo_target_def)
qed

text \<open>
  C20. When \<^verbatim>\<open>AddTarget\<close> answers anything but success, the store is untouched, and an answer with an
  error code also leaves the real servers of every IPVS service and all aliases as they were. It
  panics only on a request without a target, and never fails to return.
\<close>

theorem AddTarget_refused_changes_nothing:
  assumes "ipvs_laws (srv_ipvsHandle srv) tbl" "db_laws (srv_db srv) m"
    and "AddTarget srv atr w = (r, w')" "r \<noteq> Ret no_error"
  shows "m (db_st w') = m (db_st w) \<and> link_st w' = link_st w \<and>
     (case r of
        Ret e \<Rightarrow> err_Code e \<noteq> ErrSuccess \<and> dests (tbl (ipvs_st w')) = dests (tbl (ipvs_st w))
      | Err _ \<Rightarrow> \<forall>k. dests (tbl (ipvs_st w)) k \<subseteq> dests (tbl (ipvs_st w')) k
      | Panic \<Rightarrow> req_Target atr = None
      | Stuck \<Rightarrow> False)"
  using assms(1-3) by (cases rule: AddTarget_cases) (use assms(4) in auto)

theorem AddTarget_refused_changes_nothing_witness:
  "map_of (db_st (snd (AddTarget demo_srv demo_req demo_w2))) = map_of (db_st demo_w2)"
proof -
  have "fst (AddTarget demo_srv demo_req demo_w2) \<noteq> Ret no_error" by code_simp
  from AddTarget_refused_changes_nothing [OF demo_laws(2,3) surjective_pairing this] show ?thesis by simp
qed

text \<open>
  C8. A successful \<^verbatim>\<open>DelTarget\<close> removes the first copy of the target from the list of its port in the
  stored load balancer and its real server from the IPVS service; with the last target of the port it
  removes the whole service. No other load balancer, port, service or address alias changes.
\<close>

theorem DelTarget_removes:
  assumes "ipvs_laws (srv_ipvsHandle srv) tbl" "db_laws (srv_db srv) m"
    and "DelTarget srv dtr w = (Ret e, w')" "err_Code e = ErrSuccess"
  shows "\<exists>ip tg t ts k. req_Target dtr = Some t \<and> lb_view (m (db_st w)) (req_LbName dtr) = Some (ip, tg) \<and>
     k = svc_of ip (req_SrcPort dtr) (tgt_Protocol t) \<and> ts = remove1 t (tg (req_SrcPort dtr)) \<and>
     t \<in> set (tg (req_SrcPort dtr)) \<and> dst_of ip t \<in> dests (tbl (ipvs_st w)) k \<and>
     lb_view (m (db_st w')) = (lb_view (m (db_st w)))(req_LbName dtr \<mapsto> (ip, tg(req_SrcPort dtr := ts))) \<and>
     tbl (ipvs_st w') =
       (if ts = [] then (tbl (ipvs_st w))(k := None)
        else (tbl (ipvs_st w))(k \<mapsto> dests (tbl (ipvs_st w)) k - {dst_of ip t})) \<and>
     link_st w' = link_st w"
  using assms(1-3)
proof (cases rule: DelTarget_cases)
  case (removed l t ts' k)
  then show ?thesis by (auto simp: contents_def tab_after_del_def)
qed (use assms(4) in \<open>auto simp: error_codes\<close>)

theorem DelTarget_removes_witness:
  "\<exists>ip tg t ts. ts = remove1 t (tg 80) \<and> t = demo_target \<and>
     lb_view (map_of (db_st demo_w2)) ''web'' = Some (ip, tg) \<and> t \<in> set (tg 80) \<and>
     lb_view (map_of (db_st (snd (DelTarget demo_srv demo_req demo_w2)))) ''web'' = Some (ip, tg(80 := ts))"
proof -
  have r: "fst (DelTarget demo_srv demo_req demo_w2) = Ret no_error" by code_simp
  have ok: "err_Code no_error = ErrSuccess" by (simp add: no_error_def ErrSuccess_def)
  from DelTarget_removes [OF demo_laws(2,3) _ ok, of demo_req demo_w2 "snd (DelTarget demo_srv demo_req demo_w2)"] r
  show ?thesis by (auto simp: demo_req_def prod_eq_iff)
qed

text \<open>
  Removing a target right after adding it restores the store: every load balancer has its old
  address and targets. Of the IPVS table only the load balancer's own service can differ, and it has
  its old real servers, or none when the port had no other target.
\<close>

lemma add_then_del:
  assumes laws: "ipvs_laws (srv_ipvsHandle srv) tbl" "db_laws (srv_db srv) m"
    and add: "AddTarget srv req w = (Ret e, w1)" "err_Code e = ErrSuccess"
    and del: "DelTarget srv req w1 = (Ret e', w2)" "err_Code e' = ErrSuccess"
  shows "lb_view (m (db_st w2)) = lb_view (m (db_st w)) \<and> link_st w2 = link_st w \<and>
     (\<exists>ip tg t. lb_view (m (db_st w)) (req_LbName req) = Some (ip, tg) \<and> req_Target req = Some t \<and>
        (let k = svc_of ip (req_SrcPort req) (tgt_Protocol t) in
         dests (tbl (ipvs_st w2)) =
           (dests (tbl (ipvs_st w)))(k := if tg (req_SrcPort req) = [] then {} else dests (tbl (ipvs_st w)) k)))"
  using laws add(1)
proof (cases rule: AddTarget_cases)
  case (added l t)
  note a = added
  show ?thesis using laws del(1)
  proof (cases rule: DelTarget_cases)
    case (removed l' t' ts' k)
    let ?p = "req_SrcPort req"
    have eq: "t' = t" "lb_IpAddr l' = lb_IpAddr l" "targets_at l' = (targets_at l)(?p := targets_at l ?p @ [t])"
      using a removed by (auto simp: contents_def)
    then have ts': "ts' = targets_at l ?p" using a(4) removed(7) by (simp add: remove1_append)
    have "k = svc_of (lb_IpAddr l) ?p (tgt_Protocol t)" using removed(5) eq by simp
    with a removed eq ts' show ?thesis
      by (auto simp: contents_def tab_after_del_def Let_def fun_upd_idem)
  qed (use del(2) in \<open>auto simp: error_codes\<close>)
qed (use add(2) in auto)

theorem add_then_del_witness:
  "lb_view (map_of (db_st (snd (DelTarget demo_srv demo_req demo_w2)))) = lb_view (map_of (db_st demo_w1))"
proof -
  have r: "DelTarget demo_srv demo_req demo_w2 = (Ret no_error, snd (DelTarget demo_srv demo_req demo_w2))"
    by code_simp
  have ok: "err_Code no_error = ErrSuccess" by (simp add: no_error_def ErrSuccess_def)
  from add_then_del [OF demo_laws(2,3) demo_add_run ok r ok] show ?thesis by simp
qed

end
