(* ===== verification/Lb_Lifecycle.thy ===== *)
theory Lb_Lifecycle
  imports Lb_Targets
begin

text \<open>
  What \<^verbatim>\<open>Create\<close>, \<^verbatim>\<open>Delete\<close> and \<^verbatim>\<open>Restore\<close> of \<^verbatim>\<open>internal/loadbalancer/impl.go\<close> do to the link, the IPVS
  table and the store.
\<close>

section \<open>Aliases\<close>

definition lb_addr :: "('l, 'v, 'd) lbServer \<Rightarrow> string \<Rightarrow> addr" where
  "lb_addr srv ip = \<lparr>net_IP = ParseIP ip, net_Mask = net_Mask (srv_cidr srv)\<rparr>"

definition alias_up :: "('l, 'v, 'd) lbServer \<Rightarrow> addr list \<Rightarrow> string \<Rightarrow> bool" where
  "alias_up srv xs ip \<longleftrightarrow> (\<exists>x \<in> set xs. Addr_Equal (srv_nlHandle srv) (lb_addr srv ip) x)"

lemma link_lawsD:
  assumes "link_laws h as"
  shows "AddrList h l = (xs, oe) \<Longrightarrow> set xs \<subseteq> set (as l)"
    "AddrAdd h a l = (None, l') \<Longrightarrow> as l' = as l @ [a]"
    "AddrAdd h a l = (Some e, l') \<Longrightarrow> as l' = as l"
    "AddrDel h a l = (None, l') \<Longrightarrow> as l' = filter (\<lambda>x. \<not> Addr_Equal h a x) (as l)"
    "AddrDel h a l = (Some e, l') \<Longrightarrow> as l' = as l"
    "Addr_Equal h a a"
  using assms by (auto simp: link_laws_def IP_Equal_def)

lemma addAddrAlias_cases:
  assumes laws: "link_laws (srv_nlHandle srv) as" and run: "addAddrAlias srv ip l = (r, l')"
  obtains (up) "r = Ret ()" "ipam_Contains (srv_ipam srv) (ParseIP ip)" "alias_up srv (as l') ip"
      "as l' = as l \<or> as l' = as l @ [lb_addr srv ip]"
    | (failed) e where "r = Err e" "as l' = as l"
proof (cases "ipam_Contains (srv_ipam srv) (ParseIP ip)")
  case False
  with run failed show thesis by (auto simp: addAddrAlias_def)
next
  case inside: True
  let ?h = "srv_nlHandle srv" and ?a = "lb_addr srv ip"
  show thesis
  proof (cases "list_ex (Addr_Equal ?h ?a) (fst (AddrList ?h l))")
    case True
    then have "alias_up srv (as l) ip"
      using link_lawsD(1)[OF laws, of l "fst (AddrList ?h l)" "snd (AddrList ?h l)"]
      by (auto simp: alias_up_def list_ex_iff)
    with True run inside up show thesis by (auto simp: addAddrAlias_def lb_addr_def Let_def)
  next
    case False
    obtain e l1 where add: "AddrAdd ?h ?a l = (e, l1)" by fastforce
    with run inside False have r: "r = (case e of None \<Rightarrow> Ret () | Some x \<Rightarrow> Err x)" "l' = l1"
      by (auto simp: addAddrAlias_def lb_addr_def Let_def split: option.splits)
    show thesis
    proof (cases e)
      case None
      with add r link_lawsD(2,6)[OF laws] inside show thesis by (intro up) (auto simp: alias_up_def)
    next
      case (Some x)
      with add r link_lawsD(3)[OF laws] show thesis by (intro failed) auto
    qed
  qed
qed

lemma alias_up_mono: "alias_up srv xs ip \<Longrightarrow> set xs \<subseteq> set ys \<Longrightarrow> alias_up srv ys ip"
  by (auto simp: alias_up_def)

section \<open>Create\<close>

text \<open>The address a request gets: the one it asks for, or the one the address manager allocates.\<close>

definition chosen_ip :: "('l, 'v, 'd) lbServer \<Rightarrow> create_req \<Rightarrow> 'l \<Rightarrow> (go_error, string) outcome" where
  "chosen_ip srv clb l =
     (if clb_IpAddr clb = None \<or> clb_IpAddr clb = Some [] then
        obind (ipam_Allocate (srv_ipam srv) l) (\<lambda>a. Ret (IP_String a))
      else Ret (the (clb_IpAddr clb)))"

definition fresh_lb :: "string \<Rightarrow> string \<Rightarrow> lb_info" where
  "fresh_lb name ip = \<lparr>lb_Name = name, lb_IpAddr = ip, lb_Targets = Some []\<rparr>"

lemma fresh_lb_simps [simp]:
  "wf_map (lb_Targets (fresh_lb name ip))" "contents (fresh_lb name ip) = (ip, \<lambda>_. [])"
  "lb_IpAddr (fresh_lb name ip) = ip"
  by (auto simp: fresh_lb_def wf_map_def map_entries_def contents_def targets_at_def map_get_def)

lemma Create_unfold:
  "Create srv clb w =
     (case db_Get (srv_db srv) (clb_Name clb) (db_st w) of
        Inr _ \<Rightarrow> (Err (ErrText (''loadbalancer called '' @ clb_Name clb @ '' already exists'')), w)
      | Inl e \<Rightarrow>
          if e \<noteq> ErrKeyNotFound then (Err e, w)
          else sbind (chosen_ip srv clb (link_st w), w) (\<lambda>ip w.
            case addAddrAlias srv ip (link_st w) of (r, l') \<Rightarrow>
            sbind (r, w\<lparr>link_st := l'\<rparr>) (\<lambda>_ w.
              case db_Put (srv_db srv) (clb_Name clb) (marshal_lb (fresh_lb (clb_Name clb) ip)) (db_st w) of
                (Some e, d') \<Rightarrow> (Err e, w\<lparr>db_st := d'\<rparr>)
              | (None, d') \<Rightarrow> (Ret (fresh_lb (clb_Name clb) ip), w\<lparr>db_st := d'\<rparr>))))"
proof -
  have "(if clb_IpAddr clb = None \<or> clb_IpAddr clb = Some [] then
           (obind (ipam_Allocate (srv_ipam srv) (link_st w)) (\<lambda>a. Ret (IP_String a)), w)
         else (Ret (the (clb_IpAddr clb)), w)) = (chosen_ip srv clb (link_st w), w)"
    by (simp add: chosen_ip_def)
  then show ?thesis unfolding Create_def fresh_lb_def Let_def lb_info.simps by (simp only:)
qed

lemma Create_cases:
  assumes laws: "link_laws (srv_nlHandle srv) as" "db_laws (srv_db srv) m"
    and run: "Create srv clb w = (r, w')"
  obtains (created) ip where "r = Ret (fresh_lb (clb_Name clb) ip)" "chosen_ip srv clb (link_st w) = Ret ip"
      "m (db_st w) (clb_Name clb) = None"
      "ipam_Contains (srv_ipam srv) (ParseIP ip)" "alias_up srv (as (link_st w')) ip"
      "as (link_st w') = as (link_st w) \<or> as (link_st w') = as (link_st w) @ [lb_addr srv ip]"
      "lb_view (m (db_st w')) = (lb_view (m (db_st w)))(clb_Name clb \<mapsto> (ip, \<lambda>_. []))"
      "ipvs_st w' = ipvs_st w"
    | (failed) e where "r = Err e" "m (db_st w') = m (db_st w)" "ipvs_st w' = ipvs_st w"
      "set (as (link_st w)) \<subseteq> set (as (link_st w'))"
    | (stopped) "r = Panic \<and> ipam_Allocate (srv_ipam srv) (link_st w) = Panic \<or>
        r = Stuck \<and> ipam_Allocate (srv_ipam srv) (link_st w) = Stuck" "w' = w"
proof (cases "db_Get (srv_db srv) (clb_Name clb) (db_st w)")
  case (Inr v)
  with run show thesis by (intro failed) (auto simp: Create_unfold)
next
  case (Inl e)
  show thesis
  proof (cases "e = ErrKeyNotFound")
    case False
    with Inl run show thesis by (intro failed) (auto simp: Create_unfold)
  next
    case True
    with laws(2) Inl have none: "m (db_st w) (clb_Name clb) = None" by (simp add: db_laws_def)
    show thesis
    proof (cases "chosen_ip srv clb (link_st w)")
      case (Err x)
      with Inl True run show thesis by (intro failed) (auto simp: Create_unfold)
    next
      case Panic
      then show thesis using Inl True run
        by (intro stopped; cases "ipam_Allocate (srv_ipam srv) (link_st w)")
          (auto simp: Create_unfold chosen_ip_def split: if_splits)
    next
      case Stuck
      then show thesis using Inl True run
        by (intro stopped; cases "ipam_Allocate (srv_ipam srv) (link_st w)")
          (auto simp: Create_unfold chosen_ip_def split: if_splits)
    next
      case (Ret ip)
      obtain ra l' where al: "addAddrAlias srv ip (link_st w) = (ra, l')" by fastforce
      from laws(1) al show thesis
      proof (cases rule: addAddrAlias_cases)
        case (failed x)
        with Inl True Ret run al show thesis by (intro that(2)[of x]) (auto simp: Create_unfold)
      next
        case up
        obtain pe d' where put: "db_Put (srv_db srv) (clb_Name clb) (marshal_lb (fresh_lb (clb_Name clb) ip)) (db_st w) = (pe, d')"
          by fastforce
        show thesis
        proof (cases pe)
          case None
          with put laws(2) have "m d' = (m (db_st w))(clb_Name clb \<mapsto> marshal_lb (fresh_lb (clb_Name clb) ip))"
            by (simp add: db_laws_def)
          with None put Inl True Ret run al up none show thesis
            by (intro created[of ip]) (auto simp: Create_unfold lb_view_put)
        next
          case (Some x)
          with put laws(2) have "m d' = m (db_st w)" by (simp add: db_laws_def)
          with Some put Inl True Ret run al up show thesis
            by (intro that(2)[of x]) (auto simp: Create_unfold)
        qed
      qed
    qed
  qed
qed

section \<open>Delete\<close>

text \<open>Go visits every entry of a map; the order is its own.\<close>

definition orders_ok :: "('l, 'v, 'd) lbServer \<Rightarrow> bool" where
  "orders_ok srv \<longleftrightarrow>
     (\<forall>es. set (srv_port_order srv es) = set es) \<and> (\<forall>ps. set (srv_proto_order srv ps) = set ps)"

definition lb_services :: "string \<Rightarrow> (int32 \<Rightarrow> target list) \<Rightarrow> svc_key set" where
  "lb_services ip tg = {svc_of ip p (tgt_Protocol t) | p t. t \<in> set (tg p)}"

definition tab_without :: "svc_key set \<Rightarrow> ipvs_tab \<Rightarrow> ipvs_tab" where
  "tab_without ks t = (\<lambda>k. if k \<in> ks then None else t k)"

lemma tab_without_simps [simp]:
  "tab_without {} t = t" "tab_without ks (tab_without ks' t) = tab_without (ks \<union> ks') t"
  by (auto simp: tab_without_def fun_eq_iff)

lemma tab_without_one: "t(k := None) = tab_without {k} t"
  by (auto simp: tab_without_def)

definition entry_services :: "string \<Rightarrow> (int32 \<times> target_list) list \<Rightarrow> svc_key set" where
  "entry_services ip es = {svc_of ip p (tgt_Protocol t) | p ts t. (p, Some ts) \<in> set es \<and> t \<in> set ts}"

lemma entry_services_simps [simp]:
  "entry_services ip [] = {}"
  "entry_services ip ((p, Some ts) # es) = svc_of ip p ` tgt_Protocol ` set ts \<union> entry_services ip es"
  by (auto simp: entry_services_def)

lemma entry_services_cong: "set es = set es' \<Longrightarrow> entry_services ip es = entry_services ip es'"
  by (simp add: entry_services_def)

lemma targets_at_mem:
  "wf_map (lb_Targets l) \<Longrightarrow>
   t \<in> set (targets_at l p) \<longleftrightarrow> (\<exists>ts. (p, Some ts) \<in> set (map_entries (lb_Targets l)) \<and> t \<in> set ts)"
  by (force simp: targets_at_def map_get_mem[symmetric] split: option.splits)

lemma entry_services_targets:
  "wf_map (lb_Targets l) \<Longrightarrow> entry_services ip (map_entries (lb_Targets l)) = lb_services ip (targets_at l)"
  by (auto simp: entry_services_def lb_services_def targets_at_mem)

context ipvs_exact_table
begin

lemma delete_protocols_exact:
  assumes ok "srv_ipvsHandle srv = I"
  shows "\<exists>e' v'. delete_protocols srv l port ps e v = (Ret e', v') \<and>
     (err_Code e' = err_Code e \<or> err_Code e' = ErrNoSuchService) \<and>
     tbl v' = tab_without (svc_of (lb_IpAddr l) port ` set ps) (tbl v)"
proof (induction ps arbitrary: e v)
  case (Cons p ps)
  obtain r v1 where d: "ipvs_DelService I (toIPVSService l port p) v = (r, v1)" "r = Ret () \<or> (\<exists>e. r = Err e)"
    "tbl v1 = tab_without {svc_of (lb_IpAddr l) port p} (tbl v)"
    using remove_service[OF assms(1), of "toIPVSService l port p" v] unfolding tab_without_one by auto
  show ?case
  proof (cases "r = Ret ()")
    case True
    then show ?thesis using d Cons.IH[of e v1] assms(2) by auto
  next
    case False
    then obtain x where "r = Err x" using d(2) by auto
    then show ?thesis
      using d assms(2) Cons.IH[of "e\<lparr>err_Message := error_text (srv_texts srv) x, err_Code := ErrNoSuchService\<rparr>" v1]
      by auto
  qed
qed simp

lemma delete_services_exact:
  assumes ok "srv_ipvsHandle srv = I" "orders_ok srv"
  shows "(\<exists>e' v'. delete_services srv l es e v = (Ret e', v') \<and>
      (err_Code e' = err_Code e \<or> err_Code e' = ErrNoSuchService) \<and>
      tbl v' = tab_without (entry_services (lb_IpAddr l) es) (tbl v)) \<or>
    (\<exists>v'. delete_services srv l es e v = (Panic, v') \<and> None \<in> snd ` set es)"
proof (induction es arbitrary: e v)
  case (Cons en es)
  obtain p tl where en: "en = (p, tl)" by fastforce
  show ?case
  proof (cases tl)
    case None then show ?thesis by (auto simp: en)
  next
    case (Some ts)
    obtain e1 v1 where d: "delete_protocols srv l p (srv_proto_order srv (remdups (map tgt_Protocol ts))) e v = (Ret e1, v1)"
      "err_Code e1 = err_Code e \<or> err_Code e1 = ErrNoSuchService"
      "tbl v1 = tab_without (svc_of (lb_IpAddr l) p ` tgt_Protocol ` set ts) (tbl v)"
      using delete_protocols_exact[OF assms(1,2), of l p "srv_proto_order srv (remdups (map tgt_Protocol ts))" e v]
        assms(3) by (auto simp: orders_ok_def)
    show ?thesis using Cons.IH[of e1 v1] d by (auto simp: en Some Un_commute)
  qed
qed simp

end

lemma note_error_simps [simp]: "note_error tx c None e = e"
  "err_Code (note_error tx c (Some x) e) = or (err_Code e) c"
  by (simp_all add: note_error_def)

lemma Delete_cases:
  assumes laws: "ipvs_exact (srv_ipvsHandle srv) tbl" "link_laws (srv_nlHandle srv) as"
      "db_laws (srv_db srv) m" "orders_ok srv"
    and run: "Delete srv name w = (r, w')"
  obtains (deleted) e l where "r = Ret e" "lb_view (m (db_st w)) name = Some (contents l)"
      "m (db_st w') = (m (db_st w))(name := None)"
      "tbl (ipvs_st w') = tab_without (lb_services (lb_IpAddr l) (targets_at l)) (tbl (ipvs_st w))"
      "as (link_st w') = filter (\<lambda>x. \<not> Addr_Equal (srv_nlHandle srv) (lb_addr srv (lb_IpAddr l)) x) (as (link_st w)) \<or>
       as (link_st w') = as (link_st w) \<and> err_Code e \<noteq> ErrSuccess"
    | (missing) e where "r = Ret e" "err_Code e = ErrNoSuchLB" "w' = w"
      "gets_succeed (srv_db srv) m \<Longrightarrow> m (db_st w) name = None"
    | (failed) e where "r = Err e" "m (db_st w') = m (db_st w)"
    | (nil_list) "r = Panic" "m (db_st w') = m (db_st w)"
proof -
  show thesis
  proof (rule with_lb_cases[OF run[unfolded Delete_def]], goal_cases)
    case 2 then show thesis using getLB_missing by (intro missing) auto
  next
    case (3 e) then show thesis by (intro failed) auto
  next
    case (1 l)
    note body = 1(2)[folded lb_addr_def, unfolded Let_def]
    let ?es = "srv_port_order srv (map_entries (lb_Targets l))"
    have view: "lb_view (m (db_st w)) name = Some (contents l)" and wf: "wf_map (lb_Targets l)"
      using getLB_Ret[OF laws(3) 1(1)] by auto
    have es: "set ?es = set (map_entries (lb_Targets l))" using laws(4) by (simp add: orders_ok_def)
    from by_exact.delete_services_exact[OF laws(1) refl laws(4), of l ?es no_error "ipvs_st w"]
    consider (ran) e1 v1 where "delete_services srv l ?es no_error (ipvs_st w) = (Ret e1, v1)"
        "tbl v1 = tab_without (entry_services (lb_IpAddr l) ?es) (tbl (ipvs_st w))"
      | (panic) v1 where "delete_services srv l ?es no_error (ipvs_st w) = (Panic, v1)" by blast
    then show thesis
    proof cases
      case panic then show thesis using body by (intro nil_list) auto
    next
      case ran
      have t1: "tbl v1 = tab_without (lb_services (lb_IpAddr l) (targets_at l)) (tbl (ipvs_st w))"
        using ran entry_services_cong[OF es] entry_services_targets[OF wf] by metis
      let ?a = "lb_addr srv (lb_IpAddr l)"
      obtain ae l' where al: "AddrDel (srv_nlHandle srv) ?a (link_st w) = (ae, l')" by fastforce
      obtain de d' where dd: "db_Delete (srv_db srv) name (db_st w) = (de, d')" by fastforce
      let ?e2 = "note_error (srv_texts srv) ErrNoSuchIP ae e1"
      let ?e3 = "note_error (srv_texts srv) ErrIPAMError (ipam_Release (srv_ipam srv) (net_IP ?a)) ?e2"
      have end_st: "(r, w') = (case de of Some x \<Rightarrow> Err x | None \<Rightarrow> Ret ?e3,
          w\<lparr>ipvs_st := v1, link_st := l', db_st := d'\<rparr>)"
        using body ran(1) al dd by (cases de) auto
      have link: "as l' = filter (\<lambda>x. \<not> Addr_Equal (srv_nlHandle srv) ?a x) (as (link_st w)) \<or>
          as l' = as (link_st w) \<and> err_Code ?e3 \<noteq> ErrSuccess"
      proof (cases ae)
        case None then show ?thesis using al link_lawsD(4)[OF laws(2)] by simp
      next
        case (Some x)
        then have "err_Code ?e2 \<noteq> 0" by (simp add: or_eq_0_iff ErrNoSuchIP_def)
        then have "err_Code ?e3 \<noteq> 0"
          by (cases "ipam_Release (srv_ipam srv) (net_IP ?a)") (simp_all add: or_eq_0_iff)
        then show ?thesis using Some al link_lawsD(5)[OF laws(2)] by (simp add: ErrSuccess_def)
      qed
      show thesis
      proof (cases de)
        case None
        with dd laws(3) have "m d' = (m (db_st w))(name := None)" by (simp add: db_laws_def)
        with None end_st t1 link view show thesis by (intro deleted[of ?e3 l]) auto
      next
        case (Some x)
        with dd laws(3) have "m d' = m (db_st w)" by (simp add: db_laws_def)
        with Some end_st show thesis by (intro failed[of x]) auto
      qed
    qed
  qed
qed

section \<open>Restore\<close>

text \<open>The real servers a load balancer wants in each service.\<close>

definition lb_dests :: "string \<Rightarrow> (int32 \<Rightarrow> target list) \<Rightarrow> svc_key \<Rightarrow> dst_key set" where
  "lb_dests ip tg k = {dst_of ip t | p t. t \<in> set (tg p) \<and> svc_of ip p (tgt_Protocol t) = k}"

definition entry_dests :: "string \<Rightarrow> (int32 \<times> target_list) list \<Rightarrow> svc_key \<Rightarrow> dst_key set" where
  "entry_dests ip es k =
     {dst_of ip t | p ts t. (p, Some ts) \<in> set es \<and> t \<in> set ts \<and> svc_of ip p (tgt_Protocol t) = k}"

lemma entry_dests_simps [simp]:
  "entry_dests ip [] k = {}" "entry_dests ip ((p, None) # es) k = entry_dests ip es k"
  "entry_dests ip ((p, Some ts) # es) k =
     {dst_of ip t | t. t \<in> set ts \<and> svc_of ip p (tgt_Protocol t) = k} \<union> entry_dests ip es k"
  by (auto simp: entry_dests_def)

lemma entry_dests_cong: "set es = set es' \<Longrightarrow> entry_dests ip es k = entry_dests ip es' k"
  by (simp add: entry_dests_def)

lemma entry_dests_targets:
  "wf_map (lb_Targets l) \<Longrightarrow> entry_dests ip (map_entries (lb_Targets l)) k = lb_dests ip (targets_at l) k"
  by (auto simp: entry_dests_def lb_dests_def targets_at_mem)

context ipvs_exact_table
begin

lemma mapTarget_exact:
  assumes ok "srv_ipvsHandle srv = I"
  obtains e v' where "mapTarget srv l p (Some t) v = (Ret e, v')"
    "dests (tbl v') = (dests (tbl v))(svc_of (lb_IpAddr l) p (tgt_Protocol t) :=
       insert (dst_of (lb_IpAddr l) t) (dests (tbl v) (svc_of (lb_IpAddr l) p (tgt_Protocol t))))"
proof -
  let ?s = "toIPVSService l p (tgt_Protocol t)" and ?d = "toDestination (tgt_DstIP t) (tgt_DstPort t)"
  obtain v0 where p: "ipvs_IsServicePresent I ?s v = (Ret (tbl v (service_key ?s) \<noteq> None), v0)" "tbl v0 = tbl v"
    using present_exact[OF assms(1)] by metis
  obtain v1 where v1: "sbind (ipvs_IsServicePresent I ?s v) (\<lambda>present v.
        if \<not> present then ipvs_NewService I ?s v else (Ret (), v)) = (Ret (), v1)"
    "tbl v1 (service_key ?s) \<noteq> None" "dests (tbl v1) = dests (tbl v)"
  proof (cases "tbl v (service_key ?s) = None")
    case True
    then obtain v1 where "ipvs_NewService I ?s v0 = (Ret (), v1)" "tbl v1 = (tbl v0)(service_key ?s \<mapsto> {})"
      using ensure_service[OF assms(1), of v0 ?s] p(2) by metis
    with p True show thesis by (intro that[of v1]) (auto simp: dests_None fun_upd_idem)
  next
    case False
    with p show thesis by (intro that[of v0]) auto
  qed
  obtain r v' where d: "ipvs_NewDestination I ?s ?d v1 = (r, v')" "r = Ret () \<or> (\<exists>e. r = Err e)"
    "tbl v' = (tbl v1)(service_key ?s \<mapsto> insert (destination_key ?s ?d) (dests (tbl v1) (service_key ?s)))"
    using ensure_dest[OF assms(1) v1(2)] by metis
  have "sbind (ipvs_IsServicePresent I ?s v) (\<lambda>present v.
          sbind (if \<not> present then ipvs_NewService I ?s v else (Ret (), v)) f) = f () v1" for f :: "unit \<Rightarrow> _"
    using v1(1) p(1) by (cases "tbl v (service_key ?s) = None") auto
  then have "mapTarget srv l p (Some t) v = (case ipvs_NewDestination I ?s ?d v1 of
              (Ret _, v') \<Rightarrow> (Ret None, v')
            | (Err e, v') \<Rightarrow>
                (Ret (Some \<lparr>err_Code = ErrAddDestinationFailed, err_Message = error_text (srv_texts srv) e\<rparr>), v')
            | (Panic, v') \<Rightarrow> (Panic, v')
            | (Stuck, v') \<Rightarrow> (Stuck, v'))"
    using assms(2) by (simp add: mapTarget_def Let_def)
  note m = this
  from d(2) show thesis
  proof (elim disjE exE)
    assume "r = Ret ()" then show thesis using m d(1,3) v1(3) by (intro that[of None v']) auto
  next
    fix e assume "r = Err e"
    then show thesis using m d(1,3) v1(3)
      by (intro that[of "Some \<lparr>err_Code = ErrAddDestinationFailed, err_Message = error_text (srv_texts srv) e\<rparr>" v']) auto
  qed
qed

lemma restore_targets_exact:
  assumes ok "srv_ipvsHandle srv = I"
  obtains v' where "restore_targets srv l p ts v = (Ret (), v')"
    "\<And>k. dests (tbl v') k = dests (tbl v) k \<union>
       {dst_of (lb_IpAddr l) t | t. t \<in> set ts \<and> svc_of (lb_IpAddr l) p (tgt_Protocol t) = k}"
proof (induction ts arbitrary: v thesis)
  case (Cons t ts)
  obtain e v1 where m: "mapTarget srv l p (Some t) v = (Ret e, v1)"
    "dests (tbl v1) = (dests (tbl v))(svc_of (lb_IpAddr l) p (tgt_Protocol t) :=
       insert (dst_of (lb_IpAddr l) t) (dests (tbl v) (svc_of (lb_IpAddr l) p (tgt_Protocol t))))"
    using mapTarget_exact[OF assms] by metis
  obtain v2 where "restore_targets srv l p ts v1 = (Ret (), v2)"
    "\<And>k. dests (tbl v2) k = dests (tbl v1) k \<union>
       {dst_of (lb_IpAddr l) t | t. t \<in> set ts \<and> svc_of (lb_IpAddr l) p (tgt_Protocol t) = k}"
    using Cons.IH[of v1] by blast
  with m show ?case by (intro Cons.prems[of v2]) auto
qed simp

lemma restore_ports_exact:
  assumes ok "srv_ipvsHandle srv = I"
  obtains v' where "restore_ports srv l es v = (Ret (), v')"
    "\<And>k. dests (tbl v') k = dests (tbl v) k \<union> entry_dests (lb_IpAddr l) es k"
proof (induction es arbitrary: v thesis)
  case (Cons en es)
  obtain p tl where en: "en = (p, tl)" by fastforce
  show ?case
  proof (cases tl)
    case None
    then show ?thesis using Cons en by (metis entry_dests_simps(2) restore_ports.simps(2))
  next
    case (Some ts)
    obtain v1 where r: "restore_targets srv l p ts v = (Ret (), v1)"
      "\<And>k. dests (tbl v1) k = dests (tbl v) k \<union>
         {dst_of (lb_IpAddr l) t | t. t \<in> set ts \<and> svc_of (lb_IpAddr l) p (tgt_Protocol t) = k}"
      by (rule restore_targets_exact[OF assms, where l = l and p = p and ts = ts and v = v]) (rule that)
    obtain v2 where r2: "restore_ports srv l es v1 = (Ret (), v2)"
      "\<And>k. dests (tbl v2) k = dests (tbl v1) k \<union> entry_dests (lb_IpAddr l) es k"
      using Cons.IH[of v1] by blast
    show ?thesis
    proof (rule Cons.prems)
      show "restore_ports srv l (en # es) v = (Ret (), v2)" using r(1) r2(1) by (simp add: en Some)
      show "dests (tbl v2) k = dests (tbl v) k \<union> entry_dests (lb_IpAddr l) (en # es) k" for k
        unfolding r2(2) r(2) en Some entry_dests_simps by (rule Un_assoc)
    qed
  qed
qed simp

end

lemma restore_all_cases:
  assumes laws: "ipvs_exact (srv_ipvsHandle srv) tbl" "link_laws (srv_nlHandle srv) as" "orders_ok srv"
    and run: "restore_all srv vs w = (Ret (), w')"
  obtains raws ls where "vs = map Inr raws" "list_all2 (\<lambda>raw l. unmarshal_lb raw = Ret l) raws ls"
    "db_st w' = db_st w" "set (as (link_st w)) \<subseteq> set (as (link_st w'))"
    "\<And>l. l \<in> set ls \<Longrightarrow> alias_up srv (as (link_st w')) (lb_IpAddr l)"
    "\<And>k. dests (tbl (ipvs_st w')) k =
       dests (tbl (ipvs_st w)) k \<union> (\<Union>l \<in> set ls. lb_dests (lb_IpAddr l) (targets_at l) k)"
  using run
proof (induction vs arbitrary: w thesis)
  case Nil then show ?case by simp
next
  case (Cons v vs)
  have "\<exists>raw. v = Inr raw"
  proof (cases v)
    case (Inl e) then show ?thesis using Cons.prems(2) by simp
  qed auto
  then obtain raw where v: "v = Inr raw" ..
  from Cons.prems(2)[unfolded v restore_all.simps sbind_Ret_iff] obtain l where
    l: "unmarshal_lb raw = Ret l" and rest: "(case addAddrAlias srv (lb_IpAddr l) (link_st w) of (r, l') \<Rightarrow>
     sbind (r, w\<lparr>link_st := l'\<rparr>) (\<lambda>_ w.
     case restore_ports srv l (srv_port_order srv (map_entries (lb_Targets l))) (ipvs_st w) of (r, v') \<Rightarrow>
     sbind (r, w\<lparr>ipvs_st := v'\<rparr>) (\<lambda>_ w. restore_all srv vs w))) = (Ret (), w')" by blast
  obtain ra l1 where al: "addAddrAlias srv (lb_IpAddr l) (link_st w) = (ra, l1)" by fastforce
  with rest have ra: "ra = Ret ()" by (cases ra) auto
  let ?es = "srv_port_order srv (map_entries (lb_Targets l))"
  obtain v1 where rp: "restore_ports srv l ?es (ipvs_st w) = (Ret (), v1)"
    "\<And>k. dests (tbl v1) k = dests (tbl (ipvs_st w)) k \<union> entry_dests (lb_IpAddr l) ?es k"
    by (rule by_exact.restore_ports_exact[OF laws(1) refl, where l = l and es = ?es and v = "ipvs_st w"]) (rule that)
  have tail: "restore_all srv vs (w\<lparr>link_st := l1, ipvs_st := v1\<rparr>) = (Ret (), w')"
    using rest al ra rp(1) by simp
  have set_es: "set ?es = set (map_entries (lb_Targets l))" using laws(3) by (simp add: orders_ok_def)
  have ed: "entry_dests (lb_IpAddr l) ?es k = lb_dests (lb_IpAddr l) (targets_at l) k" for k
    unfolding entry_dests_cong[OF set_es] by (rule entry_dests_targets[OF unmarshal_wf[OF l]])
  from laws(2) al have up: "alias_up srv (as l1) (lb_IpAddr l)" "set (as (link_st w)) \<subseteq> set (as l1)"
    using ra by (cases rule: addAddrAlias_cases; auto)+
  from tail show ?case
  proof (rule Cons.IH[rotated], goal_cases)
    case (1 raws ls)
    show ?case
    proof (rule Cons.prems(1)[of "raw # raws" "l # ls"])
      show "alias_up srv (as (link_st w')) (lb_IpAddr x)" if "x \<in> set (l # ls)" for x
        using that 1 up by (auto intro: alias_up_mono)
      show "dests (tbl (ipvs_st w')) k =
          dests (tbl (ipvs_st w)) k \<union> (\<Union>l \<in> set (l # ls). lb_dests (lb_IpAddr l) (targets_at l) k)" for k
        using 1(6)[of k] rp(2)[of k] ed[of k] by auto
    next
      show "v # vs = map Inr (raw # raws)" "list_all2 (\<lambda>raw l. unmarshal_lb raw = Ret l) (raw # raws) (l # ls)"
        "db_st w' = db_st w" "set (as (link_st w)) \<subseteq> set (as (link_st w'))"
        using 1 v l up by auto
    qed
  qed
qed

section \<open>Properties\<close>

lemma demo_orders: "orders_ok demo_srv"
  by (simp add: orders_ok_def demo_srv_def)

text \<open>
  C19. A successful \<^verbatim>\<open>Create\<close> answers with the load balancer it stored: a name that was free, the
  requested or allocated address, which lies in the configured network and is now an alias of the
  link, and no targets. No other load balancer changes, no alias goes away, IPVS is not touched.
\<close>

theorem Create_stores:
  assumes "link_laws (srv_nlHandle srv) as" "db_laws (srv_db srv) m"
    and "Create srv clb w = (Ret l, w')"
  shows "\<exists>ip. l = \<lparr>lb_Name = clb_Name clb, lb_IpAddr = ip, lb_Targets = Some []\<rparr> \<and>
     chosen_ip srv clb (link_st w) = Ret ip \<and> m (db_st w) (clb_Name clb) = None \<and>
     ipam_Contains (srv_ipam srv) (ParseIP ip) \<and> alias_up srv (as (link_st w')) ip \<and>
     set (as (link_st w)) \<subseteq> set (as (link_st w')) \<and>
     lb_view (m (db_st w')) = (lb_view (m (db_st w)))(clb_Name clb \<mapsto> (ip, \<lambda>_. [])) \<and>
     ipvs_st w' = ipvs_st w"
  using assms by (cases rule: Create_cases) (auto simp: fresh_lb_def)

theorem Create_stores_witness:
  "alias_up demo_srv (link_st demo_w1) ''192.168.87.200'' \<and>
   lb_view (map_of (db_st demo_w1)) ''web'' = Some (''192.168.87.200'', \<lambda>_. [])"
  using Create_stores [OF demo_laws(4,3) demo_create_run] by (auto simp: demo_create_def)

text \<open>An address the simple manager allocates is on no alias of the link.\<close>

lemma allocated_fresh:
  assumes "link_laws h as" "ipam_ok s" "ends_below_max s" "To4 (From (allowedRange s)) \<noteq> []"
    and "SimpleIpam_Allocate h s l = Ret a" "x \<in> set (as l)"
  shows "ParseIP (IP_String a) = a" "\<not> IP_Equal (net_IP x) a"
proof -
  obtain xs where L: "AddrList h l = (xs, None)"
    using assms(5) by (cases "AddrList h l"; cases "snd (AddrList h l)") (auto simp: SimpleIpam_Allocate_def)
  then have good: "simple_good h s l" using assms(2-4) by (simp add: simple_good_def)
  have a: "ipam_Allocate (simple_ipam h s) l = Ret a" using assms(5) by (simp add: simple_ipam_def)
  show "ParseIP (IP_String a) = a" by (rule simple.allocate_text(1)[OF good a])
  have "xs = as l" using assms(1) L by (simp add: link_laws_def)
  then show "\<not> IP_Equal (net_IP x) a"
    using simple.allocate_fresh[OF good a] L assms(6) IP_Equal_sym
    by (auto simp: simple_ipam_def SimpleIpam_IsUsed_def isUsed_iff)
qed

text \<open>
  C30. Without a requested address, \<^verbatim>\<open>Create\<close> on the simple address manager gives an address no link
  alias has, so a dynamically addressed load balancer never shares its address with what is there.
\<close>

theorem Create_fresh_address:
  assumes "link_laws (srv_nlHandle srv) as" "db_laws (srv_db srv) m"
    and "srv_ipam srv = simple_ipam (srv_nlHandle srv) s" "simple_good (srv_nlHandle srv) s (link_st w)"
    and "clb_IpAddr clb = None \<or> clb_IpAddr clb = Some []"
    and "Create srv clb w = (Ret l, w')"
  shows "\<forall>x \<in> set (as (link_st w)). \<not> IP_Equal (net_IP x) (ParseIP (lb_IpAddr l))"
  using assms(1,2,6)
proof (cases rule: Create_cases)
  case (created ip)
  then obtain a where a: "SimpleIpam_Allocate (srv_nlHandle srv) s (link_st w) = Ret a" "ip = IP_String a"
    using assms(3,5) by (auto simp: chosen_ip_def outcome_simps simple_ipam_def)
  have "ipam_ok s" "ends_below_max s" "To4 (From (allowedRange s)) \<noteq> []" using assms(4) by (auto simp: simple_good_def)
  note fr = allocated_fresh[OF assms(1) this a(1)]
  then show ?thesis using a(2) created(1) by auto
qed auto

theorem Create_fresh_address_witness:
  "\<not> IP_Equal [192, 168, 87, 200] (ParseIP (lb_IpAddr (case fst (Create demo_srv demo_create
      (demo_w0\<lparr>link_st := [\<lparr>net_IP = [192, 168, 87, 200], net_Mask = [255, 255, 255, 0]\<rparr>]\<rparr>)) of Ret l \<Rightarrow> l)))"
proof -
  let ?w = "demo_w0\<lparr>link_st := [\<lparr>net_IP = [192, 168, 87, 200], net_Mask = [255, 255, 255, 0]\<rparr>]\<rparr>"
  have run: "Create demo_srv demo_create ?w = (Ret (fresh_lb ''web'' ''192.168.87.201''), snd (Create demo_srv demo_create ?w))"
    by code_simp
  have good: "simple_good (srv_nlHandle demo_srv) dev_ipam (link_st ?w)"
    using ipam_New_ok[OF dev_ipam_New]
    by (simp add: simple_good_def demo_srv_def) (code_simp)
  have i: "srv_ipam demo_srv = simple_ipam (srv_nlHandle demo_srv) dev_ipam" by (simp add: demo_srv_def)
  have d: "clb_IpAddr demo_create = None \<or> clb_IpAddr demo_create = Some []" by (simp add: demo_create_def)
  from Create_fresh_address [OF demo_laws(4,3) i good d run]
  have "\<not> IP_Equal [192, 168, 87, 200] (ParseIP (lb_IpAddr (fresh_lb ''web'' ''192.168.87.201'')))" by simp
  then show ?thesis by (subst run) simp
qed

text \<open>
  C10. A \<^verbatim>\<open>Delete\<close> that answers success removes the document, every IPVS service of the load
  balancer's targets, and its address alias; every other document, service and alias stays.
\<close>

theorem Delete_removes:
  assumes "ipvs_exact (srv_ipvsHandle srv) tbl" "link_laws (srv_nlHandle srv) as"
      "db_laws (srv_db srv) m" "orders_ok srv"
    and "Delete srv name w = (Ret e, w')" "err_Code e = ErrSuccess"
  shows "\<exists>ip tg. lb_view (m (db_st w)) name = Some (ip, tg) \<and>
     m (db_st w') = (m (db_st w))(name := None) \<and>
     tbl (ipvs_st w') = (\<lambda>k. if k \<in> lb_services ip tg then None else tbl (ipvs_st w) k) \<and>
     as (link_st w') = filter (\<lambda>x. \<not> Addr_Equal (srv_nlHandle srv) (lb_addr srv ip) x) (as (link_st w))"
  using assms(1-5)
proof (cases rule: Delete_cases)
  case (deleted e' l)
  then show ?thesis using assms(6) by (auto simp: contents_def tab_without_def)
qed (use assms(6) in \<open>auto simp: error_codes\<close>)

theorem Delete_removes_witness:
  "map_of (db_st (snd (Delete demo_srv ''web'' demo_w2))) = (map_of (db_st demo_w2))(''web'' := None)"
proof -
  have r: "Delete demo_srv ''web'' demo_w2 = (Ret no_error, snd (Delete demo_srv ''web'' demo_w2))" by code_simp
  have ok: "err_Code no_error = ErrSuccess" by (simp add: no_error_def ErrSuccess_def)
  from Delete_removes [OF demo_laws(1,4,3) demo_orders r ok] show ?thesis by auto
qed

text \<open>
  C31. Deleting one of two load balancers with the same address takes the address from the other: it is
  still stored, but its address is no longer an alias of the link. (\<^verbatim>\<open>Create\<close> allows the shared address
  on purpose: its comment speaks of another load balancer with the same IP.)
\<close>

theorem Delete_drops_shared_alias:
  assumes "ipvs_exact (srv_ipvsHandle srv) tbl" "link_laws (srv_nlHandle srv) as"
      "db_laws (srv_db srv) m" "orders_ok srv"
    and "Delete srv name w = (Ret e, w')" "err_Code e = ErrSuccess"
    and "other \<noteq> name" "lb_view (m (db_st w)) other = Some (ip, tg)" "lb_view (m (db_st w)) name = Some (ip, tg')"
  shows "lb_view (m (db_st w')) other = Some (ip, tg) \<and> \<not> alias_up srv (as (link_st w')) ip"
  using assms(1-5)
proof (cases rule: Delete_cases)
  case (deleted e' l)
  then show ?thesis using assms(6-9) by (auto simp: contents_def alias_up_def lb_view_def)
qed (use assms(6) in \<open>auto simp: error_codes\<close>)

theorem Delete_drops_shared_alias_witness:
  "let w = snd (Create demo_srv \<lparr>clb_Name = ''dns'', clb_IpAddr = Some ''192.168.87.200''\<rparr> demo_w1);
       w' = snd (Delete demo_srv ''web'' w)
   in lb_view (map_of (db_st w')) ''dns'' = Some (''192.168.87.200'', \<lambda>_. []) \<and> \<not> alias_up demo_srv (link_st w') ''192.168.87.200''"
proof -
  let ?c = "\<lparr>clb_Name = ''dns'', clb_IpAddr = Some ''192.168.87.200''\<rparr>"
  let ?w = "snd (Create demo_srv ?c demo_w1)"
  have c: "Create demo_srv ?c demo_w1 = (Ret (fresh_lb ''dns'' ''192.168.87.200''), ?w)" by code_simp
  have d: "Delete demo_srv ''web'' ?w = (Ret no_error, snd (Delete demo_srv ''web'' ?w))" by code_simp
  have ok: "err_Code no_error = ErrSuccess" by (simp add: no_error_def ErrSuccess_def)
  have v1: "lb_view (map_of (db_st demo_w1)) ''web'' = Some (''192.168.87.200'', \<lambda>_. [])"
    using demo_laws(4,3) demo_create_run by (cases rule: Create_cases) (auto simp: demo_create_def fresh_lb_def)
  have v: "lb_view (map_of (db_st ?w)) = (lb_view (map_of (db_st demo_w1)))(''dns'' \<mapsto> (''192.168.87.200'', \<lambda>_. []))"
    using demo_laws(4,3) c by (cases rule: Create_cases) (auto simp: fresh_lb_def)
  show ?thesis
    using Delete_drops_shared_alias [OF demo_laws(1,4,3) demo_orders d ok, of "''dns''"] v v1 by (simp add: Let_def)
qed

lemma lb_view_Some:
  "lb_view docs name = Some c \<longleftrightarrow> (\<exists>raw l. docs name = Some raw \<and> unmarshal_lb raw = Ret l \<and> c = contents l)"
  by (auto simp: lb_view_def split: option.splits outcome.splits)

lemma list_all2_set:
  assumes "list_all2 P xs ys"
  shows "\<And>x. x \<in> set xs \<Longrightarrow> \<exists>y \<in> set ys. P x y" "\<And>y. y \<in> set ys \<Longrightarrow> \<exists>x \<in> set xs. P x y"
  using assms by (induction rule: list_all2_induct) auto

lemma restored_views:
  assumes "vs = map (\<lambda>k. the (docs k)) ks" "set ks = dom docs"
    and "list_all2 (\<lambda>raw l. unmarshal_lb raw = Ret l) vs ls"
  shows "contents ` set ls = {c. \<exists>name. lb_view docs name = Some c}"
proof -
  have vs: "set vs = {raw. \<exists>name. docs name = Some raw}"
    using assms(1,2) by (force simp: dom_def image_iff)
  show ?thesis
  proof (intro set_eqI iffI)
    fix c assume "c \<in> contents ` set ls"
    then obtain l where "l \<in> set ls" "c = contents l" by auto
    moreover from this obtain raw where "raw \<in> set vs" "unmarshal_lb raw = Ret l"
      using list_all2_set(2)[OF assms(3)] by blast
    ultimately show "c \<in> {c. \<exists>name. lb_view docs name = Some c}" using vs by (auto simp: lb_view_Some)
  next
    fix c assume "c \<in> {c. \<exists>name. lb_view docs name = Some c}"
    then obtain raw l where "raw \<in> set vs" "unmarshal_lb raw = Ret l" "c = contents l"
      using vs by (auto simp: lb_view_Some)
    moreover from this obtain l' where "l' \<in> set ls" "unmarshal_lb raw = Ret l'"
      using list_all2_set(1)[OF assms(3)] by blast
    ultimately show "c \<in> contents ` set ls" by auto
  qed
qed

lemma Restore_effect:
  assumes "ipvs_exact (srv_ipvsHandle srv) tbl" "link_laws (srv_nlHandle srv) as"
      "db_laws (srv_db srv) m" "orders_ok srv"
    and "Restore srv w = (Ret (), w')"
  shows "db_st w' = db_st w \<and>
     (\<forall>name ip tg. lb_view (m (db_st w)) name = Some (ip, tg) \<longrightarrow> alias_up srv (as (link_st w')) ip) \<and>
     (\<forall>k. dests (tbl (ipvs_st w')) k = dests (tbl (ipvs_st w)) k \<union>
        {d. \<exists>name ip tg. lb_view (m (db_st w)) name = Some (ip, tg) \<and> d \<in> lb_dests ip tg k})"
proof (rule restore_all_cases[OF assms(1,2,4) assms(5)[unfolded Restore_def]], goal_cases)
  case (1 raws ls)
  obtain ks where ks: "set ks = dom (m (db_st w))" "raws = map (\<lambda>k. the (m (db_st w) k)) ks"
    using assms(3) 1(1) unfolding db_laws_def by metis
  note views = restored_views[OF ks(2,1) 1(2)]
  have "alias_up srv (as (link_st w')) ip" if "lb_view (m (db_st w)) name = Some (ip, tg)" for name ip tg
  proof -
    have "(ip, tg) \<in> contents ` set ls" using views that by auto
    then show ?thesis using 1(5) by (auto simp: contents_def)
  qed
  moreover have "(\<Union>l \<in> set ls. lb_dests (lb_IpAddr l) (targets_at l) k) =
      {d. \<exists>name ip tg. lb_view (m (db_st w)) name = Some (ip, tg) \<and> d \<in> lb_dests ip tg k}" for k
  proof -
    have "(\<Union>l \<in> set ls. lb_dests (lb_IpAddr l) (targets_at l) k) = (\<Union>(ip, tg) \<in> contents ` set ls. lb_dests ip tg k)"
      by (auto simp: contents_def)
    also have "\<dots> = {d. \<exists>name ip tg. lb_view (m (db_st w)) name = Some (ip, tg) \<and> d \<in> lb_dests ip tg k}"
      unfolding views by auto
    finally show ?thesis .
  qed
  ultimately show ?case using 1(3,6) by auto
qed

text \<open>
  C11. \<^verbatim>\<open>Restore\<close> rebuilds what the store says: when it returns without error, whatever the link and the
  IPVS table held before, every stored load balancer has its address alias, the real servers of every
  service are the earlier ones and the stored targets and nothing else, and the store is unchanged.
\<close>

theorem Restore_rebuilds:
  assumes "ipvs_exact (srv_ipvsHandle srv) tbl" "link_laws (srv_nlHandle srv) as"
      "db_laws (srv_db srv) m" "orders_ok srv"
    and "Restore srv w = (Ret (), w')"
  shows "db_st w' = db_st w \<and>
     (\<forall>name ip tg. lb_view (m (db_st w)) name = Some (ip, tg) \<longrightarrow> alias_up srv (as (link_st w')) ip) \<and>
     (\<forall>k. dests (tbl (ipvs_st w')) k = dests (tbl (ipvs_st w)) k \<union>
        {d. \<exists>name ip tg. lb_view (m (db_st w)) name = Some (ip, tg) \<and> d \<in> lb_dests ip tg k})"
  using assms by (rule Restore_effect)

theorem Restore_rebuilds_witness:
  "\<forall>k. dests (mem_view (ipvs_st (snd (Restore demo_srv (demo_w2\<lparr>link_st := [], ipvs_st := []\<rparr>))))) k =
     {d. \<exists>name ip tg. lb_view (map_of (db_st demo_w2)) name = Some (ip, tg) \<and> d \<in> lb_dests ip tg k}"
proof -
  let ?w = "demo_w2\<lparr>link_st := [], ipvs_st := []\<rparr>"
  have r: "Restore demo_srv ?w = (Ret (), snd (Restore demo_srv ?w))" by code_simp
  have "mem_view [] = Map.empty" by (simp add: mem_view_def fun_eq_iff)
  then show ?thesis
    using Restore_rebuilds [OF demo_laws(1,4,3) demo_orders r] by (simp add: dests_def)
qed

definition demo_udp :: target_req where
  "demo_udp = demo_req\<lparr>req_Target := Some (demo_target\<lparr>tgt_Protocol := Protocol_UDP\<rparr>)\<rparr>"


end
