(* ===== verification/Lb_Invariant.thy ===== *)
theory Lb_Invariant
  imports Lb_Lifecycle
begin

text \<open>
  The server of \<^verbatim>\<open>internal/loadbalancer/impl.go\<close> as a state machine: any sequence of its calls and
  restarts, with what callers must respect as guards of the steps. The invariant says that the link and
  the IPVS table serve what the store promises.
\<close>

section \<open>The invariant\<close>

definition port_ok :: "int32 \<Rightarrow> bool" where
  "port_ok p \<longleftrightarrow> unat p < 65536"

definition slot_of :: "string \<Rightarrow> int32 \<Rightarrow> target \<Rightarrow> svc_key \<times> dst_key" where
  "slot_of ip p t = (svc_of ip p (tgt_Protocol t), dst_of ip t)"

text \<open>One load balancer is served: its alias is up, its targets are real servers of their services, each its own.\<close>

definition served :: "('l, 'v, 'd) lbServer \<Rightarrow> addr list \<Rightarrow> ipvs_tab \<Rightarrow> lb_contents \<Rightarrow> bool" where
  "served srv xs T c \<longleftrightarrow>
     alias_up srv xs (fst c) \<and> length (ParseIP (fst c)) = 16 \<and>
     (\<forall>p. \<forall>t \<in> set (snd c p). port_ok p \<and> dst_of (fst c) t \<in> dests T (svc_of (fst c) p (tgt_Protocol t))) \<and>
     (\<forall>p. distinct (map (slot_of (fst c) p) (snd c p)))"

definition consistent ::
  "('l, 'v, 'd) lbServer \<Rightarrow> (string \<Rightarrow> lb_contents option) \<Rightarrow> addr list \<Rightarrow> ipvs_tab \<Rightarrow> bool" where
  "consistent srv V xs T \<longleftrightarrow>
     (\<forall>n c. V n = Some c \<longrightarrow> served srv xs T c) \<and>
     (\<forall>n n' c c'. V n = Some c \<and> V n' = Some c' \<and> n \<noteq> n' \<longrightarrow> ParseIP (fst c) \<noteq> ParseIP (fst c'))"

lemma svc_of_eq:
  "svc_of ip p a =
     (let af = (if To4 (ParseIP ip) = [] then AF_INET6 else AF_INET) in
      Addr_Key af (if a = Protocol_UDP then IPPROTO_UDP else IPPROTO_TCP)
        (kernel_addr af (wire_addr (ParseIP ip))) (ucast p))"
  by (simp add: svc_of_def service_key_def toIPVSService_def Let_def empty_lb_info_def zero_service_def)

text \<open>The kernel's form of an address determines it, given its family.\<close>

lemma kernel_addr_16:
  "length a = 16 \<Longrightarrow> kernel_addr (if To4 a = [] then AF_INET6 else AF_INET) (wire_addr a) = (if To4 a = [] then a else To4 a)"
  by (auto simp: kernel_addr_def wire_addr_def To4_def AF_INET_def AF_INET6_def)

lemma kernel_addr_inj:
  assumes "length a = 16" "length b = 16" "(To4 a = []) = (To4 b = [])"
    "(if To4 a = [] then a else To4 a) = (if To4 b = [] then b else To4 b)"
  shows "a = b"
proof (cases "To4 a = []")
  case False
  have "x = v4InV6Prefix @ To4 x" if "length x = 16" "To4 x \<noteq> []" for x
  proof -
    have "take 12 x = v4InV6Prefix" using that by (auto simp: To4_def split: if_splits)
    then show ?thesis using that append_take_drop_id[of 12 x] by (simp add: To4_def)
  qed
  with False assms show ?thesis by metis
qed (use assms in auto)

lemma svc_of_inj:
  assumes "svc_of ip p a = svc_of ip' p' b" "length (ParseIP ip) = 16" "length (ParseIP ip') = 16"
  shows "ParseIP ip = ParseIP ip'" "port_ok p \<Longrightarrow> port_ok p' \<Longrightarrow> p = p'"
proof -
  have "(To4 (ParseIP ip) = []) = (To4 (ParseIP ip') = [])"
    using assms(1) by (auto simp: svc_of_eq Let_def AF_INET_def AF_INET6_def split: if_splits)
  moreover from assms(1) have "kernel_addr (if To4 (ParseIP ip) = [] then AF_INET6 else AF_INET) (wire_addr (ParseIP ip)) =
      kernel_addr (if To4 (ParseIP ip') = [] then AF_INET6 else AF_INET) (wire_addr (ParseIP ip'))"
    unfolding svc_of_eq Let_def svc_key.inject by blast
  ultimately show "ParseIP ip = ParseIP ip'"
    using kernel_addr_inj[OF assms(2,3)] unfolding kernel_addr_16[OF assms(2)] kernel_addr_16[OF assms(3)] by blast
  assume ok: "port_ok p" "port_ok p'"
  have "(ucast p :: uint16) = ucast p'" using assms(1) unfolding svc_of_eq Let_def svc_key.inject by blast
  then have "unat (ucast p :: uint16) = unat (ucast p' :: uint16)" by simp
  then have "unat p = unat p'"
    using ok by (simp add: port_ok_def unsigned_ucast_eq take_bit_nat_eq_self)
  then show "p = p'" by (simp only: word_unat_eq_iff)
qed

lemma served_mono:
  "served srv xs T c \<Longrightarrow> set xs \<subseteq> set ys \<Longrightarrow> (\<And>k. dests T k \<subseteq> dests T' k) \<Longrightarrow> served srv ys T' c"
  unfolding served_def by (meson alias_up_mono subsetD)

lemma consistent_mono:
  "consistent srv V xs T \<Longrightarrow> set xs \<subseteq> set ys \<Longrightarrow> (\<And>k. dests T k \<subseteq> dests T' k) \<Longrightarrow> consistent srv V ys T'"
  unfolding consistent_def by (meson served_mono)

lemma consistentD:
  assumes "consistent srv V xs T"
  shows "V n = Some c \<Longrightarrow> served srv xs T c"
    "V n = Some c \<Longrightarrow> V n' = Some c' \<Longrightarrow> n \<noteq> n' \<Longrightarrow> ParseIP (fst c) \<noteq> ParseIP (fst c')"
  using assms unfolding consistent_def by blast+

text \<open>A change of one load balancer that keeps its address, and serves it and all others.\<close>

lemma consistent_update:
  assumes "consistent srv V xs T"
    and "\<And>n' c'. V n' = Some c' \<Longrightarrow> n' \<noteq> n \<Longrightarrow> served srv ys T' c' \<and> ParseIP (fst c') \<noteq> ParseIP (fst c)"
    and "served srv ys T' c"
  shows "consistent srv (V(n \<mapsto> c)) ys T'"
  unfolding consistent_def
proof (intro conjI allI impI)
  fix n' d assume "(V(n \<mapsto> c)) n' = Some d"
  then show "served srv ys T' d" using assms(2,3) by (auto split: if_splits)
next
  fix n1 n2 c1 c2
  assume "(V(n \<mapsto> c)) n1 = Some c1 \<and> (V(n \<mapsto> c)) n2 = Some c2 \<and> n1 \<noteq> n2"
  then show "ParseIP (fst c1) \<noteq> ParseIP (fst c2)"
    using assms(2)[of n1 c1] assms(2)[of n2 c2] consistentD(2)[OF assms(1), of n1 c1 n2 c2]
    by (auto split: if_splits)
qed

section \<open>The five changes\<close>

lemma consistent_add:
  assumes "consistent srv V xs T" "V n = Some (ip, tg)" "port_ok p"
    and "dst_of ip t \<notin> dests T (svc_of ip p (tgt_Protocol t))"
  shows "consistent srv (V(n \<mapsto> (ip, tg(p := tg p @ [t])))) xs
     (T(svc_of ip p (tgt_Protocol t) \<mapsto> insert (dst_of ip t) (dests T (svc_of ip p (tgt_Protocol t)))))"
    (is "consistent _ _ _ ?T")
proof (rule consistent_update[OF assms(1)])
  have more: "dests T k \<subseteq> dests ?T k" for k by auto
  fix n' c' assume "V n' = Some c'" "n' \<noteq> n"
  then show "served srv xs ?T c' \<and> ParseIP (fst c') \<noteq> ParseIP (fst (ip, tg(p := tg p @ [t])))"
    using served_mono[OF consistentD(1)[OF assms(1)] subset_refl more] consistentD(2)[OF assms(1) _ assms(2)]
    by simp
next
  have more: "dests T k \<subseteq> dests ?T k" for k by auto
  have s: "served srv xs T (ip, tg)" using consistentD(1)[OF assms(1,2)] .
  moreover have "slot_of ip p t \<notin> set (map (slot_of ip p) (tg p))"
    using s assms(4) by (auto simp: served_def slot_of_def)
  moreover from s have "\<forall>q. \<forall>u \<in> set (tg q). dst_of ip u \<in> dests ?T (svc_of ip q (tgt_Protocol u))"
    unfolding served_def fst_conv snd_conv using more by blast
  moreover have "dst_of ip t \<in> dests ?T (svc_of ip p (tgt_Protocol t))" by simp
  ultimately show "served srv xs ?T (ip, tg(p := tg p @ [t]))" using assms(3) unfolding served_def by simp
qed

lemma distinct_map_remove1:
  "distinct (map f xs) \<Longrightarrow> x \<in> set xs \<Longrightarrow> y \<in> set (remove1 x xs) \<Longrightarrow> f y \<noteq> f x"
proof (induction xs)
  case (Cons a xs)
  then show ?case
  proof (cases "x = a")
    case False
    with Cons show ?thesis by (auto simp: image_iff)
  qed (auto simp: image_iff)
qed simp

lemma consistent_del:
  assumes "consistent srv V xs T" "V n = Some (ip, tg)" "t \<in> set (tg p)" "ts = remove1 t (tg p)"
  shows "consistent srv (V(n \<mapsto> (ip, tg(p := ts)))) xs
     (tab_after_del (svc_of ip p (tgt_Protocol t)) (dst_of ip t) (ts = []) T)" (is "consistent _ _ _ ?T")
proof (rule consistent_update[OF assms(1)])
  let ?k = "svc_of ip p (tgt_Protocol t)"
  have s: "served srv xs T (ip, tg)" using consistentD(1)[OF assms(1,2)] .
  then have len: "length (ParseIP ip) = 16" and pok: "port_ok p" using assms(3) by (auto simp: served_def)
  have other: "dests ?T k = dests T k" if "k \<noteq> ?k" for k
    using that by (auto simp: tab_after_del_def)
  {
    fix n' c' assume c': "V n' = Some c'" "n' \<noteq> n"
    have s': "served srv xs T c'" and ne: "ParseIP (fst c') \<noteq> ParseIP ip"
      using consistentD(1)[OF assms(1) c'(1)] consistentD(2)[OF assms(1) c'(1) assms(2) c'(2)] by simp_all
    have "svc_of (fst c') p' a \<noteq> ?k" for p' a
      using svc_of_inj(1)[of "fst c'" p' a ip p] ne len s' by (auto simp: served_def)
    then show "served srv xs ?T c' \<and> ParseIP (fst c') \<noteq> ParseIP (fst (ip, tg(p := ts)))"
      using s' ne other by (auto simp: served_def)
  }
  have "dst_of ip u \<in> dests ?T (svc_of ip q (tgt_Protocol u))" if u: "u \<in> set ((tg(p := ts)) q)" for q u
  proof (cases "svc_of ip q (tgt_Protocol u) = ?k")
    case False
    have "u \<in> set (tg q)" using u assms(4) set_remove1_subset[of t "tg p"] by (auto split: if_splits)
    then show ?thesis using other[OF False] s by (auto simp: served_def)
  next
    case True
    have inq: "u \<in> set (tg q)" using u assms(4) set_remove1_subset[of t "tg p"] by (auto split: if_splits)
    then have "port_ok q" using s by (auto simp: served_def)
    then have q: "q = p" using svc_of_inj(2)[OF True len len] pok by simp
    with u have u': "u \<in> set ts" by simp
    have "slot_of ip p u \<noteq> slot_of ip p t"
      using distinct_map_remove1[of "slot_of ip p" "tg p" t u] s assms(3,4) u' by (auto simp: served_def)
    then have "dst_of ip u \<noteq> dst_of ip t" using True q by (auto simp: slot_of_def)
    moreover have "dst_of ip u \<in> dests T (svc_of ip q (tgt_Protocol u))" using s inq by (auto simp: served_def)
    then have "dst_of ip u \<in> dests T ?k" unfolding True .
    moreover have "ts \<noteq> []" using u' by auto
    ultimately show ?thesis using True by (simp add: tab_after_del_def)
  qed
  moreover have "distinct (map (slot_of ip p) ts)"
    using s assms(4) by (simp add: served_def) (metis distinct_map distinct_remove1 inj_on_subset set_remove1_subset)
  ultimately show "served srv xs ?T (ip, tg(p := ts))"
    using s assms(3,4) set_remove1_subset[of t "tg p"] by (auto simp: served_def)
qed

lemma consistent_create:
  assumes "consistent srv V xs T" "set xs \<subseteq> set ys" "alias_up srv ys ip" "length (ParseIP ip) = 16"
    and "\<And>n' c'. V n' = Some c' \<Longrightarrow> ParseIP (fst c') \<noteq> ParseIP ip"
  shows "consistent srv (V(n \<mapsto> (ip, \<lambda>_. []))) ys T"
proof (rule consistent_update[OF assms(1)])
  fix n' c' assume "V n' = Some c'" "n' \<noteq> n"
  then show "served srv ys T c' \<and> ParseIP (fst c') \<noteq> ParseIP (fst (ip, \<lambda>_. [] :: target list))"
    using served_mono[OF consistentD(1)[OF assms(1)] assms(2) subset_refl] assms(5) by simp
qed (use assms in \<open>auto simp: served_def\<close>)

lemma consistent_delete:
  assumes "consistent srv V xs T" "V n = Some (ip, tg)" "link_laws (srv_nlHandle srv) as"
    and ys: "ys = filter (\<lambda>x. \<not> Addr_Equal (srv_nlHandle srv) (lb_addr srv ip) x) xs \<or> ys = xs"
  shows "consistent srv (V(n := None)) ys (tab_without (lb_services ip tg) T)"
proof -
  have s: "served srv xs T (ip, tg)" using consistentD(1)[OF assms(1,2)] .
  have other: "served srv ys (tab_without (lb_services ip tg) T) c'" if c': "V n' = Some c'" "n' \<noteq> n" for n' c'
  proof -
    have s': "served srv xs T c'" and ne: "ParseIP (fst c') \<noteq> ParseIP ip"
      using consistentD(1)[OF assms(1) c'(1)] consistentD(2)[OF assms(1) c'(1) assms(2) c'(2)] by simp_all
    have len: "length (ParseIP ip) = 16" "length (ParseIP (fst c')) = 16" using s s' by (auto simp: served_def)
    have "svc_of (fst c') p' a \<notin> lb_services ip tg" for p' a
      using svc_of_inj(1)[of "fst c'" p' a ip] ne len by (auto simp: lb_services_def)
    then have d: "dests (tab_without (lb_services ip tg) T) (svc_of (fst c') p' a) = dests T (svc_of (fst c') p' a)" for p' a
      by (simp add: dests_def tab_without_def)
    obtain x where x: "x \<in> set xs" "Addr_Equal (srv_nlHandle srv) (lb_addr srv (fst c')) x"
      using s' by (auto simp: served_def alias_up_def)
    have "\<not> Addr_Equal (srv_nlHandle srv) (lb_addr srv ip) x"
    proof
      assume "Addr_Equal (srv_nlHandle srv) (lb_addr srv ip) x"
      with x assms(3) have "IP_Equal (ParseIP ip) (net_IP x)" "IP_Equal (ParseIP (fst c')) (net_IP x)"
        by (simp_all add: link_laws_def lb_addr_def)
      with len ne show False by (auto simp: IP_Equal_def split: if_splits) (metis append_take_drop_id)
    qed
    then have "alias_up srv ys (fst c')" using x ys by (auto simp: alias_up_def)
    then show ?thesis using s' d by (simp add: served_def)
  qed
  show ?thesis
    using other consistentD(2)[OF assms(1)] unfolding consistent_def by (auto split: if_splits)
qed

section \<open>Steps\<close>

text \<open>
  A step is a call of the server, or a restart: link and IPVS table come back in any state and
  \<^verbatim>\<open>Restore\<close> runs. Callers ask for no address another load balancer has, and use real port numbers;
  a \<^verbatim>\<open>Delete\<close> is followed while it answers.
\<close>

inductive server_step ::
  "('l, 'v, 'd) lbServer \<Rightarrow> ('d \<Rightarrow> string \<Rightarrow> json option) \<Rightarrow> ('l, 'v, 'd) world \<Rightarrow> ('l, 'v, 'd) world \<Rightarrow> bool"
  for srv m where
  step_get: "GetLoadBalancer srv name w = (g, w') \<Longrightarrow> server_step srv m w w'"
| step_create: "Create srv clb w = (r, w') \<Longrightarrow>
    (\<And>ip n c. clb_IpAddr clb = Some ip \<Longrightarrow> ip \<noteq> [] \<Longrightarrow> lb_view (m (db_st w)) n = Some c \<Longrightarrow>
       ParseIP (fst c) \<noteq> ParseIP ip) \<Longrightarrow>
    server_step srv m w w'"
| step_add: "AddTarget srv atr w = (t, w') \<Longrightarrow> port_ok (req_SrcPort atr) \<Longrightarrow> server_step srv m w w'"
| step_del: "DelTarget srv dtr w = (t, w') \<Longrightarrow> server_step srv m w w'"
| step_delete: "Delete srv name w = (Ret e, w') \<Longrightarrow> server_step srv m w w'"
| step_restart: "Restore srv (w\<lparr>link_st := l, ipvs_st := v\<rparr>) = (Ret (), w') \<Longrightarrow> server_step srv m w w'"

inductive reachable ::
  "('l, 'v, 'd) lbServer \<Rightarrow> ('d \<Rightarrow> string \<Rightarrow> json option) \<Rightarrow> ('l, 'v, 'd) world \<Rightarrow> bool" for srv m where
  reach_start: "m (db_st w) = Map.empty \<Longrightarrow> reachable srv m w"
| reach_step: "reachable srv m w \<Longrightarrow> server_step srv m w w' \<Longrightarrow> reachable srv m w'"

inductive_cases server_stepE: "server_step srv m w w'"

text \<open>What the server is built from: externals that keep their contracts, a store that never fails.\<close>

definition server_env ::
  "('l, 'v, 'd) lbServer \<Rightarrow> ('v \<Rightarrow> ipvs_tab) \<Rightarrow> ('l \<Rightarrow> addr list) \<Rightarrow> ('d \<Rightarrow> string \<Rightarrow> json option) \<Rightarrow> simpleIpam \<Rightarrow> bool" where
  "server_env srv tbl as m s \<longleftrightarrow>
     ipvs_exact (srv_ipvsHandle srv) tbl \<and> link_laws (srv_nlHandle srv) as \<and> db_laws (srv_db srv) m \<and>
     puts_succeed (srv_db srv) \<and> gets_succeed (srv_db srv) m \<and> orders_ok srv \<and>
     srv_ipam srv = simple_ipam (srv_nlHandle srv) s \<and>
     ipam_ok s \<and> ends_below_max s \<and> To4 (From (allowedRange s)) \<noteq> []"

lemma server_envD:
  assumes "server_env srv tbl as m s"
  shows "ipvs_exact (srv_ipvsHandle srv) tbl" "ipvs_laws (srv_ipvsHandle srv) tbl"
    "link_laws (srv_nlHandle srv) as" "db_laws (srv_db srv) m" "puts_succeed (srv_db srv)" "orders_ok srv"
    "srv_ipam srv = simple_ipam (srv_nlHandle srv) s"
    "ipam_ok s" "ends_below_max s" "To4 (From (allowedRange s)) \<noteq> []" "gets_succeed (srv_db srv) m"
  using assms by (auto simp: server_env_def ipvs_exact_def)

section \<open>Every step keeps the invariant\<close>

abbreviation inv ::
  "('l, 'v, 'd) lbServer \<Rightarrow> ('v \<Rightarrow> ipvs_tab) \<Rightarrow> ('l \<Rightarrow> addr list) \<Rightarrow> ('d \<Rightarrow> string \<Rightarrow> json option) \<Rightarrow> ('l, 'v, 'd) world \<Rightarrow> bool" where
  "inv srv tbl as m w \<equiv> consistent srv (lb_view (m (db_st w))) (as (link_st w)) (tbl (ipvs_st w))"

lemma step_create_inv:
  assumes env: "server_env srv tbl as m s" and inv: "inv srv tbl as m w"
    and run: "Create srv clb w = (r, w')"
    and free: "\<And>ip n c. clb_IpAddr clb = Some ip \<Longrightarrow> ip \<noteq> [] \<Longrightarrow> lb_view (m (db_st w)) n = Some c \<Longrightarrow>
       ParseIP (fst c) \<noteq> ParseIP ip"
  shows "inv srv tbl as m w'"
  using server_envD(3,4)[OF env] run
proof (cases rule: Create_cases)
  case (created ip)
  have "ParseIP ip \<noteq> []"
    using created(4) IPNet_Contains_nil[of "cidr s"] server_envD(7,8)[OF env]
    by (auto simp: simple_ipam_def SimpleIpam_Contains_def ipam_ok_def)
  then have len: "length (ParseIP ip) = 16" using ParseIP_length by blast
  have "ParseIP (fst c') \<noteq> ParseIP ip" if c': "lb_view (m (db_st w)) n' = Some c'" for n' c'
  proof (cases "clb_IpAddr clb = None \<or> clb_IpAddr clb = Some []")
    case False
    then show ?thesis using created(2) free[OF _ _ c'] by (auto simp: chosen_ip_def)
  next
    case True
    then obtain a where a: "SimpleIpam_Allocate (srv_nlHandle srv) s (link_st w) = Ret a" "ip = IP_String a"
      using created(2) server_envD(7)[OF env] by (auto simp: chosen_ip_def outcome_simps simple_ipam_def)
    obtain x where x: "x \<in> set (as (link_st w))" "Addr_Equal (srv_nlHandle srv) (lb_addr srv (fst c')) x"
      using consistentD(1)[OF inv c'] by (auto simp: served_def alias_up_def)
    then have "IP_Equal (ParseIP (fst c')) (net_IP x)"
      using server_envD(3)[OF env] by (simp add: link_laws_def lb_addr_def)
    then show ?thesis
      using allocated_fresh[OF server_envD(3,8,9,10)[OF env] a(1) x(1)] a(2) IP_Equal_sym by auto
  qed
  note fresh = this
  have "set (as (link_st w)) \<subseteq> set (as (link_st w'))" using created(6) by auto
  from consistent_create[OF inv this created(5) len fresh] show ?thesis unfolding created(7,8) .
next
  case (failed e) then show ?thesis using consistent_mono[OF inv] by simp
next
  case stopped then show ?thesis using inv by simp
qed

lemma step_add_inv:
  assumes env: "server_env srv tbl as m s" and inv: "inv srv tbl as m w"
    and run: "AddTarget srv atr w = (r, w')" and port: "port_ok (req_SrcPort atr)"
  shows "inv srv tbl as m w'"
  using server_envD(2,4)[OF env] run
proof (cases rule: AddTarget_cases)
  case (added l t)
  then show ?thesis using consistent_add[OF inv, of "req_LbName atr" "lb_IpAddr l" "targets_at l" "req_SrcPort atr" t] port
    by (simp add: contents_def)
next
  case (refused e) then show ?thesis using consistent_mono[OF inv] by simp
next
  case (failed e)
  show ?thesis unfolding failed(2,4) by (rule consistent_mono[OF inv subset_refl failed(3)])
next
  case nil_target then show ?thesis using inv by simp
qed

lemma step_del_inv:
  assumes env: "server_env srv tbl as m s" and inv: "inv srv tbl as m w"
    and run: "DelTarget srv dtr w = (r, w')"
  shows "inv srv tbl as m w'"
  using server_envD(2,4)[OF env] run
proof (cases rule: DelTarget_cases)
  case (removed l t ts' k)
  then show ?thesis
    using consistent_del[OF inv, of "req_LbName dtr" "lb_IpAddr l" "targets_at l" t "req_SrcPort dtr" ts']
    by (simp add: contents_def)
qed (use inv server_envD(1,5)[OF env] in simp_all)

lemma step_delete_inv:
  assumes env: "server_env srv tbl as m s" and inv: "inv srv tbl as m w"
    and run: "Delete srv name w = (Ret e, w')"
  shows "inv srv tbl as m w'"
  using server_envD(1,3,4,6)[OF env] run
proof (cases rule: Delete_cases)
  case (deleted e' l)
  have "lb_view (m (db_st w')) = (lb_view (m (db_st w)))(name := None)"
    using deleted(3) by (auto simp: lb_view_def)
  then show ?thesis
    using consistent_delete[OF inv _ server_envD(3)[OF env], of name "lb_IpAddr l" "targets_at l" "as (link_st w')"] deleted
    by (auto simp: contents_def)
qed (use inv in simp_all)

lemma step_restart_inv:
  assumes env: "server_env srv tbl as m s" and inv: "inv srv tbl as m w"
    and run: "Restore srv (w\<lparr>link_st := l, ipvs_st := v\<rparr>) = (Ret (), w')"
  shows "inv srv tbl as m w'"
proof -
  have sel: "db_st (w\<lparr>link_st := l, ipvs_st := v\<rparr>) = db_st w" "ipvs_st (w\<lparr>link_st := l, ipvs_st := v\<rparr>) = v"
    by simp_all
  note R = Restore_effect[OF server_envD(1,3,4,6)[OF env] run, unfolded sel]
  have db: "db_st w' = db_st w"
    and up: "\<And>n ip tg. lb_view (m (db_st w)) n = Some (ip, tg) \<Longrightarrow> alias_up srv (as (link_st w')) ip"
    and ds: "\<And>k. dests (tbl (ipvs_st w')) k = dests (tbl v) k \<union>
        {d. \<exists>name ip tg. lb_view (m (db_st w)) name = Some (ip, tg) \<and> d \<in> lb_dests ip tg k}"
    using R by blast+
  have "served srv (as (link_st w')) (tbl (ipvs_st w')) c" if c: "lb_view (m (db_st w)) n = Some c" for n c
  proof -
    have "alias_up srv (as (link_st w')) (fst c)" using up[of n "fst c" "snd c"] c by simp
    moreover have "dst_of (fst c) t \<in> dests (tbl (ipvs_st w')) (svc_of (fst c) p (tgt_Protocol t))" if "t \<in> set (snd c p)" for p t
    proof -
      have "dst_of (fst c) t \<in> lb_dests (fst c) (snd c) (svc_of (fst c) p (tgt_Protocol t))" using that by (auto simp: lb_dests_def)
      then show ?thesis unfolding ds using c by (metis (mono_tags, lifting) UnCI mem_Collect_eq prod.collapse)
    qed
    ultimately show ?thesis using consistentD(1)[OF inv c] by (simp add: served_def)
  qed
  then show ?thesis using consistentD(2)[OF inv] unfolding consistent_def db by blast
qed

lemma step_inv:
  assumes "server_env srv tbl as m s" "inv srv tbl as m w" "server_step srv m w w'"
  shows "inv srv tbl as m w'"
  using assms(3)
proof cases
  case (step_get name g)
  then have "w' = w" by (auto simp: GetLoadBalancer_def split: outcome.splits)
  then show ?thesis using assms(2) by simp
qed (use assms step_create_inv step_add_inv step_del_inv step_delete_inv step_restart_inv in metis)+

lemma reachable_inv:
  assumes "server_env srv tbl as m s" "reachable srv m w"
  shows "inv srv tbl as m w"
  using assms(2)
proof induction
  case (reach_start w)
  then show ?case by (simp add: consistent_def lb_view_def)
next
  case (reach_step w w') then show ?case using step_inv[OF assms(1)] by blast
qed

section \<open>Properties\<close>



lemma demo_env: "server_env demo_srv mem_view (\<lambda>l. l) map_of dev_ipam"
proof -
  have "ends_below_max dev_ipam" "To4 (From (allowedRange dev_ipam)) \<noteq> []" by code_simp+
  moreover have "puts_succeed mem_db" by (simp add: puts_succeed_def mem_db_def)
  moreover have "gets_succeed mem_db map_of" by (simp add: gets_succeed_def mem_db_def)
  ultimately show ?thesis
    using demo_laws demo_orders ipam_New_ok[OF dev_ipam_New]
    by (simp add: server_env_def) (simp add: demo_srv_def)
qed

lemma demo_reachable: "reachable demo_srv map_of demo_w2"
proof -
  have "reachable demo_srv map_of demo_w0" by (rule reach_start) (simp add: demo_w0_def)
  then have "reachable demo_srv map_of demo_w1"
    by (rule reach_step[OF _ step_create[OF demo_create_run]]) (simp add: demo_create_def)
  then show ?thesis
    by (rule reach_step[OF _ step_add[OF demo_add_run]]) (simp add: demo_req_def port_ok_def)
qed

lemma demo_w2_view: "lb_view (map_of (db_st demo_w2)) ''web'' = Some (''192.168.87.200'', (\<lambda>_. [])(80 := [demo_target]))"
proof -
  have v1: "lb_view (map_of (db_st demo_w1)) ''web'' = Some (''192.168.87.200'', \<lambda>_. [])"
    using demo_laws(4,3) demo_create_run by (cases rule: Create_cases) (auto simp: demo_create_def fresh_lb_def)
  show ?thesis
    using demo_laws(2,3) demo_add_run
  proof (cases rule: AddTarget_cases)
    case (added l t)
    then have "contents l = (''192.168.87.200'', \<lambda>_. [])" using v1 by (simp add: demo_req_def)
    then have "lb_IpAddr l = ''192.168.87.200''" "targets_at l = (\<lambda>_. [])" by (simp_all add: contents_def)
    with added show ?thesis by (simp add: demo_req_def)
  qed (auto simp: no_error_def ErrSuccess_def)
qed



end
