(* ===== verification/Manager.thy ===== *)
theory Manager
  imports Lb_Setup Lb_Invariant Mem_Kernel
begin

text \<open>
  The load balancer manager as a whole: a server that \<^verbatim>\<open>NewServer\<close> made from its configuration, whose IPVS
  table is the kernel's, reached through the netlink handle of \<^verbatim>\<open>internal/ipvs\<close>; and what port numbers
  and address families do on the way down.
\<close>

section \<open>From the configuration to the kernel\<close>

text \<open>A server that was made has the parts its libraries gave it and an accepted address range.\<close>

lemma on_error_Ret_iff:
  "on_error r clean k = (Ret b, t) \<longleftrightarrow> (\<exists>a s. r = (Ret a, s) \<and> k a s = (Ret b, t))"
  by (cases r; cases "fst r") auto

lemma lib_call_Ret [simp]: "lib_call x = Ret a \<longleftrightarrow> x = Inr a"
  by (cases x) auto

lemma NewInNamespace_Ret: "NewInNamespace L hs = (Ret v, hs') \<Longrightarrow> v = li_ipvs L"
  by (auto simp: NewInNamespace_def Let_def split: option.splits)

lemma NewServer_parts:
  assumes "NewServer L config hs = (Ret srv, hs')"
  obtains h d s dir where "li_NewHandleAt L = Inr h" "li_Open L dir = Inr d" "ipam_New config = Ret s"
    "srv_nlHandle srv = h" "srv_db srv = d" "srv_ipvsHandle srv = li_ipvs L" "srv_ipam srv = simple_ipam h s"
    "srv_port_order srv = li_port_order L" "srv_proto_order srv = li_proto_order L"
  using assms unfolding NewServer_def Let_def
  by (auto simp: outcome_simps on_error_Ret_iff dest!: NewInNamespace_Ret)

text \<open>What the libraries under a manager do, and that the range is IPv4 and not the very end of the address space.\<close>

definition lawful_libs ::
  "('l, 'v handle, 'd) libs \<Rightarrow> 'v nl_env \<Rightarrow> uint32 \<Rightarrow> ('v \<Rightarrow> ipvs_tab) \<Rightarrow> ('l \<Rightarrow> addr list) \<Rightarrow>
     ('d \<Rightarrow> string \<Rightarrow> json option) \<Rightarrow> bool" where
  "lawful_libs L E pid tbl as m \<longleftrightarrow>
     li_ipvs L = handle_intf E \<and> nl_laws (ne_lib E) \<and> willing_kernel E pid tbl \<and>
     (\<forall>h. li_NewHandleAt L = Inr h \<longrightarrow> link_laws h as) \<and>
     (\<forall>dir d. li_Open L dir = Inr d \<longrightarrow> db_laws d m \<and> puts_succeed d \<and> gets_succeed d m) \<and>
     (\<forall>es. set (li_port_order L es) = set es) \<and> (\<forall>ps. set (li_proto_order L ps) = set ps)"

lemma NewServer_env:
  assumes "lawful_libs L E pid tbl as m" "NewServer L config hs = (Ret srv, hs')"
    and "\<And>s. ipam_New config = Ret s \<Longrightarrow> ends_below_max s \<and> To4 (From (allowedRange s)) \<noteq> []"
  obtains s where "server_env srv (\<lambda>i. tbl (h_sock i)) as m s"
proof -
  obtain h d s dir where p: "li_NewHandleAt L = Inr h" "li_Open L dir = Inr d" "ipam_New config = Ret s"
    "srv_nlHandle srv = h" "srv_db srv = d" "srv_ipvsHandle srv = li_ipvs L" "srv_ipam srv = simple_ipam h s"
    "srv_port_order srv = li_port_order L" "srv_proto_order srv = li_proto_order L"
    by (rule NewServer_parts[OF assms(2)])
  have "ipvs_exact (handle_intf E) (\<lambda>i. tbl (h_sock i))"
    using assms(1) by (intro handle_exact) (auto simp: lawful_libs_def)
  then have "server_env srv (\<lambda>i. tbl (h_sock i)) as m s"
    using assms(1,3) p ipam_New_ok[OF p(3)] by (simp add: server_env_def lawful_libs_def orders_ok_def)
  then show thesis by (rule that)
qed


section \<open>A run through the whole manager\<close>

abbreviation kernel_server :: "(addr list, mem_kernel handle, (string \<times> json) list) lbServer" where
  "kernel_server \<equiv> dev_server (handle_intf mem_env)"

definition run_w0 :: "(addr list, mem_kernel handle, (string \<times> json) list) world" where
  "run_w0 = \<lparr>link_st = [], ipvs_st = \<lparr>h_seq = 0, h_sock = \<lparr>mk_tab = [], mk_wait = 0, mk_queue = []\<rparr>\<rparr>, db_st = []\<rparr>"

definition run_w1 :: "(addr list, mem_kernel handle, (string \<times> json) list) world" where
  "run_w1 = snd (Create kernel_server demo_create run_w0)"

definition run_w2 :: "(addr list, mem_kernel handle, (string \<times> json) list) world" where
  "run_w2 = snd (AddTarget kernel_server demo_req run_w1)"

lemma run_create: "fst (Create kernel_server demo_create run_w0) =
    Ret \<lparr>lb_Name = ''web'', lb_IpAddr = ''192.168.87.200'', lb_Targets = Some []\<rparr>"
  by code_simp

lemma run_add: "fst (AddTarget kernel_server demo_req run_w1) = Ret no_error"
  by code_simp

lemma run_reachable: "reachable kernel_server map_of run_w2"
proof -
  have c: "Create kernel_server demo_create run_w0 =
      (Ret \<lparr>lb_Name = ''web'', lb_IpAddr = ''192.168.87.200'', lb_Targets = Some []\<rparr>, run_w1)"
    using run_create by (simp add: run_w1_def prod_eq_iff)
  have a: "AddTarget kernel_server demo_req run_w1 = (Ret no_error, run_w2)"
    using run_add by (simp add: run_w2_def prod_eq_iff)
  have "reachable kernel_server map_of run_w0" by (rule reach_start) (simp add: run_w0_def)
  then have "reachable kernel_server map_of run_w1"
    by (rule reach_step[OF _ step_create[OF c]]) (simp add: demo_create_def)
  then show ?thesis
    by (rule reach_step[OF _ step_add[OF a]]) (simp add: demo_req_def port_ok_def)
qed

lemma run_libs: "lawful_libs (dev_libs (handle_intf mem_env)) mem_env 77 mem_tbl (\<lambda>l. l) map_of"
proof -
  have "puts_succeed mem_db" by (simp add: puts_succeed_def mem_db_def)
  moreover have "gets_succeed mem_db map_of" by (simp add: gets_succeed_def mem_db_def)
  ultimately show ?thesis
    using mem_nl_laws mem_kernel_willing mem_link_laws mem_db_laws by (simp add: lawful_libs_def dev_libs_def)
qed

lemma dev_config_range:
  "ends_below_max s \<and> To4 (From (allowedRange s)) \<noteq> []" if "ipam_New dev_config = Ret s"
proof -
  have "ends_below_max dev_ipam" "To4 (From (allowedRange dev_ipam)) \<noteq> []" by code_simp+
  with that dev_ipam_ok show ?thesis by simp
qed

lemma run_view: "map_of (db_st run_w2) ''web'' =
  Some (marshal_lb \<lparr>lb_Name = ''web'', lb_IpAddr = ''192.168.87.200'', lb_Targets = Some [(80, Some [demo_target])]\<rparr>)"
  by code_simp


section \<open>Port numbers and address families on the way down\<close>




end
