(* ===== verification/Lb_Client.thy ===== *)
theory Lb_Client
  imports Lb_Invariant
begin

text \<open>
  The client side of the load balancer service (\<^verbatim>\<open>internal/loadbalancer/loadbalancer_grpc.pb.go\<close>): the
  record of its calls, and the client that is connected to a server of this development. What the
  transport does to errors is a parameter.
\<close>

text \<open>A call gives an error (and then no reply) or a reply that is not nil, as the generated client does.\<close>

record 's lb_client =
  cl_Get :: "string \<Rightarrow> 's \<Rightarrow> (go_error + lb_info) \<times> 's"
  cl_Create :: "create_req \<Rightarrow> 's \<Rightarrow> (go_error + lb_info) \<times> 's"
  cl_Delete :: "string \<Rightarrow> 's \<Rightarrow> (go_error + lb_error) \<times> 's"
  cl_AddTarget :: "target_req \<Rightarrow> 's \<Rightarrow> (go_error + lb_error) \<times> 's"
  cl_DelTarget :: "target_req \<Rightarrow> 's \<Rightarrow> (go_error + lb_error) \<times> 's"

text \<open>
  A reply travels as a protobuf message: a nil message arrives as the empty one, a nil list in a map as
  an empty list, an empty map as nil. A handler that does not return gives the caller an error.
\<close>

definition wire_lb :: "lb_info \<Rightarrow> lb_info" where
  "wire_lb l = l\<lparr>lb_Targets :=
     (if map_entries (lb_Targets l) = [] then None
      else Some (map (\<lambda>(p, ts). (p, Some (case ts of None \<Rightarrow> [] | Some xs \<Rightarrow> xs))) (map_entries (lb_Targets l))))\<rparr>"

definition wire_reply :: "lb_info option \<Rightarrow> lb_info" where
  "wire_reply r = (case r of None \<Rightarrow> empty_lb_info | Some l \<Rightarrow> wire_lb l)"

fun rpc :: "(go_error \<Rightarrow> go_error) \<Rightarrow> ('a \<Rightarrow> 'b) \<Rightarrow> (go_error, 'a) outcome \<times> 's \<Rightarrow> (go_error + 'b) \<times> 's" where
  "rpc status f (Ret a, s) = (Inr (f a), s)"
| "rpc status f (Err e, s) = (Inl (status e), s)"
| "rpc status f (Panic, s) = (Inl (status (ErrText ''unavailable'')), s)"
| "rpc status f (Stuck, s) = (Inl (status (ErrText ''deadline exceeded'')), s)"

definition server_client ::
  "(go_error \<Rightarrow> go_error) \<Rightarrow> ('l, 'v, 'd) lbServer \<Rightarrow> ('l, 'v, 'd) world lb_client" where
  "server_client status srv = \<lparr>
     cl_Get = (\<lambda>name w. rpc status wire_reply (GetLoadBalancer srv name w)),
     cl_Create = (\<lambda>req w. rpc status wire_lb (Create srv req w)),
     cl_Delete = (\<lambda>name w. rpc status (\<lambda>e. e) (Delete srv name w)),
     cl_AddTarget = (\<lambda>req w. rpc status (\<lambda>e. e) (AddTarget srv req w)),
     cl_DelTarget = (\<lambda>req w. rpc status (\<lambda>e. e) (DelTarget srv req w))\<rparr>"

lemma server_client_simps [simp]:
  "cl_Get (server_client st srv) n w = rpc st wire_reply (GetLoadBalancer srv n w)"
  "cl_Create (server_client st srv) c w = rpc st wire_lb (Create srv c w)"
  "cl_Delete (server_client st srv) n w = rpc st (\<lambda>e. e) (Delete srv n w)"
  "cl_AddTarget (server_client st srv) r w = rpc st (\<lambda>e. e) (AddTarget srv r w)"
  "cl_DelTarget (server_client st srv) r w = rpc st (\<lambda>e. e) (DelTarget srv r w)"
  by (simp_all add: server_client_def)

lemma rpc_cases:
  assumes "rpc st f (r, s) = (x, s')"
  shows "s' = s" "x = Inr y \<Longrightarrow> \<exists>a. r = Ret a \<and> y = f a"
  using assms by (cases r; auto)+

lemma contents_wire [simp]: "contents (wire_lb l) = contents l"
proof -
  have "map_of (map (\<lambda>(p, ts). (p, Some (case ts of None \<Rightarrow> [] | Some xs \<Rightarrow> xs))) es) p =
      map_option (\<lambda>ts. Some (case ts of None \<Rightarrow> [] | Some xs \<Rightarrow> xs)) (map_of es p)"
    for p and es :: "(int32 \<times> target_list) list"
    by (induction es) auto
  then show ?thesis
    by (auto simp: contents_def wire_lb_def targets_at_def map_get_def map_entries_def fun_eq_iff split: option.splits)
qed

section \<open>A deletion that must succeed\<close>

lemma getLB_stored:
  assumes "gets_succeed (srv_db srv) m" "db_laws (srv_db srv) m" "lb_view (m d) name = Some c"
  obtains l where "getLB srv name d = Ret l" "contents l = c"
proof -
  from assms(3) obtain raw l0 where raw: "m d name = Some raw" "unmarshal_lb raw = Ret l0" by (auto simp: lb_view_Some)
  then obtain l where l: "getLB srv name d = Ret l" using assms(1) by (auto simp: getLB_def gets_succeed_def)
  moreover have "contents l = c" using getLB_Ret(1)[OF assms(2) l] assms(3) by simp
  ultimately show thesis using that by blast
qed

text \<open>
  In a consistent state the server can always remove a stored target: the real server is in the table
  and the service with it.
\<close>

lemma DelTarget_stored:
  assumes env: "server_env srv tbl as m s" and inv: "inv srv tbl as m w"
    and st: "lb_view (m (db_st w)) n = Some (ip, tg)" "t \<in> set (tg p)"
  shows "fst (DelTarget srv \<lparr>req_LbName = n, req_SrcPort = p, req_Target = Some t\<rparr> w) = Ret no_error"
proof -
  let ?req = "\<lparr>req_LbName = n, req_SrcPort = p, req_Target = Some t\<rparr>"
  obtain l where l: "getLB srv n (db_st w) = Ret l" "contents l = (ip, tg)"
    using getLB_stored[OF server_envD(11,4)[OF env] st(1)] .
  have d: "dst_of ip t \<in> dests (tbl (ipvs_st w)) (svc_of ip p (tgt_Protocol t))"
    using consistentD(1)[OF inv st(1)] st(2) by (auto simp: served_def)
  let ?ip = "srv_ipvsHandle srv" and ?s = "toIPVSService l p (tgt_Protocol t)"
  let ?x = "toDestination (tgt_DstIP t) (tgt_DstPort t)"
  have tg: "targets_at l p = tg p" "lb_IpAddr l = ip" using l(2) by (auto simp: contents_def)
  then have get: "map_get (lb_Targets l) p = Some (Some (tg p))"
    using st(2) by (auto simp: targets_at_def split: option.splits)
  obtain i where i: "find_target (tg p) (Some t) = Ret (Some i)" "tg p ! i = t"
  proof -
    have "find_target (tg p) (Some t) = find_target (tg p) (Some t)" ..
    then show thesis using st(2) that by (cases rule: find_target_cases) auto
  qed
  obtain v1 where v1: "ipvs_DelDestination ?ip ?s ?x (ipvs_st w) = (Ret (), v1)" "tbl v1 (service_key ?s) \<noteq> None"
    using by_exact.remove_dest_present[OF server_envD(1)[OF env], where s = ?s and d = ?x and v = "ipvs_st w"] d tg(2) by auto
  have v2: "fst (ipvs_DelService ?ip ?s v1) = Ret ()"
    by (rule by_exact.remove_service_present[where tbl = tbl, OF server_envD(1)[OF env] v1(2)])
  have put: "fst (put_lb srv n x y) = Ret no_error" for x y
    using server_envD(5)[OF env] by (auto simp: put_lb_def puts_succeed_def split: prod.splits option.splits)
      (metis fst_conv option.distinct(1))
  obtain m' where m': "map_set (lb_Targets l) p (Some (take i (tg p) @ drop (Suc i) (tg p))) = (Ret m' :: (go_error, _) outcome)"
    using targets_after_set[OF getLB_Ret(3)[OF server_envD(4)[OF env] l(1)]] by metis
  obtain v3 where v3: "ipvs_DelService ?ip ?s v1 = (Ret (), v3)" using v2 by (metis prod.collapse)
  show ?thesis
    using v3 m' by (simp add: DelTarget_def with_lb_def l(1) get i v1(1) Let_def put split: prod.splits)
qed

end
