(* ===== verification/Ccm_LoadBalancer.thy ===== *)
theory Ccm_LoadBalancer
  imports Lb_Client
begin

text \<open>
  \<^verbatim>\<open>internal/proxmox/loadbalancer.go\<close>: the load balancer part of the cloud controller. It turns a
  Kubernetes service and its nodes into calls of the load balancer service. The gRPC client is a
  parameter, an \<open>lb_client\<close> (theory \<open>Lb_Client\<close>) over the state behind the connection.
\<close>

section \<open>Kubernetes objects\<close>

text \<open>The fields of \<^verbatim>\<open>v1.Service\<close>, \<^verbatim>\<open>v1.ServicePort\<close>, \<^verbatim>\<open>v1.Node\<close> and \<^verbatim>\<open>v1.PortStatus\<close> the code uses.\<close>

record service_port =
  sp_Port :: int32
  sp_NodePort :: int32
  sp_Protocol :: string

record k8s_service =
  sv_Namespace :: string
  sv_Name :: string
  sv_LoadBalancerIP :: string
  sv_Ports :: "service_port list"

record node_address =
  na_Type :: string
  na_Address :: string

type_synonym k8s_node = "node_address list"

record port_status =
  ps_Port :: int32
  ps_Protocol :: string
  ps_Error :: "string option"

text \<open>A status with one ingress.\<close>

record lb_status =
  ing_IP :: string
  ing_Ports :: "port_status list"

definition NodeInternalIP :: string where "NodeInternalIP = ''InternalIP''"
definition ProtocolTCP :: string where "ProtocolTCP = ''TCP''"
definition ProtocolUDP :: string where "ProtocolUDP = ''UDP''"

section \<open>Target keys\<close>

record targetKey =
  tk_IP :: string
  tk_DstPort :: int32
  tk_SrcPort :: int32
  tk_Protocol :: int32

definition targetKey_String :: "targetKey \<Rightarrow> string" where
  "targetKey_String t =
     ''('' @ print_int (sint (tk_Protocol t)) @ '') '' @ print_int (sint (tk_SrcPort t)) @ ''->'' @ tk_IP t @ '':'' @
     print_int (sint (tk_DstPort t))"

definition newTargetKey :: "target \<Rightarrow> int32 \<Rightarrow> targetKey" where
  "newTargetKey t srcPort =
     \<lparr>tk_IP = tgt_DstIP t, tk_DstPort = tgt_DstPort t, tk_SrcPort = srcPort, tk_Protocol = tgt_Protocol t\<rparr>"

definition toTarget :: "targetKey \<Rightarrow> target" where
  "toTarget k = \<lparr>tgt_Protocol = tk_Protocol k, tgt_DstIP = tk_IP k, tgt_DstPort = tk_DstPort k\<rparr>"

section \<open>The controller\<close>

text \<open>
  The controller: its client, the texts of errors, and the order in which Go visits the keys of the
  map of current mappings.
\<close>

record 's LoadBalancer =
  ccm_client :: "'s lb_client"
  ccm_texts :: texts
  ccm_key_order :: "targetKey list \<Rightarrow> targetKey list"

definition toLBProtocol :: "string \<Rightarrow> int32" where
  "toLBProtocol p = (if p = ProtocolTCP then Protocol_TCP else if p = ProtocolUDP then Protocol_UDP else -1)"

section \<open>Names\<close>

definition GetLoadBalancerName :: "string \<Rightarrow> k8s_service \<Rightarrow> string" where
  "GetLoadBalancerName clusterName sv = clusterName @ ''%'' @ sv_Namespace sv @ ''%'' @ sv_Name sv"

section \<open>GetLoadBalancer\<close>

fun port_statuses :: "lb_info \<Rightarrow> service_port list \<Rightarrow> (go_error, port_status list) outcome" where
  "port_statuses l [] = Ret []"
| "port_statuses l (p # ps) =
     obind (case map_get (lb_Targets l) (sp_Port p) of
              None \<Rightarrow> Ret True
            | Some None \<Rightarrow> Panic
            | Some (Some ts) \<Rightarrow> Ret (ts = []))
       (\<lambda>unmapped. obind (port_statuses l ps) (\<lambda>rest.
          Ret (\<lparr>ps_Port = sp_Port p, ps_Protocol = ''TCP'',
                ps_Error = Some (if unmapped then ''Port '' @ print_int (sint (sp_Port p)) @ '' is not mapped'' else [])\<rparr>
               # rest)))"

text \<open>The status, and whether the load balancer exists.\<close>

definition LoadBalancer_GetLoadBalancer ::
  "'s LoadBalancer \<Rightarrow> string \<Rightarrow> k8s_service \<Rightarrow> 's \<Rightarrow> (go_error, lb_status option \<times> bool) outcome \<times> 's" where
  "LoadBalancer_GetLoadBalancer p clusterName sv s =
     (case cl_Get (ccm_client p) (GetLoadBalancerName clusterName sv) s of
        (Inl e, s') \<Rightarrow> (Err e, s')
      | (Inr l, s') \<Rightarrow>
          if lb_Name l = [] then (Ret (None, False), s')
          else (obind (port_statuses l (sv_Ports sv)) (\<lambda>ps.
                  Ret (Some \<lparr>ing_IP = lb_IpAddr l, ing_Ports = ps\<rparr>, lb_IpAddr l \<noteq> [])), s'))"

section \<open>Mappings\<close>

text \<open>The keys of the stored targets; a nil target list is dereferenced.\<close>

fun current_mappings ::
  "(int32 \<times> target_list) list \<Rightarrow> (targetKey \<times> nat) list \<Rightarrow> (go_error, (targetKey \<times> nat) list) outcome" where
  "current_mappings [] cur = Ret cur"
| "current_mappings ((port, None) # es) cur = Panic"
| "current_mappings ((port, Some ts) # es) cur =
     current_mappings es
       (fold (\<lambda>i. AList.update (newTargetKey (ts ! i) port) i) [0..<length ts] cur)"

text \<open>The first internal address of a node, or the empty string.\<close>

definition internal_ip :: "k8s_node \<Rightarrow> string" where
  "internal_ip node =
     (case find (\<lambda>a. na_Type a = NodeInternalIP) node of None \<Rightarrow> [] | Some a \<Rightarrow> na_Address a)"

definition node_target :: "service_port \<Rightarrow> string \<Rightarrow> target" where
  "node_target port nodeIP =
     \<lparr>tgt_Protocol = toLBProtocol (sp_Protocol port), tgt_DstIP = nodeIP, tgt_DstPort = sp_NodePort port\<rparr>"

text \<open>The loop over the nodes for one port: missing mappings are added, present ones marked as handled.\<close>

fun map_nodes ::
  "'s LoadBalancer \<Rightarrow> string \<Rightarrow> service_port \<Rightarrow> k8s_node list \<Rightarrow> (targetKey \<times> nat) list \<Rightarrow> 's \<Rightarrow>
     port_status list \<times> (targetKey \<times> nat) list \<times> 's" where
  "map_nodes p lbName port [] cur s = ([], cur, s)"
| "map_nodes p lbName port (node # nodes) cur s =
     (let nodeIP = internal_ip node in
      if nodeIP = [] then map_nodes p lbName port nodes cur s
      else
        let tgt = node_target port nodeIP;
            key = newTargetKey tgt (sp_Port port);
            stat = \<lparr>ps_Port = sp_Port port, ps_Protocol = sp_Protocol port, ps_Error = None\<rparr>
        in if map_of cur key = None then
             (case cl_AddTarget (ccm_client p) \<lparr>req_LbName = lbName, req_SrcPort = sp_Port port, req_Target = Some tgt\<rparr> s of
                (r, s') \<Rightarrow>
                  let stat = (case r of
                                Inl e \<Rightarrow> stat\<lparr>ps_Error := Some (error_text (ccm_texts p) e)\<rparr>
                              | Inr code \<Rightarrow> if err_Code code \<noteq> ErrSuccess
                                             then stat\<lparr>ps_Error := Some (err_Message code)\<rparr> else stat)
                  in case map_nodes p lbName port nodes cur s' of (ps, cur', s'') \<Rightarrow> (stat # ps, cur', s''))
           else
             case map_nodes p lbName port nodes (AList.delete key cur) s of (ps, cur', s'') \<Rightarrow> (stat # ps, cur', s''))"

text \<open>The loop that removes what is left: the replies are only logged.\<close>

fun remove_rest :: "'s LoadBalancer \<Rightarrow> string \<Rightarrow> targetKey list \<Rightarrow> 's \<Rightarrow> 's" where
  "remove_rest p lbName [] s = s"
| "remove_rest p lbName (k # ks) s =
     remove_rest p lbName ks
       (snd (cl_DelTarget (ccm_client p) \<lparr>req_LbName = lbName, req_SrcPort = tk_SrcPort k, req_Target = Some (toTarget k)\<rparr> s))"

fun map_ports ::
  "'s LoadBalancer \<Rightarrow> string \<Rightarrow> service_port list \<Rightarrow> k8s_node list \<Rightarrow> (targetKey \<times> nat) list \<Rightarrow> 's \<Rightarrow>
     port_status list \<times> 's" where
  "map_ports p lbName [] nodes cur s = ([], s)"
| "map_ports p lbName (port # ports) nodes cur s =
     (if sint (toLBProtocol (sp_Protocol port)) < 0 then
        (case map_ports p lbName ports nodes cur s of (ps, s') \<Rightarrow>
           (\<lparr>ps_Port = sp_Port port, ps_Protocol = sp_Protocol port,
             ps_Error = Some (''unsupported protocol: '' @ sp_Protocol port)\<rparr> # ps, s'))
      else
        case map_nodes p lbName port nodes cur s of (ps, cur', s1) \<Rightarrow>
        let s2 = remove_rest p lbName (ccm_key_order p (map fst cur')) s1 in
        case map_ports p lbName ports nodes cur' s2 of (ps', s3) \<Rightarrow> (ps @ ps', s3))"

definition handleMappings ::
  "'s LoadBalancer \<Rightarrow> lb_info \<Rightarrow> k8s_service \<Rightarrow> k8s_node list \<Rightarrow> 's \<Rightarrow> (go_error, port_status list) outcome \<times> 's" where
  "handleMappings p lbinfo sv nodes s =
     (case current_mappings (map_entries (lb_Targets lbinfo)) [] of
        Ret cur \<Rightarrow> (case map_ports p (lb_Name lbinfo) (sv_Ports sv) nodes cur s of (ps, s') \<Rightarrow> (Ret ps, s'))
      | Err e \<Rightarrow> (Err e, s)
      | Panic \<Rightarrow> (Panic, s)
      | Stuck \<Rightarrow> (Stuck, s))"

section \<open>Ensure, update, delete\<close>

definition EnsureLoadBalancer ::
  "'s LoadBalancer \<Rightarrow> string \<Rightarrow> k8s_service \<Rightarrow> k8s_node list \<Rightarrow> 's \<Rightarrow> (go_error, lb_status) outcome \<times> 's" where
  "EnsureLoadBalancer p clusterName sv nodes s =
     (let name = GetLoadBalancerName clusterName sv;
          lbRequest = \<lparr>clb_Name = name, clb_IpAddr = (if sv_LoadBalancerIP sv \<noteq> [] then Some (sv_LoadBalancerIP sv) else None)\<rparr>
      in case cl_Get (ccm_client p) name s of (got, s1) \<Rightarrow>
         sbind (case got of
                  Inr l \<Rightarrow> if lb_Name l = [] then
                             (case cl_Create (ccm_client p) lbRequest s1 of
                                (Inl e, s2) \<Rightarrow> (Err e, s2) | (Inr l', s2) \<Rightarrow> (Ret l', s2))
                           else (Ret l, s1)
                | Inl _ \<Rightarrow>
                    (case cl_Create (ccm_client p) lbRequest s1 of
                       (Inl e, s2) \<Rightarrow> (Err e, s2) | (Inr l', s2) \<Rightarrow> (Ret l', s2)))
           (\<lambda>lbinfo s2. sbind (handleMappings p lbinfo sv nodes s2) (\<lambda>ports s3.
              (Ret \<lparr>ing_IP = lb_IpAddr lbinfo, ing_Ports = ports\<rparr>, s3))))"

text \<open>\<^verbatim>\<open>UpdateLoadBalancer\<close> looks at the name of the reply before the error: no reply is a nil dereference.\<close>

definition UpdateLoadBalancer ::
  "'s LoadBalancer \<Rightarrow> string \<Rightarrow> k8s_service \<Rightarrow> k8s_node list \<Rightarrow> 's \<Rightarrow> (go_error, unit) outcome \<times> 's" where
  "UpdateLoadBalancer p clusterName sv nodes s =
     (case cl_Get (ccm_client p) (GetLoadBalancerName clusterName sv) s of
        (Inl e, s1) \<Rightarrow> (Panic, s1)
      | (Inr l, s1) \<Rightarrow>
          if lb_Name l = [] then (Ret (), s1)
          else sbind (handleMappings p l sv nodes s1) (\<lambda>_ s2. (Ret (), s2)))"

definition EnsureLoadBalancerDeleted ::
  "'s LoadBalancer \<Rightarrow> string \<Rightarrow> k8s_service \<Rightarrow> 's \<Rightarrow> (go_error, unit) outcome \<times> 's" where
  "EnsureLoadBalancerDeleted p clusterName sv s =
     (let name = GetLoadBalancerName clusterName sv in
      case cl_Delete (ccm_client p) name s of
        (Inl e, s') \<Rightarrow> (Err e, s')
      | (Inr code, s') \<Rightarrow>
          if err_Code code \<noteq> ErrSuccess \<and> err_Code code \<noteq> ErrNoSuchLB then
            (Err (ErrText (''Failed to delete loadbalancer '' @ name @ '': ('' @ dec (unat (err_Code code)) @ '') '' @
               err_Message code)), s')
          else (Ret (), s'))"

end
