(* ===== verification/Ccm_Mappings.thy ===== *)
theory Ccm_Mappings
  imports Ccm_LoadBalancer
begin

text \<open>
  What \<^verbatim>\<open>handleMappings\<close> of \<^verbatim>\<open>internal/proxmox/loadbalancer.go\<close> asks of the load balancer service, as a
  plan of calls that does not depend on the replies, and what the calls achieve over a service that
  keeps the contract \<open>lb_backend\<close>, which the server's own handlers do.
\<close>

section \<open>The plan\<close>

datatype lb_call = CallAdd target_req | CallDel target_req

definition add_call :: "string \<Rightarrow> service_port \<Rightarrow> string \<Rightarrow> lb_call" where
  "add_call n port ip = CallAdd \<lparr>req_LbName = n, req_SrcPort = sp_Port port, req_Target = Some (node_target port ip)\<rparr>"

definition del_call :: "string \<Rightarrow> targetKey \<Rightarrow> lb_call" where
  "del_call n k = CallDel \<lparr>req_LbName = n, req_SrcPort = tk_SrcPort k, req_Target = Some (toTarget k)\<rparr>"

fun do_call :: "'s lb_client \<Rightarrow> lb_call \<Rightarrow> 's \<Rightarrow> 's" where
  "do_call cl (CallAdd r) s = snd (cl_AddTarget cl r s)"
| "do_call cl (CallDel r) s = snd (cl_DelTarget cl r s)"

definition node_ips :: "k8s_node list \<Rightarrow> string list" where
  "node_ips nodes = filter (\<lambda>a. a \<noteq> []) (map internal_ip nodes)"

definition node_key :: "service_port \<Rightarrow> string \<Rightarrow> targetKey" where
  "node_key port ip = newTargetKey (node_target port ip) (sp_Port port)"

definition supported :: "service_port \<Rightarrow> bool" where
  "supported port \<longleftrightarrow> sp_Protocol port = ProtocolTCP \<or> sp_Protocol port = ProtocolUDP"

fun plan_nodes :: "string \<Rightarrow> service_port \<Rightarrow> string list \<Rightarrow> targetKey list \<Rightarrow> lb_call list \<times> targetKey list" where
  "plan_nodes n port [] cur = ([], cur)"
| "plan_nodes n port (ip # ips) cur =
     (if node_key port ip \<in> set cur then plan_nodes n port ips (filter (\<lambda>k. k \<noteq> node_key port ip) cur)
      else case plan_nodes n port ips cur of (cs, cur') \<Rightarrow> (add_call n port ip # cs, cur'))"

fun plan_ports ::
  "(targetKey list \<Rightarrow> targetKey list) \<Rightarrow> string \<Rightarrow> service_port list \<Rightarrow> string list \<Rightarrow> targetKey list \<Rightarrow> lb_call list" where
  "plan_ports ord n [] ips cur = []"
| "plan_ports ord n (port # ports) ips cur =
     (if supported port then
        case plan_nodes n port ips cur of (cs, cur') \<Rightarrow>
          cs @ map (del_call n) (ord cur') @ plan_ports ord n ports ips cur'
      else plan_ports ord n ports ips cur)"

lemma supported_iff: "supported port \<longleftrightarrow> \<not> sint (toLBProtocol (sp_Protocol port)) < 0"
  by (auto simp: supported_def toLBProtocol_def Protocol_TCP_def Protocol_UDP_def ProtocolTCP_def ProtocolUDP_def)

lemma node_ips_Cons [simp]:
  "node_ips [] = []"
  "node_ips (nd # nodes) = (if internal_ip nd = [] then node_ips nodes else internal_ip nd # node_ips nodes)"
  by (simp_all add: node_ips_def)

lemma keys_delete [simp]: "map fst (AList.delete k xs) = filter (\<lambda>x. x \<noteq> k) (map fst xs)"
  by (induction xs) auto

lemma delete_keys_sub:
  "fst ` set (AList.delete k xs) \<subseteq> fst ` set xs" "fst ` set xs \<subseteq> insert k (fst ` set (AList.delete k xs))"
  by (induction xs) auto

text \<open>The state and the remaining keys after the node loop; the fold runs the calls in order.\<close>

lemma map_nodes_plan:
  "\<exists>ps. map_nodes p n port nodes cur s =
     (ps, snd (map_nodes p n port nodes cur s) ) \<and>
   map fst (fst (snd (map_nodes p n port nodes cur s))) = snd (plan_nodes n port (node_ips nodes) (map fst cur)) \<and>
   snd (snd (map_nodes p n port nodes cur s)) =
     fold (do_call (ccm_client p)) (fst (plan_nodes n port (node_ips nodes) (map fst cur))) s"
proof (induction nodes arbitrary: cur s)
  case (Cons nd nodes)
  let ?ip = "internal_ip nd"
  let ?key = "newTargetKey (node_target port ?ip) (sp_Port port)"
  have mem: "map_of cur ?key = None \<longleftrightarrow> node_key port ?ip \<notin> fst ` set cur"
    by (simp add: node_key_def map_of_eq_None_iff)
  show ?case
  proof (cases "?ip = [] \<or> node_key port ?ip \<in> fst ` set cur")
    case True
    then show ?thesis
      using mem Cons.IH[of cur s] Cons.IH[of "AList.delete ?key cur" s]
      by (auto simp: Let_def node_key_def split: prod.splits)
  next
    case False
    then show ?thesis
      using mem Cons.IH[of cur "snd (cl_AddTarget (ccm_client p)
          \<lparr>req_LbName = n, req_SrcPort = sp_Port port, req_Target = Some (node_target port ?ip)\<rparr> s)"]
      by (auto simp: Let_def add_call_def split: prod.splits)
  qed
qed simp

lemma remove_rest_plan: "remove_rest p n ks s = fold (do_call (ccm_client p)) (map (del_call n) ks) s"
  by (induction ks arbitrary: s) (auto simp: del_call_def)

lemma map_ports_plan:
  "snd (map_ports p n ports nodes cur s) =
     fold (do_call (ccm_client p)) (plan_ports (ccm_key_order p) n ports (node_ips nodes) (map fst cur)) s"
proof (induction ports arbitrary: cur s)
  case (Cons port ports)
  show ?case
  proof (cases "supported port")
    case False
    then show ?thesis using Cons.IH[of cur s] supported_iff[of port] by (auto split: prod.splits)
  next
    case True
    obtain ps cur' s1 where m: "map_nodes p n port nodes cur s = (ps, cur', s1)" by (metis prod_cases3)
    obtain cs ks where pl: "plan_nodes n port (node_ips nodes) (map fst cur) = (cs, ks)" by fastforce
    have "map fst cur' = ks" "s1 = fold (do_call (ccm_client p)) cs s"
      using map_nodes_plan[of p n port nodes cur s] m pl by auto
    then show ?thesis
      using True m pl supported_iff[of port] Cons.IH[of cur' "remove_rest p n (ccm_key_order p ks) s1"]
      by (auto simp: remove_rest_plan Let_def split: prod.splits)
  qed
qed simp

section \<open>Keys\<close>

lemma key_of_target [simp]:
  "toTarget (newTargetKey t p) = t" "tk_SrcPort (newTargetKey t p) = p"
  "newTargetKey (toTarget k) (tk_SrcPort k) = k"
  by (cases t; cases k; simp add: newTargetKey_def toTarget_def)+

lemma node_key_simps [simp]:
  "toTarget (node_key port ip) = node_target port ip" "tk_SrcPort (node_key port ip) = sp_Port port"
  "node_key port ip = node_key port ip' \<longleftrightarrow> ip = ip'"
  by (auto simp: node_key_def newTargetKey_def node_target_def toTarget_def)

definition stored_keys :: "(int32 \<Rightarrow> target list) \<Rightarrow> targetKey set" where
  "stored_keys tg = {newTargetKey t p | p t. t \<in> set (tg p)}"

lemma stored_keys_iff: "k \<in> stored_keys tg \<longleftrightarrow> toTarget k \<in> set (tg (tk_SrcPort k))"
  by (auto simp: stored_keys_def) (metis key_of_target(3))

lemma keys_update: "fst ` set (AList.update k v xs) = insert k (fst ` set xs)"
  by (induction xs) auto

lemma fold_update_keys:
  "fst ` set (fold (\<lambda>i. AList.update (f i) i) is cur) = fst ` set cur \<union> f ` set is"
  "distinct (map fst cur) \<Longrightarrow> distinct (map fst (fold (\<lambda>i. AList.update (f i) i) is cur))"
  by (induction "is" arbitrary: cur) (auto simp: keys_update distinct_update)

lemma current_mappings_keys:
  assumes "None \<notin> snd ` set es" "distinct (map fst cur)"
  shows "\<exists>cur'. current_mappings es cur = Ret cur' \<and> distinct (map fst cur') \<and>
     fst ` set cur' = fst ` set cur \<union> {newTargetKey t p | p ts t. (p, Some ts) \<in> set es \<and> t \<in> set ts}"
  using assms
proof (induction es arbitrary: cur)
  case (Cons e es)
  then obtain p ts where e: "e = (p, Some ts)" by (cases e; cases "snd e") auto
  let ?c = "fold (\<lambda>i. AList.update (newTargetKey (ts ! i) p) i) [0..<length ts] cur"
  have keys: "fst ` set ?c = fst ` set cur \<union> (\<lambda>t. newTargetKey t p) ` set ts"
  proof -
    have img: "(\<lambda>i. newTargetKey (ts ! i) p) ` set [0..<length ts] = (\<lambda>t. newTargetKey t p) ` set ts"
    proof -
      have "(\<lambda>i. newTargetKey (ts ! i) p) ` set [0..<length ts] =
          (\<lambda>t. newTargetKey t p) ` set (map ((!) ts) [0..<length ts])"
        by (simp only: list.set_map image_image)
      also have "map ((!) ts) [0..<length ts] = ts" by (rule map_nth)
      finally show ?thesis .
    qed
    show ?thesis by (rule fold_update_keys(1)[of "\<lambda>i. newTargetKey (ts ! i) p" "[0..<length ts]" cur, unfolded img])
  qed
  have "distinct (map fst ?c)" by (rule fold_update_keys(2)[OF Cons.prems(2)])
  then obtain cur' where "current_mappings es ?c = Ret cur'" "distinct (map fst cur')"
     "fst ` set cur' = fst ` set ?c \<union> {newTargetKey t p | p ts t. (p, Some ts) \<in> set es \<and> t \<in> set ts}"
    using Cons.IH[of ?c] Cons.prems(1) by auto
  then show ?case using keys by (intro exI[of _ cur']) (auto simp: e)
qed simp

definition no_nil_lists :: "lb_info \<Rightarrow> bool" where
  "no_nil_lists l \<longleftrightarrow> None \<notin> snd ` set (map_entries (lb_Targets l))"

lemma current_mappings_stored:
  assumes "wf_map (lb_Targets l)" "no_nil_lists l"
  obtains cur where "current_mappings (map_entries (lb_Targets l)) [] = Ret cur" "distinct (map fst cur)"
    "fst ` set cur = stored_keys (targets_at l)"
proof -
  have "{newTargetKey t p | p ts t. (p, Some ts) \<in> set (map_entries (lb_Targets l)) \<and> t \<in> set ts} =
      stored_keys (targets_at l)"
    by (auto simp: stored_keys_def targets_at_mem[OF assms(1)])
  then show thesis
    using current_mappings_keys[of "map_entries (lb_Targets l)" "[]"] assms(2) that by (auto simp: no_nil_lists_def)
qed

lemma plan_nodes_rest:
  "set (snd (plan_nodes n port ips cur)) = set cur - node_key port ` set ips"
proof (induction ips arbitrary: cur)
  case (Cons ip ips)
  show ?case
  proof (cases "node_key port ip \<in> set cur")
    case True then show ?thesis using Cons.IH[of "filter (\<lambda>k. k \<noteq> node_key port ip) cur"] by auto
  next
    case False
    obtain cs cur' where "plan_nodes n port ips cur = (cs, cur')" by fastforce
    then show ?thesis using False Cons.IH[of cur] by auto
  qed
qed simp

lemma plan_nodes_adds:
  "distinct ips \<Longrightarrow> fst (plan_nodes n port ips cur) =
     map (add_call n port) (filter (\<lambda>ip. node_key port ip \<notin> set cur) ips)"
proof (induction ips arbitrary: cur)
  case (Cons ip ips)
  have "filter (\<lambda>i. node_key port i \<notin> set cur \<or> i = ip) ips = filter (\<lambda>i. node_key port i \<notin> set cur) ips"
    using Cons.prems by (intro filter_cong) auto
  then show ?case
    using Cons.IH[of cur] Cons.IH[of "filter (\<lambda>k. k \<noteq> node_key port ip) cur"] Cons.prems
    by (auto split: prod.splits simp: disj_commute)
qed simp

text \<open>
  C15. The calls \<^verbatim>\<open>handleMappings\<close> makes do not depend on their replies: it runs a plan computed from the
  stored targets, the service's ports and the nodes' internal addresses alone, port by port: an
  \<^verbatim>\<open>AddTarget\<close> for each node whose mapping is not among the remaining keys, then a \<^verbatim>\<open>DelTarget\<close> for
  each key still remaining. It returns whatever the replies are.
\<close>

theorem handleMappings_runs_plan:
  assumes "wf_map (lb_Targets l)" "no_nil_lists l"
  shows "\<exists>ps cur. distinct cur \<and> set cur = stored_keys (targets_at l) \<and>
     handleMappings p l sv nodes s =
       (Ret ps, fold (do_call (ccm_client p))
          (plan_ports (ccm_key_order p) (lb_Name l) (sv_Ports sv) (node_ips nodes) cur) s)"
proof -
  obtain cur where cur: "current_mappings (map_entries (lb_Targets l)) [] = Ret cur" "distinct (map fst cur)"
    "fst ` set cur = stored_keys (targets_at l)" using current_mappings_stored[OF assms] by metis
  show ?thesis
    using cur map_ports_plan[of p "lb_Name l" "sv_Ports sv" nodes cur s]
    by (intro exI[of _ "fst (map_ports p (lb_Name l) (sv_Ports sv) nodes cur s)"] exI[of _ "map fst cur"])
      (auto simp: handleMappings_def split: prod.splits)
qed

section \<open>Services with several ports\<close>

lemma plan_keeps_mapping:
  assumes "distinct ips" "distinct (map sp_Port ports)" "k \<in> set cur"
    and "\<And>ks. set (ord ks) = set ks"
  shows "CallAdd \<lparr>req_LbName = n, req_SrcPort = tk_SrcPort k, req_Target = Some (toTarget k)\<rparr>
           \<notin> set (plan_ports ord n ports ips cur)"
  using assms(2,3)
proof (induction ports arbitrary: cur)
  case (Cons port ports)
  obtain cs cur' where pl: "plan_nodes n port ips cur = (cs, cur')" by fastforce
  let ?add = "CallAdd \<lparr>req_LbName = n, req_SrcPort = tk_SrcPort k, req_Target = Some (toTarget k)\<rparr>"
  have cs: "?add \<notin> set cs"
  proof
    assume "?add \<in> set cs"
    then obtain ip where "node_key port ip \<notin> set cur" "add_call n port ip = ?add"
      using plan_nodes_adds[OF assms(1), of n port cur] pl by auto
    then show False using Cons.prems(2) by (auto simp: add_call_def) (metis key_of_target(3) node_key_simps(1,2))
  qed
  have dels: "?add \<notin> set (map (del_call n) (ord cur'))" by (auto simp: del_call_def)
  have "?add \<notin> set (plan_ports ord n ports ips cur')"
  proof (cases "k \<in> set cur'")
    case True then show ?thesis using Cons by auto
  next
    case False
    then have "tk_SrcPort k = sp_Port port"
      using plan_nodes_rest[of n port ips cur] pl Cons.prems(2) by auto
    then have "\<forall>q \<in> set ports. sp_Port q \<noteq> tk_SrcPort k" using Cons.prems(1) by (auto simp: image_iff)
    then show ?thesis
    proof (induction ports arbitrary: cur')
      case (Cons q qs)
      obtain cs2 cur2 where pl2: "plan_nodes n q ips cur' = (cs2, cur2)" by fastforce
      have "?add \<notin> set cs2" using plan_nodes_adds[OF assms(1), of n q cur'] pl2 Cons.prems by (auto simp: add_call_def)
      then show ?case using Cons pl2 by (auto simp: del_call_def)
    qed simp
  qed
  then show ?case using cs dels pl Cons by auto
qed simp

text \<open>
  For a service with several ports, a mapping of a later port that exists and is still wanted is
  removed while the first port is handled and not added again: the plan holds its \<^verbatim>\<open>DelTarget\<close> and no
  \<^verbatim>\<open>AddTarget\<close> for it. The loop that removes what is left sits inside the loop over the ports, where
  the mappings of later ports are still among the remaining keys.
\<close>

lemma later_ports_are_unmapped:
  assumes "supported first" "distinct (map sp_Port (first # rest))" "distinct ips"
    and "port \<in> set rest" "node_key port ip \<in> set cur"
    and "\<And>ks. set (ord ks) = set ks"
  shows "del_call n (node_key port ip) \<in> set (plan_ports ord n (first # rest) ips cur) \<and>
     add_call n port ip \<notin> set (plan_ports ord n (first # rest) ips cur)"
proof
  obtain cs cur' where pl: "plan_nodes n first ips cur = (cs, cur')" by fastforce
  have "sp_Port port \<noteq> sp_Port first" using assms(2,4) by (auto simp: image_iff)
  then have "node_key port ip \<in> set cur'"
    using plan_nodes_rest[of n first ips cur] pl assms(5) by (auto dest: arg_cong[where f = tk_SrcPort])
  then show "del_call n (node_key port ip) \<in> set (plan_ports ord n (first # rest) ips cur)"
    using assms(1,6) pl by auto
  show "add_call n port ip \<notin> set (plan_ports ord n (first # rest) ips cur)"
    using plan_keeps_mapping[OF assms(3,2,5,6)] by (simp add: add_call_def)
qed

end
