(* ===== verification/Ccm_Backend.thy ===== *)
theory Ccm_Backend
  imports Ccm_Mappings
begin

text \<open>
  What the calls of \<^verbatim>\<open>handleMappings\<close> achieve. The locale \<open>lb_backend\<close> is what the controller relies on
  in the load balancer service; it is interpreted on the handlers of the server, through the client
  of \<open>Lb_Client\<close>, in the states the server can reach.
\<close>

definition accepted :: "go_error + lb_error \<Rightarrow> bool" where
  "accepted r = (case r of Inl _ \<Rightarrow> False | Inr e \<Rightarrow> err_Code e = ErrSuccess)"

definition wanted :: "service_port \<Rightarrow> k8s_node list \<Rightarrow> target set" where
  "wanted port nodes = node_target port ` set (node_ips nodes)"

locale lb_backend =
  fixes cl :: "'s lb_client"
    and view :: "'s \<Rightarrow> string \<Rightarrow> lb_contents option"
    and good :: "'s \<Rightarrow> bool"
  assumes add_law: "\<lbrakk>good s; port_ok p; cl_AddTarget cl \<lparr>req_LbName = n, req_SrcPort = p, req_Target = Some t\<rparr> s = (r, s')\<rbrakk>
      \<Longrightarrow> good s' \<and> (if accepted r
            then \<exists>ip tg. view s n = Some (ip, tg) \<and> view s' = (view s)(n \<mapsto> (ip, tg(p := tg p @ [t])))
            else view s' = view s)"
    and del_law: "\<lbrakk>good s; view s n = Some (ip, tg);
        cl_DelTarget cl \<lparr>req_LbName = n, req_SrcPort = p, req_Target = Some t\<rparr> s = (r, s')\<rbrakk>
      \<Longrightarrow> good s' \<and> view s' = (view s)(n \<mapsto> (ip, tg(p := remove1 t (tg p))))"
    and distinct_law: "\<lbrakk>good s; view s n = Some (ip, tg)\<rbrakk> \<Longrightarrow> distinct (tg p)"
begin

text \<open>The loop over the nodes adds wanted targets only, keeps all others, and adds all it reports no error for.\<close>

lemma map_nodes_view:
  assumes "ccm_client c = cl" "port_ok (sp_Port port)"
  shows "good s \<Longrightarrow> view s n = Some (ip, tg) \<Longrightarrow> map_nodes c n port nodes cur s = (ps, cur', s') \<Longrightarrow>
    good s' \<and> (\<exists>ts. view s' = (view s)(n \<mapsto> (ip, tg(sp_Port port := ts))) \<and>
      set (tg (sp_Port port)) \<subseteq> set ts \<and> set ts \<subseteq> set (tg (sp_Port port)) \<union> wanted port nodes \<and>
      ((\<forall>x \<in> set ps. ps_Error x = None) \<longrightarrow>
         (\<forall>a \<in> set (node_ips nodes). node_key port a \<notin> fst ` set cur \<longrightarrow> node_target port a \<in> set ts)))"
proof (induction nodes arbitrary: cur s tg ps cur' s')
  case Nil
  have "view s = (view s)(n \<mapsto> (ip, tg(sp_Port port := tg (sp_Port port))))"
    using Nil.prems(2) by (simp add: fun_upd_idem)
  with Nil show ?case by (intro conjI exI[of _ "tg (sp_Port port)"]) simp_all
next
  case (Cons nd nodes)
  let ?P = "sp_Port port" and ?ip = "internal_ip nd"
  let ?key = "newTargetKey (node_target port ?ip) ?P"
  have key: "?key = node_key port ?ip" by (simp add: node_key_def)
  have mem: "map_of cur ?key = None \<longleftrightarrow> node_key port ?ip \<notin> fst ` set cur"
    by (simp add: key map_of_eq_None_iff)
  have more: "wanted port nodes \<subseteq> wanted port (nd # nodes)" by (auto simp: wanted_def)
  show ?case
  proof (cases "?ip = [] \<or> node_key port ?ip \<in> fst ` set cur")
    case True
    define cur1 where "cur1 = (if ?ip = [] then cur else AList.delete ?key cur)"
    obtain ps1 where run: "map_nodes c n port nodes cur1 s = (ps1, cur', s')" "set ps1 \<subseteq> set ps"
    proof (cases "?ip = []")
      case True
      then show thesis using Cons.prems(3) that[of ps] by (simp add: cur1_def)
    next
      case False
      then have "map_of cur ?key \<noteq> None" using True mem by blast
      then obtain stat x1 where "map_nodes c n port nodes (AList.delete ?key cur) s = (x1, cur', s')" "ps = stat # x1"
        using False Cons.prems(3) by (auto simp: Let_def split: prod.splits)
      then show thesis using False by (intro that[of x1]) (auto simp: cur1_def)
    qed
    have sub: "fst ` set cur1 \<subseteq> fst ` set cur" "fst ` set cur \<subseteq> fst ` set cur1 \<union> (if ?ip = [] then {} else {node_key port ?ip})"
      using delete_keys_sub[where k = ?key and xs = cur] by (auto simp: cur1_def key)
    have ips: "set (node_ips (nd # nodes)) = set (node_ips nodes) \<union> (if ?ip = [] then {} else {?ip})" by auto
    have kin: "?ip \<noteq> [] \<Longrightarrow> node_key port ?ip \<in> fst ` set cur" using True by simp
    from Cons.IH[OF Cons.prems(1,2) run(1)] obtain ts where
      ts: "good s'" "view s' = (view s)(n \<mapsto> (ip, tg(?P := ts)))" "set (tg ?P) \<subseteq> set ts"
        "set ts \<subseteq> set (tg ?P) \<union> wanted port nodes"
        "(\<forall>x \<in> set ps1. ps_Error x = None) \<longrightarrow>
           (\<forall>a \<in> set (node_ips nodes). node_key port a \<notin> fst ` set cur1 \<longrightarrow> node_target port a \<in> set ts)" by blast
    show ?thesis
    proof (intro conjI exI[of _ ts] ts(1-3) impI ballI)
      show "set ts \<subseteq> set (tg ?P) \<union> wanted port (nd # nodes)" using ts(4) more by blast
      fix a assume "\<forall>x \<in> set ps. ps_Error x = None" "a \<in> set (node_ips (nd # nodes))" "node_key port a \<notin> fst ` set cur"
      then have "a \<in> set (node_ips nodes)" "node_key port a \<notin> fst ` set cur1" "\<forall>x \<in> set ps1. ps_Error x = None"
        using run(2) sub(1) ips kin by (auto simp: image_iff split: if_splits)
      then show "node_target port a \<in> set ts" using ts(5) by blast
    qed
  next
    case False
    obtain r s1 where add: "cl_AddTarget cl \<lparr>req_LbName = n, req_SrcPort = ?P, req_Target = Some (node_target port ?ip)\<rparr> s = (r, s1)"
      by fastforce
    obtain stat ps1 where run: "map_nodes c n port nodes cur s1 = (ps1, cur', s')" "ps = stat # ps1"
      "ps_Error stat = None \<Longrightarrow> accepted r"
      using False Cons.prems(3) mem add assms(1)
      by (auto simp: Let_def accepted_def split: prod.splits sum.splits if_splits)
    define tg1 where "tg1 = (if accepted r then tg(?P := tg ?P @ [node_target port ?ip]) else tg)"
    have v1: "good s1" "view s1 = (view s)(n \<mapsto> (ip, tg1))"
      using add_law[OF Cons.prems(1) assms(2) add] Cons.prems(2) by (auto simp: tg1_def fun_upd_idem split: if_splits)
    have "view s1 n = Some (ip, tg1)" unfolding v1(2) by simp
    from Cons.IH[OF v1(1) this run(1)] obtain ts where
      ts: "good s'" "view s' = (view s1)(n \<mapsto> (ip, tg1(?P := ts)))" "set (tg1 ?P) \<subseteq> set ts"
        "set ts \<subseteq> set (tg1 ?P) \<union> wanted port nodes"
        "(\<forall>x \<in> set ps1. ps_Error x = None) \<longrightarrow>
           (\<forall>a \<in> set (node_ips nodes). node_key port a \<notin> fst ` set cur \<longrightarrow> node_target port a \<in> set ts)" by blast
    have tin: "node_target port ?ip \<in> wanted port (nd # nodes)" using False by (auto simp: wanted_def)
    show ?thesis
    proof (intro conjI exI[of _ ts] ts(1) impI ballI)
      show "view s' = (view s)(n \<mapsto> (ip, tg(?P := ts)))" using ts(2) v1(2) by (simp add: tg1_def)
      show "set (tg ?P) \<subseteq> set ts" using ts(3) by (auto simp: tg1_def split: if_splits)
      show "set ts \<subseteq> set (tg ?P) \<union> wanted port (nd # nodes)"
        using ts(4) more tin by (auto simp: tg1_def split: if_splits)
      fix a assume a: "\<forall>x \<in> set ps. ps_Error x = None" "a \<in> set (node_ips (nd # nodes))" "node_key port a \<notin> fst ` set cur"
      show "node_target port a \<in> set ts"
      proof (cases "a = ?ip")
        case True
        then show ?thesis using ts(3) run a(1) by (simp add: tg1_def)
      next
        case False
        then show ?thesis using ts(5) run(2) a by (auto split: if_splits)
      qed
    qed
  qed
qed

lemma remove_rest_view:
  assumes "ccm_client c = cl"
  shows "good s \<Longrightarrow> view s n = Some (ip, tg) \<Longrightarrow>
    good (remove_rest c n ks s) \<and> (\<exists>tg'. view (remove_rest c n ks s) = (view s)(n \<mapsto> (ip, tg')) \<and>
      (\<forall>p. set (tg' p) = set (tg p) - {toTarget k | k. k \<in> set ks \<and> tk_SrcPort k = p}))"
proof (induction ks arbitrary: s tg)
  case Nil
  have "view s = (view s)(n \<mapsto> (ip, tg))" using Nil.prems(2) by (simp add: fun_upd_idem)
  with Nil show ?case by (intro conjI exI[of _ tg]) simp_all
next
  case (Cons k ks)
  let ?p = "tk_SrcPort k" and ?t = "toTarget k"
  obtain r s1 where del: "cl_DelTarget cl \<lparr>req_LbName = n, req_SrcPort = ?p, req_Target = Some ?t\<rparr> s = (r, s1)" by fastforce
  let ?tg1 = "tg(?p := remove1 ?t (tg ?p))"
  have v1: "good s1" "view s1 = (view s)(n \<mapsto> (ip, ?tg1))" using del_law[OF Cons.prems del] by auto
  have rest: "remove_rest c n (k # ks) s = remove_rest c n ks s1" using del assms by simp
  obtain tg' where tg': "good (remove_rest c n ks s1)" "view (remove_rest c n ks s1) = (view s1)(n \<mapsto> (ip, tg'))"
      "\<forall>p. set (tg' p) = set (?tg1 p) - {toTarget k | k. k \<in> set ks \<and> tk_SrcPort k = p}"
  proof -
    have "view s1 n = Some (ip, ?tg1)" unfolding v1(2) by simp
    from Cons.IH[OF v1(1) this] that show thesis by blast
  qed
  have "set (remove1 ?t (tg ?p)) = set (tg ?p) - {?t}"
    by (rule set_remove1_eq[OF distinct_law[OF Cons.prems]])
  then have "\<forall>p. set (tg' p) = set (tg p) - {toTarget x | x. x \<in> set (k # ks) \<and> tk_SrcPort x = p}"
    using tg'(3) by auto
  moreover have "view (remove_rest c n (k # ks) s) = (view s)(n \<mapsto> (ip, tg'))"
    unfolding rest tg'(2) v1(2) by simp
  ultimately show ?case using tg'(1) unfolding rest by blast
qed

end

section \<open>The server keeps the contract\<close>

text \<open>States the server can reach, with the invariant at hand.\<close>

definition live ::
  "('l, 'v, 'd) lbServer \<Rightarrow> ('v \<Rightarrow> ipvs_tab) \<Rightarrow> ('l \<Rightarrow> addr list) \<Rightarrow> ('d \<Rightarrow> string \<Rightarrow> json option) \<Rightarrow> simpleIpam \<Rightarrow>
     ('l, 'v, 'd) world \<Rightarrow> bool" where
  "live srv tbl as m s w \<longleftrightarrow> server_env srv tbl as m s \<and> reachable srv m w"

lemma live_add:
  assumes "live srv tbl as m s w" "port_ok p"
    and "rpc st (\<lambda>e. e) (AddTarget srv \<lparr>req_LbName = n, req_SrcPort = p, req_Target = Some t\<rparr> w) = (r, w')"
  shows "live srv tbl as m s w' \<and> (if accepted r
    then \<exists>ip tg. lb_view (m (db_st w)) n = Some (ip, tg) \<and>
      lb_view (m (db_st w')) = (lb_view (m (db_st w)))(n \<mapsto> (ip, tg(p := tg p @ [t])))
    else lb_view (m (db_st w')) = lb_view (m (db_st w)))"
proof
  have env: "server_env srv tbl as m s" using assms(1) by (simp add: live_def)
  let ?req = "\<lparr>req_LbName = n, req_SrcPort = p, req_Target = Some t\<rparr>"
  obtain x w1 where run: "AddTarget srv ?req w = (x, w1)" by fastforce
  have w1: "w1 = w'" using rpc_cases(1) assms(3) run by metis
  have "server_step srv m w w'" using step_add[OF run] assms(2) w1 by simp
  then show "live srv tbl as m s w'" using assms(1) by (auto simp: live_def intro: reach_step)
  show "if accepted r
    then \<exists>ip tg. lb_view (m (db_st w)) n = Some (ip, tg) \<and>
      lb_view (m (db_st w')) = (lb_view (m (db_st w)))(n \<mapsto> (ip, tg(p := tg p @ [t])))
    else lb_view (m (db_st w')) = lb_view (m (db_st w))"
    using server_envD(2,4)[OF env] run
  proof (cases rule: AddTarget_cases)
    case (added l u)
    then show ?thesis using assms(3) run w1
      by (auto simp: accepted_def contents_def no_error_def ErrSuccess_def)
  qed (use assms(3) run w1 in \<open>auto simp: accepted_def\<close>)
qed

lemma live_del:
  assumes "live srv tbl as m s w" "lb_view (m (db_st w)) n = Some (ip, tg)"
    and "rpc st (\<lambda>e. e) (DelTarget srv \<lparr>req_LbName = n, req_SrcPort = p, req_Target = Some t\<rparr> w) = (r, w')"
  shows "live srv tbl as m s w' \<and> lb_view (m (db_st w')) = (lb_view (m (db_st w)))(n \<mapsto> (ip, tg(p := remove1 t (tg p))))"
proof
  have env: "server_env srv tbl as m s" and inv: "inv srv tbl as m w"
    using assms(1) reachable_inv by (auto simp: live_def)
  let ?req = "\<lparr>req_LbName = n, req_SrcPort = p, req_Target = Some t\<rparr>"
  obtain x w1 where run: "DelTarget srv ?req w = (x, w1)" by fastforce
  have w1: "w1 = w'" using rpc_cases(1) assms(3) run by metis
  show "live srv tbl as m s w'"
    using assms(1) step_del[OF run] w1 by (auto simp: live_def intro: reach_step)
  show "lb_view (m (db_st w')) = (lb_view (m (db_st w)))(n \<mapsto> (ip, tg(p := remove1 t (tg p))))"
  proof (cases "t \<in> set (tg p)")
    case True
    have "x = Ret no_error" using DelTarget_stored[OF env inv assms(2) True] run by simp
    with server_envD(2,4)[OF env] run show ?thesis
    proof (cases rule: DelTarget_cases)
      case (removed l u ts' k)
      then have "contents l = (ip, tg)" using assms(2) by simp
      with removed w1 show ?thesis by (simp add: contents_def)
    qed (auto simp: no_error_def error_codes)
  next
    case False
    from server_envD(2,4)[OF env] run have "lb_view (m (db_st w')) = lb_view (m (db_st w))"
    proof (cases rule: DelTarget_cases)
      case (removed l u ts' k)
      then have "contents l = (ip, tg)" "u = t" using assms(2) by simp_all
      with removed False show ?thesis by (simp add: contents_def)
    qed (use w1 in auto)
    then show ?thesis using False assms(2) by (simp add: remove1_idem fun_upd_idem)
  qed
qed

lemma live_distinct:
  assumes "live srv tbl as m s w" "lb_view (m (db_st w)) n = Some (ip, tg)"
  shows "distinct (tg p)"
proof -
  have "served srv (as (link_st w)) (tbl (ipvs_st w)) (ip, tg)"
    using consistentD(1)[OF reachable_inv[of srv tbl as m s w] assms(2)] assms(1) unfolding live_def by blast
  then have "distinct (map (slot_of ip p) (tg p))" by (simp add: served_def)
  then show ?thesis by (simp add: distinct_map)
qed

interpretation backend: lb_backend "server_client st srv" "\<lambda>w. lb_view (m (db_st w))" "live srv tbl as m s"
  for st srv tbl as m s
proof
  show "live srv tbl as m s w \<Longrightarrow> port_ok p \<Longrightarrow>
      cl_AddTarget (server_client st srv) \<lparr>req_LbName = n, req_SrcPort = p, req_Target = Some t\<rparr> w = (r, w') \<Longrightarrow>
      live srv tbl as m s w' \<and> (if accepted r
        then \<exists>ip tg. lb_view (m (db_st w)) n = Some (ip, tg) \<and>
          lb_view (m (db_st w')) = (lb_view (m (db_st w)))(n \<mapsto> (ip, tg(p := tg p @ [t])))
        else lb_view (m (db_st w')) = lb_view (m (db_st w)))" for w p n t r w'
    by (simp only: server_client_simps) (rule live_add)
  show "live srv tbl as m s w \<Longrightarrow> lb_view (m (db_st w)) n = Some (ip, tg) \<Longrightarrow>
      cl_DelTarget (server_client st srv) \<lparr>req_LbName = n, req_SrcPort = p, req_Target = Some t\<rparr> w = (r, w') \<Longrightarrow>
      live srv tbl as m s w' \<and> lb_view (m (db_st w')) = (lb_view (m (db_st w)))(n \<mapsto> (ip, tg(p := remove1 t (tg p))))"
    for w n ip tg p t r w'
    by (simp only: server_client_simps) (rule live_del)
qed (rule live_distinct)

section \<open>Properties\<close>

lemma order_set: "(\<And>ks. set (ord ks) = set ks) \<Longrightarrow> ord [] = []"
  by (metis set_empty)

lemma single_port_run:
  assumes live: "server_env srv tbl as m s" "reachable srv m w"
    and client: "ccm_client c = server_client st srv" "\<And>ks. set (ccm_key_order c ks) = set ks"
    and sv: "sv_Ports sv = [port]" "supported port" "port_ok (sp_Port port)"
    and lb: "wf_map (lb_Targets l)" "no_nil_lists l" "lb_view (m (db_st w)) (lb_Name l) = Some (contents l)"
    and run: "handleMappings c l sv nodes w = (Ret ps, w')"
  shows "live srv tbl as m s w' \<and> (\<exists>tg. lb_view (m (db_st w')) = (lb_view (m (db_st w)))(lb_Name l \<mapsto> (lb_IpAddr l, tg)) \<and>
     set (targets_at l (sp_Port port)) \<inter> wanted port nodes \<subseteq> set (tg (sp_Port port)) \<and>
     set (tg (sp_Port port)) \<subseteq> wanted port nodes \<and> (\<forall>q. q \<noteq> sp_Port port \<longrightarrow> tg q = []) \<and>
     ((\<forall>x \<in> set ps. ps_Error x = None) \<longrightarrow> set (tg (sp_Port port)) = wanted port nodes))"
proof -
  let ?P = "sp_Port port" and ?n = "lb_Name l" and ?t0 = "targets_at l"
  have good: "live srv tbl as m s w" using live by (simp add: live_def)
  have view: "lb_view (m (db_st w)) ?n = Some (lb_IpAddr l, ?t0)" using lb(3) by (simp add: contents_def)
  obtain cur where cur: "current_mappings (map_entries (lb_Targets l)) [] = Ret cur"
    "fst ` set cur = stored_keys ?t0" using current_mappings_stored[OF lb(1,2)] by metis
  obtain cur' s1 where mn: "map_nodes c ?n port nodes cur w = (ps, cur', s1)"
    and w': "w' = remove_rest c ?n (ccm_key_order c (map fst cur')) s1"
    using run cur(1) sv(1,2) supported_iff[of port]
    by (auto simp: handleMappings_def Let_def split: prod.splits)
  from backend.map_nodes_view[OF client(1) sv(3) good view mn] obtain ts where
    ts: "live srv tbl as m s s1" "lb_view (m (db_st s1)) = (lb_view (m (db_st w)))(?n \<mapsto> (lb_IpAddr l, ?t0(?P := ts)))"
      "set (?t0 ?P) \<subseteq> set ts" "set ts \<subseteq> set (?t0 ?P) \<union> wanted port nodes"
      "(\<forall>x \<in> set ps. ps_Error x = None) \<longrightarrow> (\<forall>a \<in> set (node_ips nodes). node_key port a \<notin> fst ` set cur \<longrightarrow> node_target port a \<in> set ts)"
    by blast
  have view1: "lb_view (m (db_st s1)) ?n = Some (lb_IpAddr l, ?t0(?P := ts))" unfolding ts(2) by simp
  let ?ks = "ccm_key_order c (map fst cur')"
  from backend.remove_rest_view[OF client(1) ts(1) view1, of ?ks] obtain tg where
    alive: "live srv tbl as m s w'" and tg: "lb_view (m (db_st w')) = (lb_view (m (db_st s1)))(?n \<mapsto> (lb_IpAddr l, tg))"
      "\<And>p. set (tg p) = set ((?t0(?P := ts)) p) - {toTarget k | k. k \<in> set ?ks \<and> tk_SrcPort k = p}"
    unfolding w' by blast
  have ks: "set ?ks = stored_keys ?t0 - node_key port ` set (node_ips nodes)"
    using map_nodes_plan[of c ?n port nodes cur w] plan_nodes_rest[of ?n port "node_ips nodes" "map fst cur"]
      mn cur(2) client(2) by auto
  have key_in: "newTargetKey t p \<in> stored_keys ?t0 \<longleftrightarrow> t \<in> set (?t0 p)" for t p
    by (simp add: stored_keys_iff)
  have key_want: "newTargetKey t ?P \<in> node_key port ` set (node_ips nodes) \<longleftrightarrow> t \<in> wanted port nodes" for t
    by (auto simp: wanted_def image_iff node_key_def) (metis key_of_target(1))
  have removed: "t \<in> {toTarget k | k. k \<in> set ?ks \<and> tk_SrcPort k = p} \<longleftrightarrow> newTargetKey t p \<in> set ?ks" for t p
    by (auto intro!: exI[of _ "newTargetKey t p"])
  have other: "tg q = []" if "q \<noteq> ?P" for q
  proof -
    have "newTargetKey t q \<notin> node_key port ` set (node_ips nodes)" for t
      using that by (auto dest: arg_cong[where f = tk_SrcPort])
    then have "set (tg q) = {}" unfolding tg(2) using removed key_in that ks by auto
    then show ?thesis by simp
  qed
  have P: "set (tg ?P) = {t \<in> set ts. t \<notin> set (?t0 ?P) \<or> t \<in> wanted port nodes}"
    unfolding tg(2) using removed[of _ ?P] key_in[of _ ?P] key_want ks by auto
  have all: "set (tg ?P) = wanted port nodes" if ok: "\<forall>x \<in> set ps. ps_Error x = None"
  proof -
    have "t \<in> set ts" if t: "t \<in> wanted port nodes" for t
    proof -
      obtain a where a: "a \<in> set (node_ips nodes)" "t = node_target port a" using t by (auto simp: wanted_def)
      show ?thesis
      proof (cases "node_key port a \<in> fst ` set cur")
        case True
        then have "t \<in> set (?t0 ?P)" using a(2) cur(2) by (simp add: stored_keys_iff)
        then show ?thesis using ts(3) by blast
      next
        case False then show ?thesis using ts(5) ok a by blast
      qed
    qed
    then show ?thesis using P ts(4) by auto
  qed
  show ?thesis
    using alive tg(1) ts(2,3,4) P other all by (intro conjI[OF alive] exI[of _ tg]) auto
qed

text \<open>
  C9. For a service with one port of a supported protocol, \<^verbatim>\<open>handleMappings\<close> over the load balancer
  server, in any state the server can reach, keeps every existing mapping to a current node, leaves no
  mapping that is not to a current node, on any port, and touches no other load balancer. When the
  statuses it returns show no error, the mappings are exactly those to the current nodes.
\<close>

theorem single_port_converges:
  assumes live: "server_env srv tbl as m s" "reachable srv m w"
    and client: "ccm_client c = server_client st srv" "\<And>ks. set (ccm_key_order c ks) = set ks"
    and sv: "sv_Ports sv = [port]" "supported port" "port_ok (sp_Port port)"
    and lb: "wf_map (lb_Targets l)" "no_nil_lists l" "lb_view (m (db_st w)) (lb_Name l) = Some (contents l)"
    and run: "handleMappings c l sv nodes w = (Ret ps, w')"
  shows "\<exists>tg. lb_view (m (db_st w')) = (lb_view (m (db_st w)))(lb_Name l \<mapsto> (lb_IpAddr l, tg)) \<and>
     set (targets_at l (sp_Port port)) \<inter> wanted port nodes \<subseteq> set (tg (sp_Port port)) \<and>
     set (tg (sp_Port port)) \<subseteq> wanted port nodes \<and> (\<forall>q. q \<noteq> sp_Port port \<longrightarrow> tg q = []) \<and>
     ((\<forall>x \<in> set ps. ps_Error x = None) \<longrightarrow> set (tg (sp_Port port)) = wanted port nodes)"
  using single_port_run[OF assms] by (rule conjunct2)

text \<open>A controller on the demonstration server.\<close>

definition demo_ccm :: "demo_world LoadBalancer" where
  "demo_ccm = \<lparr>ccm_client = server_client (\<lambda>e. e) demo_srv, ccm_texts = demo_texts, ccm_key_order = (\<lambda>ks. ks)\<rparr>"

definition demo_node :: "string \<Rightarrow> k8s_node" where
  "demo_node a = [\<lparr>na_Type = ''Hostname'', na_Address = ''n1''\<rparr>, \<lparr>na_Type = ''InternalIP'', na_Address = a\<rparr>]"

definition demo_service :: "service_port list \<Rightarrow> k8s_service" where
  "demo_service ps = \<lparr>sv_Namespace = ''default'', sv_Name = ''web'', sv_LoadBalancerIP = [], sv_Ports = ps\<rparr>"

definition demo_port :: service_port where
  "demo_port = \<lparr>sp_Port = 80, sp_NodePort = 30080, sp_Protocol = ''TCP''\<rparr>"

definition demo_info :: lb_info where
  "demo_info = \<lparr>lb_Name = ''web'', lb_IpAddr = ''192.168.87.200'', lb_Targets = Some [(80, Some [demo_target])]\<rparr>"

lemma demo_info_facts:
  "wf_map (lb_Targets demo_info)" "no_nil_lists demo_info"
  "lb_view (map_of (db_st demo_w2)) (lb_Name demo_info) = Some (contents demo_info)"
proof -
  show "wf_map (lb_Targets demo_info)" "no_nil_lists demo_info"
    by (simp_all add: demo_info_def wf_map_def no_nil_lists_def map_entries_def)
  have "contents demo_info = (''192.168.87.200'', (\<lambda>_. [])(80 := [demo_target]))"
    by (auto simp: demo_info_def contents_def targets_at_def map_get_def map_entries_def fun_eq_iff)
  then show "lb_view (map_of (db_st demo_w2)) (lb_Name demo_info) = Some (contents demo_info)"
    using demo_w2_view by (simp add: demo_info_def)
qed

theorem single_port_converges_witness:
  "\<exists>tg. lb_view (map_of (db_st (snd (handleMappings demo_ccm demo_info (demo_service [demo_port]) [demo_node ''192.168.50.4''] demo_w2)))) ''web''
       = Some (''192.168.87.200'', tg) \<and>
     set (tg 80) = {\<lparr>tgt_Protocol = Protocol_TCP, tgt_DstIP = ''192.168.50.4'', tgt_DstPort = 30080\<rparr>}"
proof -
  let ?sv = "demo_service [demo_port]" and ?nodes = "[demo_node ''192.168.50.4'']"
  let ?st = "\<lparr>ps_Port = 80, ps_Protocol = ''TCP'', ps_Error = None\<rparr>"
  have run: "handleMappings demo_ccm demo_info ?sv ?nodes demo_w2 =
      (Ret [?st], snd (handleMappings demo_ccm demo_info ?sv ?nodes demo_w2))" by code_simp
  have c: "ccm_client demo_ccm = server_client (\<lambda>e. e) demo_srv" "\<And>ks. set (ccm_key_order demo_ccm ks) = set ks"
    by (simp_all add: demo_ccm_def)
  have p: "sv_Ports ?sv = [demo_port]" "supported demo_port" "port_ok (sp_Port demo_port)"
    by (simp_all add: demo_service_def demo_port_def supported_def ProtocolTCP_def port_ok_def)
  have w: "wanted demo_port ?nodes = {\<lparr>tgt_Protocol = Protocol_TCP, tgt_DstIP = ''192.168.50.4'', tgt_DstPort = 30080\<rparr>}"
    by code_simp
  from single_port_converges [OF demo_env demo_reachable c p demo_info_facts run] w
  show ?thesis by (auto simp: demo_info_def demo_port_def)
qed

text \<open>
  Once the mappings are the wanted ones, a service with one port causes no calls at all: the plan is
  empty, so repeating \<^verbatim>\<open>EnsureLoadBalancer\<close> or \<^verbatim>\<open>UpdateLoadBalancer\<close> leaves the server alone.
\<close>

lemma converged_makes_no_calls:
  assumes "supported port" "distinct ips" "set cur = node_key port ` set ips" "\<And>ks. set (ord ks) = set ks"
  shows "plan_ports ord n [port] ips cur = []"
proof -
  obtain cs cur' where pl: "plan_nodes n port ips cur = (cs, cur')" by fastforce
  have "set cur' = {}" using plan_nodes_rest[of n port ips cur] pl assms(3) by simp
  moreover have "cs = []" using plan_nodes_adds[OF assms(2), of n port cur] pl assms(3) by (simp add: filter_empty_conv)
  ultimately show ?thesis using pl assms(1) order_set[of ord] assms(4) by simp
qed

theorem converged_makes_no_calls_witness:
  "plan_ports (\<lambda>ks. ks) ''web'' [demo_port] [''192.168.50.3'', ''192.168.50.4'']
     [node_key demo_port ''192.168.50.4'', node_key demo_port ''192.168.50.3''] = []"
  by (rule converged_makes_no_calls) (auto simp: demo_port_def supported_def ProtocolTCP_def)

definition demo_port2 :: service_port where
  "demo_port2 = \<lparr>sp_Port = 443, sp_NodePort = 30443, sp_Protocol = ''TCP''\<rparr>"

definition demo_ensure :: "demo_world \<Rightarrow> (go_error, lb_status) outcome \<times> demo_world" where
  "demo_ensure w = EnsureLoadBalancer demo_ccm ''kube'' (demo_service [demo_port, demo_port2]) [demo_node ''192.168.50.3''] w"

text \<open>The store and the IPVS table with a target on each of the given ports.\<close>

definition demo_synced :: "(int32 \<times> int32) list \<Rightarrow> demo_world" where
  "demo_synced ps = \<lparr>
     link_st = [\<lparr>net_IP = v4InV6Prefix @ [192, 168, 87, 200], net_Mask = [255, 255, 255, 0]\<rparr>],
     ipvs_st = map (\<lambda>(p, np). (Addr_Key AF_INET IPPROTO_TCP [192, 168, 87, 200] (ucast p),
       [([192, 168, 50, 3], ucast np)])) ps,
     db_st = [(''kube%default%web'', marshal_lb \<lparr>lb_Name = ''kube%default%web'', lb_IpAddr = ''192.168.87.200'',
       lb_Targets = Some (map (\<lambda>(p, np). (p, Some [\<lparr>tgt_Protocol = 0, tgt_DstIP = ''192.168.50.3'', tgt_DstPort = np\<rparr>])) ps)\<rparr>)]\<rparr>"

definition demo_reported :: lb_status where
  "demo_reported = \<lparr>ing_IP = ''192.168.87.200'', ing_Ports =
     [\<lparr>ps_Port = 80, ps_Protocol = ''TCP'', ps_Error = None\<rparr>, \<lparr>ps_Port = 443, ps_Protocol = ''TCP'', ps_Error = None\<rparr>]\<rparr>"

lemma demo_first_sync: "demo_ensure demo_w0 = (Ret demo_reported, demo_synced [(80, 30080), (443, 30443)])"
  by code_simp

lemma demo_second_sync:
  "demo_ensure (demo_synced [(80, 30080), (443, 30443)]) = (Ret demo_reported, demo_synced [(80, 30080)])"
  by code_simp


theorem handleMappings_runs_plan_witness:
  "\<exists>ps cur. set cur = stored_keys (targets_at demo_info) \<and>
     handleMappings demo_ccm demo_info (demo_service [demo_port]) [] demo_w2 =
       (Ret ps, fold (do_call (ccm_client demo_ccm))
          (plan_ports (ccm_key_order demo_ccm) (lb_Name demo_info) (sv_Ports (demo_service [demo_port])) (node_ips []) cur) demo_w2)"
proof -
  from handleMappings_runs_plan [OF demo_info_facts(1,2), of demo_ccm "demo_service [demo_port]" "[]" demo_w2]
  obtain ps cur where "set cur = stored_keys (targets_at demo_info)"
    "handleMappings demo_ccm demo_info (demo_service [demo_port]) [] demo_w2 =
       (Ret ps, fold (do_call (ccm_client demo_ccm))
          (plan_ports (ccm_key_order demo_ccm) (lb_Name demo_info) (sv_Ports (demo_service [demo_port])) (node_ips []) cur) demo_w2)"
    by (elim exE conjE)
  then show ?thesis by (intro exI conjI)
qed

theorem later_ports_are_unmapped_witness:
  "del_call ''web'' (node_key demo_port2 ''192.168.50.3'') \<in>
     set (plan_ports (\<lambda>ks. ks) ''web'' [demo_port, demo_port2] [''192.168.50.3'']
       [node_key demo_port ''192.168.50.3'', node_key demo_port2 ''192.168.50.3''])"
proof -
  have a: "supported demo_port" "distinct (map sp_Port [demo_port, demo_port2])" "distinct [''192.168.50.3'']"
    "demo_port2 \<in> set [demo_port2]"
    "node_key demo_port2 ''192.168.50.3'' \<in> set [node_key demo_port ''192.168.50.3'', node_key demo_port2 ''192.168.50.3'']"
    by (simp_all add: demo_port_def demo_port2_def supported_def ProtocolTCP_def)
  show ?thesis using later_ports_are_unmapped [OF a, of "\<lambda>ks. ks" "''web''"] by simp
qed

end
