(* ===== verification/Ccm_Service.thy ===== *)
theory Ccm_Service
  imports Ccm_Backend
begin

text \<open>
  The rest of what \<^verbatim>\<open>internal/proxmox/loadbalancer.go\<close> promises: the names it gives load balancers, what
  it reports of one, and deletion.
\<close>

section \<open>Names\<close>

lemma split_at_last:
  assumes "xs @ a # ys = xs' @ a # ys'" "a \<notin> set ys" "a \<notin> set ys'"
  shows "xs = xs' \<and> ys = ys'"
proof -
  from assms(1) have "(\<exists>us. xs = xs' @ us \<and> us @ a # ys = a # ys') \<or> (\<exists>us. xs @ us = xs' \<and> a # ys = us @ a # ys')"
    by (auto simp: append_eq_append_conv2)
  then show ?thesis
  proof (elim disjE exE conjE)
    fix us assume "xs = xs' @ us" "us @ a # ys = a # ys'"
    with assms(2,3) show ?thesis by (cases us) auto
  next
    fix us assume "xs @ us = xs'" "a # ys = us @ a # ys'"
    with assms(2,3) show ?thesis by (cases us) auto
  qed
qed

text \<open>
  Load balancer names do not clash: two services whose namespaces and names hold no percent sign
  (Kubernetes allows none) get the same load balancer name only if cluster, namespace and name agree.
\<close>

lemma names_do_not_clash:
  assumes "GetLoadBalancerName c a = GetLoadBalancerName c' b"
    and "CHR ''%'' \<notin> set (sv_Namespace a @ sv_Name a)" "CHR ''%'' \<notin> set (sv_Namespace b @ sv_Name b)"
  shows "c = c' \<and> sv_Namespace a = sv_Namespace b \<and> sv_Name a = sv_Name b"
proof -
  have "(c @ ''%'' @ sv_Namespace a) @ CHR ''%'' # sv_Name a = (c' @ ''%'' @ sv_Namespace b) @ CHR ''%'' # sv_Name b"
    using assms(1) by (simp add: GetLoadBalancerName_def)
  from split_at_last[OF this] assms(2,3)
  have "c @ CHR ''%'' # sv_Namespace a = c' @ CHR ''%'' # sv_Namespace b" "sv_Name a = sv_Name b" by auto
  with split_at_last[OF this(1)] assms(2,3) show ?thesis by auto
qed

theorem names_do_not_clash_witness:
  "GetLoadBalancerName ''kube'' (demo_service []) = ''kube%default%web'' \<and>
   sv_Name (demo_service []) = sv_Name (demo_service [demo_port])"
proof -
  have eq: "GetLoadBalancerName ''kube'' (demo_service ps) = ''kube%default%web''" for ps
    by (simp add: GetLoadBalancerName_def demo_service_def)
  have "CHR ''%'' \<notin> set (sv_Namespace (demo_service ps) @ sv_Name (demo_service ps))" for ps
    by (simp add: demo_service_def)
  with names_do_not_clash [of "''kube''" "demo_service []" "''kube''" "demo_service [demo_port]"] eq show ?thesis by simp
qed

section \<open>Deletion\<close>

lemma Delete_answers:
  assumes env: "server_env srv tbl as m s" and run: "Delete srv name w = (Ret e, w')"
  shows "m (db_st w') = (m (db_st w))(name := None)"
  using server_envD(1,3,4,6)[OF env] run
proof (cases rule: Delete_cases)
  case (missing e')
  then show ?thesis using server_envD(11)[OF env] by (simp add: fun_upd_idem)
qed auto

lemma Delete_missing:
  assumes env: "server_env srv tbl as m s" and none: "m (db_st w) name = None"
  shows "Delete srv name w = (Ret \<lparr>err_Code = ErrNoSuchLB, err_Message = ''no such loadbalancer '' @ name\<rparr>, w)"
  using server_envD(11)[OF env] none by (simp add: Delete_def with_lb_def getLB_def gets_succeed_def)

text \<open>
  C34. Deletion converges: whatever error code the server's \<^verbatim>\<open>Delete\<close> answers with, the load balancer of
  the service is no longer stored and no other is changed, and calling \<^verbatim>\<open>EnsureLoadBalancerDeleted\<close>
  again, or for the first time on a load balancer that is not there, succeeds and changes nothing.
\<close>

theorem delete_converges:
  assumes "server_env srv tbl as m s" "ccm_client c = server_client st srv"
    and "Delete srv (GetLoadBalancerName cluster sv) w = (Ret e, w')"
  shows "m (db_st w') = (m (db_st w))(GetLoadBalancerName cluster sv := None) \<and>
     EnsureLoadBalancerDeleted c cluster sv w' = (Ret (), w')"
proof
  let ?n = "GetLoadBalancerName cluster sv"
  show db: "m (db_st w') = (m (db_st w))(?n := None)" by (rule Delete_answers[OF assms(1,3)])
  have "Delete srv ?n w' = (Ret \<lparr>err_Code = ErrNoSuchLB, err_Message = ''no such loadbalancer '' @ ?n\<rparr>, w')"
    by (rule Delete_missing[OF assms(1)]) (simp add: db)
  then show "EnsureLoadBalancerDeleted c cluster sv w' = (Ret (), w')"
    by (simp add: EnsureLoadBalancerDeleted_def assms(2) Let_def)
qed

theorem delete_converges_witness:
  "EnsureLoadBalancerDeleted demo_ccm ''kube'' (demo_service []) demo_w2 = (Ret (), demo_w2)"
proof -
  have "Delete demo_srv (GetLoadBalancerName ''kube'' (demo_service [])) demo_w2 =
      (Ret \<lparr>err_Code = ErrNoSuchLB, err_Message = ''no such loadbalancer '' @ ''kube%default%web''\<rparr>, demo_w2)"
    by code_simp
  from delete_converges [OF demo_env _ this] show ?thesis by (simp add: demo_ccm_def)
qed

section \<open>What is reported\<close>

text \<open>
  Over the server, \<^verbatim>\<open>GetLoadBalancer\<close> reports a load balancer exactly when one with a name is stored
  under the service's name, with the stored address; each port of the service has a status, whose error
  text is empty exactly when the stored load balancer has targets on that port. It changes nothing.
\<close>

lemma GetLoadBalancer_reports:
  assumes "server_env srv tbl as m s" "ccm_client c = server_client st srv"
    and "m (db_st w) (GetLoadBalancerName cluster sv) = Some (marshal_lb l)" "wf_map (lb_Targets l)" "lb_Name l \<noteq> []"
  shows "LoadBalancer_GetLoadBalancer c cluster sv w = (Ret (Some \<lparr>ing_IP = lb_IpAddr l, ing_Ports =
      map (\<lambda>p. \<lparr>ps_Port = sp_Port p, ps_Protocol = ''TCP'',
        ps_Error = Some (if targets_at l (sp_Port p) = [] then ''Port '' @ print_int (sint (sp_Port p)) @ '' is not mapped'' else [])\<rparr>)
       (sv_Ports sv)\<rparr>, lb_IpAddr l \<noteq> []), w)"
proof -
  let ?n = "GetLoadBalancerName cluster sv"
  define l1 where "l1 = (let x = stored_form l in if lb_Targets x = None then x\<lparr>lb_Targets := Some []\<rparr> else x)"
  have get: "getLB srv ?n (db_st w) = Ret l1"
    using server_envD(11)[OF assms(1)] assms(3) unmarshal_marshal_text[OF assms(4)]
    by (simp add: getLB_def gets_succeed_def l1_def Let_def)
  have l1: "contents l1 = contents l" "lb_Name l1 = lb_Name l"
    using contents_stored_form[of l]
    by (auto simp: l1_def Let_def contents_def stored_form_def targets_at_def map_get_def map_entries_def fun_eq_iff)
  let ?x = "wire_lb l1"
  have x: "contents ?x = contents l" "lb_Name ?x = lb_Name l"
    using l1 contents_wire[of l1] by (simp, simp add: wire_lb_def)
  have full: "map_get (lb_Targets ?x) q \<noteq> Some None" for q
    by (auto simp: wire_lb_def map_get_def map_entries_def dest!: map_of_SomeD)
  have step: "(case map_get (lb_Targets ?x) q of None \<Rightarrow> Ret True | Some None \<Rightarrow> Panic | Some (Some ts) \<Rightarrow> Ret (ts = []))
      = (Ret (targets_at l q = []) :: (go_error, bool) outcome)" for q
  proof -
    have tq: "targets_at l q = targets_at ?x q" using x(1) by (simp add: contents_def)
    show ?thesis unfolding tq using full[of q] by (auto simp: targets_at_def split: option.splits)
  qed
  have "port_statuses ?x ps = Ret (map (\<lambda>p. \<lparr>ps_Port = sp_Port p, ps_Protocol = ''TCP'',
        ps_Error = Some (if targets_at l (sp_Port p) = [] then ''Port '' @ print_int (sint (sp_Port p)) @ '' is not mapped'' else [])\<rparr>) ps)"
    for ps by (induction ps) (simp_all add: step)
  moreover have "lb_IpAddr ?x = lb_IpAddr l" using x(1) by (simp add: contents_def)
  ultimately show ?thesis
    using get x(2) assms(5)
    by (simp add: LoadBalancer_GetLoadBalancer_def assms(2) Lb_Server.GetLoadBalancer_def wire_reply_def)
qed

theorem GetLoadBalancer_reports_witness:
  "LoadBalancer_GetLoadBalancer demo_ccm ''kube'' (demo_service [demo_port2]) (demo_synced [(80, 30080)]) =
     (Ret (Some \<lparr>ing_IP = ''192.168.87.200'', ing_Ports =
        [\<lparr>ps_Port = 443, ps_Protocol = ''TCP'', ps_Error = Some ''Port 443 is not mapped''\<rparr>]\<rparr>, True), demo_synced [(80, 30080)])"
proof -
  define l where "l = \<lparr>lb_Name = ''kube%default%web'', lb_IpAddr = ''192.168.87.200'',
       lb_Targets = Some [(80 :: int32, Some [\<lparr>tgt_Protocol = 0, tgt_DstIP = ''192.168.50.3'', tgt_DstPort = 30080\<rparr>])]\<rparr>"
  have n: "GetLoadBalancerName ''kube'' (demo_service ps) = ''kube%default%web''" for ps
    by (simp add: GetLoadBalancerName_def demo_service_def)
  have c: "ccm_client demo_ccm = server_client (\<lambda>e. e) demo_srv" by (simp add: demo_ccm_def)
  have a: "map_of (db_st (demo_synced [(80, 30080)])) (GetLoadBalancerName ''kube'' (demo_service [demo_port2])) = Some (marshal_lb l)"
    by (simp add: n demo_synced_def l_def)
  have b: "wf_map (lb_Targets l)" "lb_Name l \<noteq> []" by (simp_all add: l_def wf_map_def map_entries_def)
  have t: "targets_at l 443 = []" by (simp add: l_def targets_at_def map_get_def map_entries_def)
  have "print_int (sint (443 :: int32)) = ''443''" by code_simp
  with GetLoadBalancer_reports [OF demo_env c a b] t show ?thesis
    by (simp add: demo_service_def demo_port2_def) (simp add: l_def)
qed

end
