(* ===== verification/Lb_Concurrent.thy ===== *)
theory Lb_Concurrent
  imports Lb_Invariant
begin

text \<open>
  The gRPC server runs every call in a goroutine of its own, and the handlers of
  \<^verbatim>\<open>internal/loadbalancer/impl.go\<close> take no lock. Here a call is cut at each use of the store, the IPVS
  handle and the link; calls in flight take turns at these points. A call that runs alone is the handler.
\<close>

section \<open>A call in steps\<close>

datatype call = Create_call create_req | Add_call target_req | Del_call target_req | Delete_call string

datatype reply = Code_reply lb_error | Info_reply lb_info

text \<open>Where a call stands, with what it holds in local variables.\<close>

datatype phase =
    Start
  | Choose_ip
  | List_aliases lb_info
  | Add_alias lb_info
  | Put_new lb_info
  | Ask_service lb_info "target list"
  | Make_service lb_info "target list"
  | Make_dest lb_info "target list"
  | Drop_dest lb_info "target list" nat
  | Drop_service lb_info target
  | Put_doc lb_info
  | Drop_services lb_info
  | Drop_alias lb_info lb_error
  | Drop_doc lb_error
  | Reply "(go_error, reply) outcome"

abbreviation code_reply :: "lb_error \<Rightarrow> phase" where
  "code_reply e \<equiv> Reply (Ret (Code_reply e))"

fun go_on :: "(go_error, 'a) outcome \<Rightarrow> ('a \<Rightarrow> phase) \<Rightarrow> phase" where
  "go_on (Ret a) k = k a"
| "go_on (Err e) k = Reply (Err e)"
| "go_on Panic k = Reply Panic"
| "go_on Stuck k = Reply Stuck"

definition load_doc :: "('l, 'v, 'd) lbServer \<Rightarrow> string \<Rightarrow> ('l, 'v, 'd) world \<Rightarrow> (lb_info \<Rightarrow> phase) \<Rightarrow> phase" where
  "load_doc srv name w k =
     (case getLB srv name (db_st w) of
        Err e \<Rightarrow>
          if e = ErrNoSuchLoadbalancer
          then code_reply \<lparr>err_Code = ErrNoSuchLB, err_Message = ''no such loadbalancer '' @ name\<rparr> else Reply (Err e)
      | r \<Rightarrow> go_on r k)"

definition save_doc ::
  "('l, 'v, 'd) lbServer \<Rightarrow> string \<Rightarrow> lb_info \<Rightarrow> reply \<Rightarrow> ('l, 'v, 'd) world \<Rightarrow> phase \<times> ('l, 'v, 'd) world" where
  "save_doc srv name l ok w =
     (case db_Put (srv_db srv) name (marshal_lb l) (db_st w) of
        (Some e, d') \<Rightarrow> (Reply (Err e), w\<lparr>db_st := d'\<rparr>)
      | (None, d') \<Rightarrow> (Reply (Ret ok), w\<lparr>db_st := d'\<rparr>))"

text \<open>\<^verbatim>\<open>Create\<close>: the name is looked up, an address chosen, its alias listed and added, the document stored.\<close>

fun create_step ::
  "('l, 'v, 'd) lbServer \<Rightarrow> create_req \<Rightarrow> phase \<Rightarrow> ('l, 'v, 'd) world \<Rightarrow> phase \<times> ('l, 'v, 'd) world" where
  "create_step srv clb Start w =
     (case db_Get (srv_db srv) (clb_Name clb) (db_st w) of
        Inr _ \<Rightarrow> Reply (Err (ErrText (''loadbalancer called '' @ clb_Name clb @ '' already exists'')))
      | Inl e \<Rightarrow> if e \<noteq> ErrKeyNotFound then Reply (Err e) else Choose_ip, w)"
| "create_step srv clb Choose_ip w =
     (go_on (chosen_ip srv clb (link_st w)) (\<lambda>ip. List_aliases (fresh_lb (clb_Name clb) ip)), w)"
| "create_step srv clb (List_aliases l) w =
     (let externalIP = ParseIP (lb_IpAddr l) in
      if \<not> ipam_Contains (srv_ipam srv) externalIP then
        Reply (Err (ErrText (''Requested IP '' @ lb_IpAddr l @ '' is not contained in the configured CIDR ('' @
           txt_addr (srv_texts srv) (srv_cidr srv) @ '')'')))
      else if list_ex (Addr_Equal (srv_nlHandle srv) (lb_addr srv (lb_IpAddr l))) (fst (AddrList (srv_nlHandle srv) (link_st w)))
      then Put_new l else Add_alias l, w)"
| "create_step srv clb (Add_alias l) w =
     (case AddrAdd (srv_nlHandle srv) (lb_addr srv (lb_IpAddr l)) (link_st w) of
        (Some e, l') \<Rightarrow> (Reply (Err e), w\<lparr>link_st := l'\<rparr>)
      | (None, l') \<Rightarrow> (Put_new l, w\<lparr>link_st := l'\<rparr>))"
| "create_step srv clb (Put_new l) w = save_doc srv (clb_Name clb) l (Info_reply l) w"
| "create_step srv clb ph w = (ph, w)"

text \<open>\<^verbatim>\<open>AddTarget\<close>: the document is read, the service found or made, the real server made, the document stored.\<close>

fun add_step ::
  "('l, 'v, 'd) lbServer \<Rightarrow> target_req \<Rightarrow> phase \<Rightarrow> ('l, 'v, 'd) world \<Rightarrow> phase \<times> ('l, 'v, 'd) world" where
  "add_step srv atr Start w =
     (load_doc srv (req_LbName atr) w (\<lambda>l.
        let ts = targets_at l (req_SrcPort atr) in
        go_on (find_target ts (req_Target atr)) (\<lambda>found.
          if found \<noteq> None then
            code_reply \<lparr>err_Code = ErrTargetAlreadyMapped,
              err_Message = ''target '' @ txt_target (srv_texts srv) (req_Target atr) @
                '' already mapped to load balancer '' @ req_LbName atr\<rparr>
          else if req_Target atr = None then Reply Panic else Ask_service l ts)), w)"
| "add_step srv atr (Ask_service l ts) w =
     (case ipvs_IsServicePresent (srv_ipvsHandle srv)
             (toIPVSService l (req_SrcPort atr) (tgt_Protocol (the (req_Target atr)))) (ipvs_st w) of
        (r, v') \<Rightarrow> (go_on r (\<lambda>present. if present then Make_dest l ts else Make_service l ts), w\<lparr>ipvs_st := v'\<rparr>))"
| "add_step srv atr (Make_service l ts) w =
     (case ipvs_NewService (srv_ipvsHandle srv)
             (toIPVSService l (req_SrcPort atr) (tgt_Protocol (the (req_Target atr)))) (ipvs_st w) of
        (r, v') \<Rightarrow> (go_on r (\<lambda>_. Make_dest l ts), w\<lparr>ipvs_st := v'\<rparr>))"
| "add_step srv atr (Make_dest l ts) w =
     (let t = the (req_Target atr) in
      case ipvs_NewDestination (srv_ipvsHandle srv) (toIPVSService l (req_SrcPort atr) (tgt_Protocol t))
             (toDestination (tgt_DstIP t) (tgt_DstPort t)) (ipvs_st w) of
        (Err e, v') \<Rightarrow>
          (code_reply \<lparr>err_Code = ErrAddDestinationFailed, err_Message = error_text (srv_texts srv) e\<rparr>, w\<lparr>ipvs_st := v'\<rparr>)
      | (r, v') \<Rightarrow> (go_on r (\<lambda>_. go_on (map_set (lb_Targets l) (req_SrcPort atr) (Some (ts @ [t])))
                               (\<lambda>targets. Put_doc (l\<lparr>lb_Targets := targets\<rparr>))), w\<lparr>ipvs_st := v'\<rparr>))"
| "add_step srv atr (Put_doc l) w = save_doc srv (req_LbName atr) l (Code_reply no_error) w"
| "add_step srv atr ph w = (ph, w)"

text \<open>\<^verbatim>\<open>DelTarget\<close>: the document is read, the real server and perhaps the service removed, the document stored.\<close>

fun del_step ::
  "('l, 'v, 'd) lbServer \<Rightarrow> target_req \<Rightarrow> phase \<Rightarrow> ('l, 'v, 'd) world \<Rightarrow> phase \<times> ('l, 'v, 'd) world" where
  "del_step srv dtr Start w =
     (load_doc srv (req_LbName dtr) w (\<lambda>l.
        case map_get (lb_Targets l) (req_SrcPort dtr) of
          Some (Some ts) \<Rightarrow> go_on (find_target ts (req_Target dtr)) (\<lambda>found.
            case found of
              None \<Rightarrow> code_reply (target_not_mapped srv dtr ('' on port '' @ print_int (sint (req_SrcPort dtr))))
            | Some i \<Rightarrow> Drop_dest l ts i)
        | _ \<Rightarrow> code_reply (target_not_mapped srv dtr [])), w)"
| "del_step srv dtr (Drop_dest l ts i) w =
     (let t = ts ! i; ts' = take i ts @ drop (Suc i) ts in
      case ipvs_DelDestination (srv_ipvsHandle srv) (toIPVSService l (req_SrcPort dtr) (tgt_Protocol t))
             (toDestination (tgt_DstIP (the (req_Target dtr))) (tgt_DstPort t)) (ipvs_st w) of
        (Err e, v') \<Rightarrow>
          (code_reply \<lparr>err_Code = ErrDelDestinationFailed, err_Message = error_text (srv_texts srv) e\<rparr>, w\<lparr>ipvs_st := v'\<rparr>)
      | (r, v') \<Rightarrow> (go_on r (\<lambda>_. if ts' = [] then Drop_service l t
                               else go_on (map_set (lb_Targets l) (req_SrcPort dtr) (Some ts'))
                                 (\<lambda>targets. Put_doc (l\<lparr>lb_Targets := targets\<rparr>))), w\<lparr>ipvs_st := v'\<rparr>))"
| "del_step srv dtr (Drop_service l t) w =
     (case ipvs_DelService (srv_ipvsHandle srv) (toIPVSService l (req_SrcPort dtr) (tgt_Protocol t)) (ipvs_st w) of
        (Err e, v') \<Rightarrow>
          (code_reply \<lparr>err_Code = ErrDelDestinationFailed, err_Message = error_text (srv_texts srv) e\<rparr>, w\<lparr>ipvs_st := v'\<rparr>)
      | (r, v') \<Rightarrow> (go_on r (\<lambda>_. Put_doc (l\<lparr>lb_Targets := map_del (lb_Targets l) (req_SrcPort dtr)\<rparr>)), w\<lparr>ipvs_st := v'\<rparr>))"
| "del_step srv dtr (Put_doc l) w = save_doc srv (req_LbName dtr) l (Code_reply no_error) w"
| "del_step srv dtr ph w = (ph, w)"

text \<open>\<^verbatim>\<open>Delete\<close>: the document is read, the services are removed (in one step), then the alias and the document.\<close>

fun delete_step ::
  "('l, 'v, 'd) lbServer \<Rightarrow> string \<Rightarrow> phase \<Rightarrow> ('l, 'v, 'd) world \<Rightarrow> phase \<times> ('l, 'v, 'd) world" where
  "delete_step srv name Start w = (load_doc srv name w Drop_services, w)"
| "delete_step srv name (Drop_services l) w =
     (case delete_services srv l (srv_port_order srv (map_entries (lb_Targets l))) no_error (ipvs_st w) of
        (r, v') \<Rightarrow> (go_on r (Drop_alias l), w\<lparr>ipvs_st := v'\<rparr>))"
| "delete_step srv name (Drop_alias l retErr) w =
     (case AddrDel (srv_nlHandle srv) (lb_addr srv (lb_IpAddr l)) (link_st w) of
        (e, l') \<Rightarrow> (Drop_doc (note_error (srv_texts srv) ErrIPAMError (ipam_Release (srv_ipam srv) (ParseIP (lb_IpAddr l)))
                       (note_error (srv_texts srv) ErrNoSuchIP e retErr)), w\<lparr>link_st := l'\<rparr>))"
| "delete_step srv name (Drop_doc retErr) w =
     (case db_Delete (srv_db srv) name (db_st w) of
        (Some e, d') \<Rightarrow> (Reply (Err e), w\<lparr>db_st := d'\<rparr>)
      | (None, d') \<Rightarrow> (code_reply retErr, w\<lparr>db_st := d'\<rparr>))"
| "delete_step srv name ph w = (ph, w)"

fun call_step ::
  "('l, 'v, 'd) lbServer \<Rightarrow> call \<Rightarrow> phase \<Rightarrow> ('l, 'v, 'd) world \<Rightarrow> phase \<times> ('l, 'v, 'd) world" where
  "call_step srv (Create_call clb) = create_step srv clb"
| "call_step srv (Add_call atr) = add_step srv atr"
| "call_step srv (Del_call dtr) = del_step srv dtr"
| "call_step srv (Delete_call name) = delete_step srv name"

section \<open>A call alone is its handler\<close>

fun run_alone ::
  "nat \<Rightarrow> ('l, 'v, 'd) lbServer \<Rightarrow> call \<Rightarrow> phase \<Rightarrow> ('l, 'v, 'd) world \<Rightarrow> phase \<times> ('l, 'v, 'd) world" where
  "run_alone 0 srv c ph w = (ph, w)"
| "run_alone (Suc n) srv c ph w = (case call_step srv c ph w of (ph', w') \<Rightarrow> run_alone n srv c ph' w')"

fun as_reply :: "('a \<Rightarrow> reply) \<Rightarrow> (go_error, 'a) outcome \<times> 'w \<Rightarrow> phase \<times> 'w" where
  "as_reply f (r, w) = (Reply (obind r (\<lambda>a. Ret (f a))), w)"

fun handler :: "('l, 'v, 'd) lbServer \<Rightarrow> call \<Rightarrow> ('l, 'v, 'd) world \<Rightarrow> phase \<times> ('l, 'v, 'd) world" where
  "handler srv (Create_call clb) w = as_reply Info_reply (Create srv clb w)"
| "handler srv (Add_call atr) w = as_reply Code_reply (AddTarget srv atr w)"
| "handler srv (Del_call dtr) w = as_reply Code_reply (DelTarget srv dtr w)"
| "handler srv (Delete_call name) w = as_reply Code_reply (Delete srv name w)"

lemma steps_stop [simp]: "call_step srv c (Reply r) w = (Reply r, w)"
  by (cases c) auto

lemma run_alone_stop [simp]: "run_alone n srv c (Reply r) w = (Reply r, w)"
  by (induction n) auto

lemma run_alone_5: "run_alone 5 srv c ph w = run_alone (Suc (Suc (Suc (Suc (Suc 0))))) srv c ph w"
  by (simp add: eval_nat_numeral)

lemma load_doc_with_lb:
  assumes "\<And>l. getLB srv name (db_st w) = Ret l \<Longrightarrow> run_alone n srv c (k l) w = as_reply Code_reply (body l)"
  shows "run_alone n srv c (load_doc srv name w k) w = as_reply Code_reply (with_lb srv name w body)"
  using assms by (cases "getLB srv name (db_st w)") (auto simp: load_doc_def with_lb_def)

lemma save_doc_put: "save_doc srv name l (Code_reply no_error) w = as_reply Code_reply (put_lb srv name l w)"
  by (auto simp: save_doc_def put_lb_def split: prod.splits option.splits)

lemma as_reply_stops [simp]: "(case as_reply f x of (ph, w) \<Rightarrow> run_alone n srv c ph w) = as_reply f x"
  by (cases x) simp

lemma add_alone_map:
  assumes "req_Target atr = Some t"
  shows "run_alone (Suc (Suc (Suc (Suc 0)))) srv (Add_call atr) (Ask_service l ts) w = as_reply Code_reply
     (case mapTarget srv l (req_SrcPort atr) (req_Target atr) (ipvs_st w) of (r, v') \<Rightarrow>
        sbind (r, w\<lparr>ipvs_st := v'\<rparr>) (\<lambda>ret w.
          case ret of
            Some e \<Rightarrow> (Ret e, w)
          | None \<Rightarrow> sbind (map_set (lb_Targets l) (req_SrcPort atr) (Some (ts @ [the (req_Target atr)])), w)
              (\<lambda>targets w. put_lb srv (req_LbName atr) (l\<lparr>lb_Targets := targets\<rparr>) w)))"
proof -
  let ?I = "srv_ipvsHandle srv" and ?s = "toIPVSService l (req_SrcPort atr) (tgt_Protocol t)"
  obtain r v where p: "ipvs_IsServicePresent ?I ?s (ipvs_st w) = (r, v)" by fastforce
  obtain r1 v1 where n: "ipvs_NewService ?I ?s v = (r1, v1)" by fastforce
  obtain r2 v2 where d: "ipvs_NewDestination ?I ?s (toDestination (tgt_DstIP t) (tgt_DstPort t)) v = (r2, v2)" by fastforce
  obtain r3 v3 where d1: "ipvs_NewDestination ?I ?s (toDestination (tgt_DstIP t) (tgt_DstPort t)) v1 = (r3, v3)" by fastforce
  show ?thesis
    by (cases r; cases r1; cases r2; cases r3; cases "map_set (lb_Targets l) (req_SrcPort atr) (Some (ts @ [t])) :: (go_error, _) outcome")
      (simp_all add: assms mapTarget_def Let_def p n d d1 save_doc_put)
qed

lemma run_alone_first:
  assumes "call_step srv c Start w = (ph, w)" "run_alone (Suc (Suc (Suc (Suc 0)))) srv c ph w = x"
  shows "run_alone 5 srv c Start w = x"
  using assms by (simp only: run_alone_5 run_alone.simps(2)[of "Suc (Suc (Suc (Suc 0)))"] prod.case)

lemma add_alone: "run_alone 5 srv (Add_call atr) Start w = as_reply Code_reply (AddTarget srv atr w)"
  unfolding AddTarget_def targets_at_get Let_def
  apply (rule run_alone_first[OF _ load_doc_with_lb])
   apply (simp only: call_step.simps add_step.simps Let_def)
  subgoal for l
    by (rule find_target_cases[of "targets_at l (req_SrcPort atr)" "req_Target atr", OF refl])
      (simp_all add: add_alone_map mapTarget_def del: run_alone.simps)
  done

lemma del_alone_unmap:
  "run_alone (Suc (Suc (Suc (Suc 0)))) srv (Del_call dtr) (Drop_dest l ts i) w = as_reply Code_reply
     (let ip = srv_ipvsHandle srv; t = ts ! i;
          s = toIPVSService l (req_SrcPort dtr) (tgt_Protocol t);
          dest = toDestination (tgt_DstIP (the (req_Target dtr))) (tgt_DstPort t);
          failed = (\<lambda>e. \<lparr>err_Code = ErrDelDestinationFailed, err_Message = error_text (srv_texts srv) e\<rparr>);
          ts' = take i ts @ drop (Suc i) ts
      in case ipvs_DelDestination ip s dest (ipvs_st w) of
           (Err e, v1) \<Rightarrow> (Ret (failed e), w\<lparr>ipvs_st := v1\<rparr>)
         | (Panic, v1) \<Rightarrow> (Panic, w\<lparr>ipvs_st := v1\<rparr>)
         | (Stuck, v1) \<Rightarrow> (Stuck, w\<lparr>ipvs_st := v1\<rparr>)
         | (Ret _, v1) \<Rightarrow>
             if ts' = [] then
               (case ipvs_DelService ip s v1 of
                  (Err e, v2) \<Rightarrow> (Ret (failed e), w\<lparr>ipvs_st := v2\<rparr>)
                | (Panic, v2) \<Rightarrow> (Panic, w\<lparr>ipvs_st := v2\<rparr>)
                | (Stuck, v2) \<Rightarrow> (Stuck, w\<lparr>ipvs_st := v2\<rparr>)
                | (Ret _, v2) \<Rightarrow>
                    put_lb srv (req_LbName dtr) (l\<lparr>lb_Targets := map_del (lb_Targets l) (req_SrcPort dtr)\<rparr>) (w\<lparr>ipvs_st := v2\<rparr>))
             else
               sbind (map_set (lb_Targets l) (req_SrcPort dtr) (Some ts'), w\<lparr>ipvs_st := v1\<rparr>)
                 (\<lambda>targets w. put_lb srv (req_LbName dtr) (l\<lparr>lb_Targets := targets\<rparr>) w))"
proof -
  let ?I = "srv_ipvsHandle srv" and ?t = "ts ! i" and ?ts = "take i ts @ drop (Suc i) ts"
  let ?s = "toIPVSService l (req_SrcPort dtr) (tgt_Protocol ?t)"
  obtain r v where d: "ipvs_DelDestination ?I ?s (toDestination (tgt_DstIP (the (req_Target dtr))) (tgt_DstPort ?t)) (ipvs_st w) = (r, v)"
    by fastforce
  obtain r1 v1 where s: "ipvs_DelService ?I ?s v = (r1, v1)" by fastforce
  show ?thesis
    by (cases r; cases r1; cases "map_set (lb_Targets l) (req_SrcPort dtr) (Some ?ts) :: (go_error, _) outcome")
      (simp_all add: Let_def d s save_doc_put)
qed

lemma del_alone: "run_alone 5 srv (Del_call dtr) Start w = as_reply Code_reply (DelTarget srv dtr w)"
  unfolding DelTarget_def
  apply (rule run_alone_first[OF _ load_doc_with_lb])
   apply (simp only: call_step.simps del_step.simps)
  subgoal for l
    apply (cases "map_get (lb_Targets l) (req_SrcPort dtr)")
     apply simp
    subgoal for ts
      apply (cases ts)
       apply simp
      subgoal for ts'
        by (rule find_target_cases[of "ts'" "req_Target dtr", OF refl])
          (simp_all add: del_alone_unmap del: run_alone.simps)
      done
    done
  done

lemma create_alone: "run_alone 5 srv (Create_call clb) Start w = as_reply Info_reply (Create srv clb w)"
proof (cases "\<exists>ip. db_Get (srv_db srv) (clb_Name clb) (db_st w) = Inl ErrKeyNotFound \<and> chosen_ip srv clb (link_st w) = Ret ip")
  case False
  then show ?thesis
    by (cases "db_Get (srv_db srv) (clb_Name clb) (db_st w)"; cases "chosen_ip srv clb (link_st w)")
      (auto simp: run_alone_5 Create_unfold)
next
  case True
  then obtain ip where get: "db_Get (srv_db srv) (clb_Name clb) (db_st w) = Inl ErrKeyNotFound"
    and ip: "chosen_ip srv clb (link_st w) = Ret ip" by blast
  show ?thesis
    by (simp add: run_alone_5 Create_unfold get ip addAddrAlias_def lb_addr_def Let_def save_doc_def split: prod.split option.split)
qed

lemma delete_alone: "run_alone 5 srv (Delete_call name) Start w = as_reply Code_reply (Delete srv name w)"
  unfolding Delete_def
  apply (rule run_alone_first[OF _ load_doc_with_lb])
   apply (simp only: call_step.simps delete_step.simps)
  subgoal for l
    apply (cases "delete_services srv l (srv_port_order srv (map_entries (lb_Targets l))) no_error (ipvs_st w)")
    subgoal for r v
      by (cases r) (simp_all add: lb_addr_def Let_def split: prod.split option.split)
    done
  done

lemma handler_alone: "run_alone 5 srv c Start w = handler srv c w"
  by (cases c) (simp_all only: handler.simps add_alone del_alone create_alone delete_alone)


section \<open>Calls in flight\<close>

text \<open>
  Calls arrive and take turns; the process can die, which loses the calls in flight: then link and IPVS table come back in
  any state and \<^verbatim>\<open>Restore\<close> runs before calls are served again.
\<close>

type_synonym ('l, 'v, 'd) pool = "(call \<times> phase) list \<times> ('l, 'v, 'd) world"

inductive pool_step ::
  "('l, 'v, 'd) lbServer \<Rightarrow> (call \<Rightarrow> bool) \<Rightarrow> ('l, 'v, 'd) pool \<Rightarrow> ('l, 'v, 'd) pool \<Rightarrow> bool" for srv allowed where
  arrive: "allowed c \<Longrightarrow> pool_step srv allowed (cs, w) (cs @ [(c, Start)], w)"
| move: "i < length cs \<Longrightarrow> cs ! i = (c, ph) \<Longrightarrow> call_step srv c ph w = (ph', w') \<Longrightarrow>
    pool_step srv allowed (cs, w) (cs[i := (c, ph')], w')"
| crash: "Restore srv (w\<lparr>link_st := l, ipvs_st := v\<rparr>) = (Ret (), w') \<Longrightarrow> pool_step srv allowed (cs, w) ([], w')"

text \<open>A schedule says whose turn it is.\<close>

fun run_pool :: "('l, 'v, 'd) lbServer \<Rightarrow> nat list \<Rightarrow> ('l, 'v, 'd) pool \<Rightarrow> ('l, 'v, 'd) pool" where
  "run_pool srv [] s = s"
| "run_pool srv (i # is) (cs, w) =
     (if i < length cs
      then case call_step srv (fst (cs ! i)) (snd (cs ! i)) w of
             (ph', w') \<Rightarrow> run_pool srv is (cs[i := (fst (cs ! i), ph')], w')
      else run_pool srv is (cs, w))"

lemma run_pool_steps: "(pool_step srv allowed)\<^sup>*\<^sup>* s (run_pool srv is s)"
proof (induction "is" s rule: run_pool.induct)
  case (2 srv i "is" cs w)
  obtain ph' w' where st: "call_step srv (fst (cs ! i)) (snd (cs ! i)) w = (ph', w')" by fastforce
  show ?case
  proof (cases "i < length cs")
    case True
    then have "pool_step srv allowed (cs, w) (cs[i := (fst (cs ! i), ph')], w')"
      using st by (intro move[of i cs "fst (cs ! i)" "snd (cs ! i)"]) simp_all
    with 2(1)[OF True st[symmetric]] st True show ?thesis by (simp add: converse_rtranclp_into_rtranclp)
  qed (use 2(2) in simp)
qed simp

section \<open>Calls that only build\<close>

fun builds :: "call \<Rightarrow> bool" where
  "builds (Create_call clb) = True"
| "builds (Add_call atr) = True"
| "builds (Del_call dtr) = False"
| "builds (Delete_call name) = False"

definition backed :: "('l, 'v, 'd) lbServer \<Rightarrow> addr list \<Rightarrow> ipvs_tab \<Rightarrow> lb_contents \<Rightarrow> bool" where
  "backed srv xs T c \<longleftrightarrow> alias_up srv xs (fst c) \<and>
     (\<forall>p. \<forall>t \<in> set (snd c p). dst_of (fst c) t \<in> dests T (svc_of (fst c) p (tgt_Protocol t)))"

lemma backed_mono:
  "backed srv xs T c \<Longrightarrow> set xs \<subseteq> set ys \<Longrightarrow> (\<And>k. dests T k \<subseteq> dests T' k) \<Longrightarrow> backed srv ys T' c"
  unfolding backed_def by (meson alias_up_mono subsetD)

definition is_fresh :: "lb_info \<Rightarrow> bool" where
  "is_fresh l \<longleftrightarrow> (\<exists>name ip. l = fresh_lb name ip)"

lemma is_freshI [simp]: "is_fresh (fresh_lb name ip)"
  by (auto simp: is_fresh_def)

text \<open>What a building call holds is backed, or is a new document without targets.\<close>

fun holds_ok :: "('l, 'v, 'd) lbServer \<Rightarrow> addr list \<Rightarrow> ipvs_tab \<Rightarrow> call \<Rightarrow> phase \<Rightarrow> bool" where
  "holds_ok srv xs T c (List_aliases l) \<longleftrightarrow> is_fresh l"
| "holds_ok srv xs T c (Add_alias l) \<longleftrightarrow> is_fresh l"
| "holds_ok srv xs T c (Put_new l) \<longleftrightarrow> is_fresh l \<and> alias_up srv xs (lb_IpAddr l)"
| "holds_ok srv xs T c (Ask_service l ts) \<longleftrightarrow> backed srv xs T (contents l) \<and> wf_map (lb_Targets l) \<and> lb_Targets l \<noteq> None \<and>
     (\<forall>atr. c = Add_call atr \<longrightarrow> ts = targets_at l (req_SrcPort atr))"
| "holds_ok srv xs T c (Make_service l ts) \<longleftrightarrow> backed srv xs T (contents l) \<and> wf_map (lb_Targets l) \<and> lb_Targets l \<noteq> None \<and>
     (\<forall>atr. c = Add_call atr \<longrightarrow> ts = targets_at l (req_SrcPort atr))"
| "holds_ok srv xs T c (Make_dest l ts) \<longleftrightarrow> backed srv xs T (contents l) \<and> wf_map (lb_Targets l) \<and> lb_Targets l \<noteq> None \<and>
     (\<forall>atr. c = Add_call atr \<longrightarrow> ts = targets_at l (req_SrcPort atr))"
| "holds_ok srv xs T c (Put_doc l) \<longleftrightarrow> backed srv xs T (contents l) \<and> wf_map (lb_Targets l)"
| "holds_ok srv xs T c ph \<longleftrightarrow> True"

lemma holds_ok_mono:
  assumes "holds_ok srv xs T c ph" "set xs \<subseteq> set ys" "\<And>k. dests T k \<subseteq> dests T' k"
  shows "holds_ok srv ys T' c ph"
  using assms by (cases ph) (auto intro: backed_mono alias_up_mono)

lemma save_doc_cases:
  assumes "db_laws (srv_db srv) m" "save_doc srv name l ok w = (ph, w')" "wf_map (lb_Targets l)"
  shows "link_st w' = link_st w" "ipvs_st w' = ipvs_st w" "\<exists>r. ph = Reply r"
    "lb_view (m (db_st w')) = lb_view (m (db_st w)) \<or>
     lb_view (m (db_st w')) = (lb_view (m (db_st w)))(name \<mapsto> contents l)"
  using assms by (auto simp: save_doc_def db_laws_def lb_view_put split: prod.splits option.splits)

definition grows :: "('v \<Rightarrow> ipvs_tab) \<Rightarrow> ('l \<Rightarrow> addr list) \<Rightarrow> ('l, 'v, 'd) world \<Rightarrow> ('l, 'v, 'd) world \<Rightarrow> bool" where
  "grows tbl as w w' \<longleftrightarrow> set (as (link_st w)) \<subseteq> set (as (link_st w')) \<and>
     (\<forall>k. dests (tbl (ipvs_st w)) k \<subseteq> dests (tbl (ipvs_st w')) k)"

definition all_backed ::
  "('l, 'v, 'd) lbServer \<Rightarrow> ('v \<Rightarrow> ipvs_tab) \<Rightarrow> ('l \<Rightarrow> addr list) \<Rightarrow> ('d \<Rightarrow> string \<Rightarrow> json option) \<Rightarrow> ('l, 'v, 'd) world \<Rightarrow> bool" where
  "all_backed srv tbl as m w \<longleftrightarrow>
     (\<forall>n c. lb_view (m (db_st w)) n = Some c \<longrightarrow> backed srv (as (link_st w)) (tbl (ipvs_st w)) c)"

text \<open>A good step only adds, stores only what is backed, and leaves its call with something backed.\<close>

definition good_step where
  "good_step srv tbl as m c w ph' w' \<longleftrightarrow> grows tbl as w w' \<and> holds_ok srv (as (link_st w')) (tbl (ipvs_st w')) c ph' \<and>
     (lb_view (m (db_st w')) = lb_view (m (db_st w)) \<or>
      (\<exists>n d. lb_view (m (db_st w')) = (lb_view (m (db_st w)))(n \<mapsto> d) \<and> backed srv (as (link_st w')) (tbl (ipvs_st w')) d))"

lemma good_step_all_backed:
  assumes "good_step srv tbl as m c w ph' w'" "all_backed srv tbl as m w"
  shows "all_backed srv tbl as m w'"
proof -
  have old: "backed srv (as (link_st w')) (tbl (ipvs_st w')) d" if "lb_view (m (db_st w)) n = Some d" for n d
    using assms that unfolding good_step_def grows_def all_backed_def by (meson backed_mono)
  show ?thesis using assms(1) old unfolding good_step_def all_backed_def by (auto split: if_splits)
qed

lemma good_reply: "good_step srv tbl as m c w (Reply r) w"
  by (simp add: good_step_def grows_def)

lemma good_save:
  assumes "db_laws (srv_db srv) m" "save_doc srv name l ok w = (ph', w')" "wf_map (lb_Targets l)"
    and "backed srv (as (link_st w)) (tbl (ipvs_st w)) (contents l)"
  shows "good_step srv tbl as m c w ph' w'"
proof -
  note S = save_doc_cases[OF assms(1-3)]
  have "backed srv (as (link_st w')) (tbl (ipvs_st w')) (contents l)" using assms(4) unfolding S(1,2) .
  moreover have "grows tbl as w w'" unfolding grows_def S(1,2) by blast
  moreover have "holds_ok srv (as (link_st w')) (tbl (ipvs_st w')) c ph'" using S(3) by auto
  ultimately show ?thesis using S(4) unfolding good_step_def by blast
qed

lemma create_builds:
  assumes laws: "link_laws (srv_nlHandle srv) as" "db_laws (srv_db srv) m"
    and run: "create_step srv clb ph w = (ph', w')"
    and ok: "holds_ok srv (as (link_st w)) (tbl (ipvs_st w)) (Create_call clb) ph"
  shows "good_step srv tbl as m (Create_call clb) w ph' w'"
proof (cases ph)
  case Start
  with run show ?thesis by (auto simp: good_step_def grows_def split: sum.splits if_splits)
next
  case Choose_ip
  with run show ?thesis
    by (cases "chosen_ip srv clb (link_st w)") (auto simp: good_step_def grows_def)
next
  case (List_aliases l)
  have up: "alias_up srv (as (link_st w)) (lb_IpAddr l)"
    if "list_ex (Addr_Equal (srv_nlHandle srv) (lb_addr srv (lb_IpAddr l))) (fst (AddrList (srv_nlHandle srv) (link_st w)))"
    using that link_lawsD(1)[OF laws(1), of "link_st w" "fst (AddrList (srv_nlHandle srv) (link_st w))"
        "snd (AddrList (srv_nlHandle srv) (link_st w))"]
    by (auto simp: alias_up_def list_ex_iff)
  with List_aliases run ok show ?thesis by (auto simp: good_step_def grows_def Let_def split: if_splits)
next
  case (Add_alias l)
  obtain e l' where add: "AddrAdd (srv_nlHandle srv) (lb_addr srv (lb_IpAddr l)) (link_st w) = (e, l')" by fastforce
  show ?thesis
    using Add_alias run ok add link_lawsD(2,3,6)[OF laws(1)]
    by (cases e) (auto simp: good_step_def grows_def alias_up_def)
next
  case (Put_new l)
  with ok obtain name ip where l: "l = fresh_lb name ip" "alias_up srv (as (link_st w)) ip" by (auto simp: is_fresh_def)
  then have "backed srv (as (link_st w)) (tbl (ipvs_st w)) (contents l)" by (simp add: backed_def)
  with Put_new run l show ?thesis by (intro good_save[OF laws(2)]) auto
qed (use run ok in \<open>auto simp: good_step_def grows_def\<close>)

lemma add_builds:
  assumes laws: "ipvs_laws (srv_ipvsHandle srv) tbl" "db_laws (srv_db srv) m"
    and run: "add_step srv atr ph w = (ph', w')" and all: "all_backed srv tbl as m w"
    and ok: "holds_ok srv (as (link_st w)) (tbl (ipvs_st w)) (Add_call atr) ph"
  shows "good_step srv tbl as m (Add_call atr) w ph' w'"
proof (cases ph)
  case Start
  show ?thesis
  proof (cases "getLB srv (req_LbName atr) (db_st w)")
    case (Ret l)
    have "backed srv (as (link_st w)) (tbl (ipvs_st w)) (contents l)" "wf_map (lb_Targets l)" "lb_Targets l \<noteq> None"
      using getLB_Ret[OF laws(2) Ret] all unfolding all_backed_def by blast+
    then show ?thesis using run Start Ret
      by (cases rule: find_target_cases[of "targets_at l (req_SrcPort atr)" "req_Target atr", OF refl])
        (auto simp: good_step_def grows_def load_doc_def Let_def)
  qed (use run Start in \<open>auto simp: good_step_def grows_def load_doc_def\<close>)
next
  case (Ask_service l ts)
  let ?s = "toIPVSService l (req_SrcPort atr) (tgt_Protocol (the (req_Target atr)))"
  obtain b v where p: "ipvs_IsServicePresent (srv_ipvsHandle srv) ?s (ipvs_st w) = (Ret b, v)" "tbl v = tbl (ipvs_st w)"
    using laws(1) unfolding ipvs_laws_def by metis
  with run ok Ask_service show ?thesis by (cases b) (auto simp: good_step_def grows_def)
next
  case (Make_service l ts)
  let ?s = "toIPVSService l (req_SrcPort atr) (tgt_Protocol (the (req_Target atr)))"
  from laws(1) show ?thesis
  proof (cases rule: by_laws.new_service_cases[where s = ?s and v = "ipvs_st w"])
    case (done_it v')
    then have "dests (tbl v') = dests (tbl (ipvs_st w))" by (auto simp: dests_def fun_eq_iff)
    with run ok done_it(1) Make_service show ?thesis by (auto simp: good_step_def grows_def backed_def)
  next
    case (failed e v')
    with run Make_service show ?thesis by (auto simp: good_step_def grows_def)
  qed
next
  case (Make_dest l ts)
  let ?t = "the (req_Target atr)" and ?p = "req_SrcPort atr"
  let ?s = "toIPVSService l ?p (tgt_Protocol ?t)" and ?d = "toDestination (tgt_DstIP ?t) (tgt_DstPort ?t)"
  have held: "backed srv (as (link_st w)) (tbl (ipvs_st w)) (contents l)" "wf_map (lb_Targets l)" "lb_Targets l \<noteq> None"
    "ts = targets_at l ?p" using ok Make_dest by auto
  from laws(1) show ?thesis
  proof (cases rule: by_laws.new_dest_cases[where s = ?s and d = ?d and v = "ipvs_st w"])
    case (done_it v')
    obtain m' where m': "map_set (lb_Targets l) ?p (Some (ts @ [?t])) = (Ret m' :: (go_error, _) outcome)"
        "contents (l\<lparr>lb_Targets := m'\<rparr>) = (lb_IpAddr l, (targets_at l)(?p := ts @ [?t]))" "wf_map m'"
      using targets_after_set[OF held(3), of ?p "ts @ [?t]"] held(2) by metis
    have w': "ph' = Put_doc (l\<lparr>lb_Targets := m'\<rparr>)" "w' = w\<lparr>ipvs_st := v'\<rparr>"
      using run Make_dest done_it(1) m'(1) by auto
    have more: "dests (tbl (ipvs_st w)) k \<subseteq> dests (tbl v') k" for k using done_it(3) by auto
    have "dst_of (lb_IpAddr l) ?t \<in> dests (tbl v') (svc_of (lb_IpAddr l) ?p (tgt_Protocol ?t))"
      using done_it(3) by simp
    moreover have "backed srv (as (link_st w)) (tbl v') (contents l)"
      by (rule backed_mono[OF held(1) subset_refl more])
    ultimately have "backed srv (as (link_st w)) (tbl v') (contents (l\<lparr>lb_Targets := m'\<rparr>))"
      using held(4) unfolding m'(2) by (auto simp: backed_def contents_def)
    then show ?thesis using m'(3) more by (simp add: good_step_def grows_def w')
  next
    case (failed e v')
    with run Make_dest show ?thesis by (auto simp: good_step_def grows_def)
  qed
next
  case (Put_doc l)
  with run ok show ?thesis by (intro good_save[OF laws(2)]) auto
qed (use run ok in \<open>auto simp: good_step_def grows_def\<close>)

section \<open>Any interleaving of building calls\<close>

definition pool_ok where
  "pool_ok srv tbl as m s \<longleftrightarrow> all_backed srv tbl as m (snd s) \<and>
     (\<forall>(c, ph) \<in> set (fst s). builds c \<and> holds_ok srv (as (link_st (snd s))) (tbl (ipvs_st (snd s))) c ph)"

lemma call_builds:
  assumes "server_env srv tbl as m s" "builds c" "call_step srv c ph w = (ph', w')" "all_backed srv tbl as m w"
    and "holds_ok srv (as (link_st w)) (tbl (ipvs_st w)) c ph"
  shows "good_step srv tbl as m c w ph' w'"
  using assms server_envD(2-4)[OF assms(1)] create_builds add_builds by (cases c) (simp_all, blast+)

lemma restart_backed:
  assumes env: "server_env srv tbl as m s" and run: "Restore srv (w\<lparr>link_st := l, ipvs_st := v\<rparr>) = (Ret (), w')"
  shows "all_backed srv tbl as m w'"
proof -
  note R = Restore_effect[OF server_envD(1,3,4,6)[OF env] run]
  have up: "alias_up srv (as (link_st w')) ip" if "lb_view (m (db_st w')) n = Some (ip, tg)" for n ip tg
    using R that by auto
  have ds: "dst_of ip t \<in> dests (tbl (ipvs_st w')) (svc_of ip p (tgt_Protocol t))"
    if "lb_view (m (db_st w')) n = Some (ip, tg)" "t \<in> set (tg p)" for n ip tg p t
  proof -
    have "dst_of ip t \<in> lb_dests ip tg (svc_of ip p (tgt_Protocol t))" using that(2) by (auto simp: lb_dests_def)
    then show ?thesis using R that(1) by (metis (mono_tags, lifting) UnCI mem_Collect_eq)
  qed
  show ?thesis using up ds unfolding all_backed_def backed_def by (metis prod.collapse)
qed

lemma pool_step_ok:
  assumes env: "server_env srv tbl as m s" and "pool_step srv builds p p'" "pool_ok srv tbl as m p"
  shows "pool_ok srv tbl as m p'"
  using assms(2)
proof cases
  case (arrive c cs w)
  then show ?thesis using assms(3) by (auto simp: pool_ok_def)
next
  case (move i cs c ph w ph' w')
  have c: "builds c" "holds_ok srv (as (link_st w)) (tbl (ipvs_st w)) c ph" and all: "all_backed srv tbl as m w"
    using assms(3) move nth_mem[OF move(3)] by (auto simp: pool_ok_def)
  have good: "good_step srv tbl as m c w ph' w'"
    by (rule call_builds[OF env c(1) move(5) all c(2)])
  have other: "holds_ok srv (as (link_st w')) (tbl (ipvs_st w')) c' ph2" if "(c', ph2) \<in> set cs" for c' ph2
  proof (rule holds_ok_mono)
    show "holds_ok srv (as (link_st w)) (tbl (ipvs_st w)) c' ph2" using assms(3) move that by (auto simp: pool_ok_def)
  qed (use good in \<open>auto simp: good_step_def grows_def\<close>)
  show ?thesis
    using good_step_all_backed[OF good all] other assms(3) c(1) good set_update_subset_insert[of cs i "(c, ph')"]
    unfolding pool_ok_def move(1,2) by (auto simp: good_step_def)
next
  case (crash v l w w' cs)
  then show ?thesis using restart_backed[OF env] by (simp add: pool_ok_def)
qed

text \<open>
  C6. While calls only build, no interleaving breaks the promise of the store: whatever order the steps of any number of
  \<^verbatim>\<open>Create\<close> and \<^verbatim>\<open>AddTarget\<close> calls are taken in, and however often the process dies and restores, every
  stored load balancer has its alias and every stored target is a real server of its service.
\<close>

theorem building_calls_interleave:
  assumes "server_env srv tbl as m s" "reachable srv m w0" "(pool_step srv builds)\<^sup>*\<^sup>* ([], w0) (cs, w)"
    and "lb_view (m (db_st w)) name = Some (ip, tg)"
  shows "alias_up srv (as (link_st w)) ip \<and>
     (\<forall>p. \<forall>t \<in> set (tg p). dst_of ip t \<in> dests (tbl (ipvs_st w)) (svc_of ip p (tgt_Protocol t)))"
proof -
  have "all_backed srv tbl as m w0"
    using consistentD(1)[OF reachable_inv[OF assms(1,2)]] by (auto simp: all_backed_def backed_def served_def)
  then have "pool_ok srv tbl as m ([], w0)" by (simp add: pool_ok_def)
  with assms(3) have "pool_ok srv tbl as m (cs, w)"
    by (induction rule: rtranclp_induct) (auto dest: pool_step_ok[OF assms(1)])
  with assms(4) show ?thesis by (auto simp: pool_ok_def all_backed_def backed_def)
qed

end
