(* ===== verification/Lb_Documents.thy ===== *)
theory Lb_Documents
  imports Lb_Concurrent
begin

text \<open>
  The documents of the load balancer server: whatever calls overlap, every stored document can be read, has one entry per
  port, and is stored under its own name.
\<close>

definition doc_ok :: "string \<Rightarrow> lb_info \<Rightarrow> bool" where
  "doc_ok n l \<longleftrightarrow> wf_map (lb_Targets l) \<and> lb_Name l = n"

definition docs_ok :: "('d \<Rightarrow> string \<Rightarrow> json option) \<Rightarrow> 'd \<Rightarrow> bool" where
  "docs_ok m d \<longleftrightarrow> (\<forall>n raw. m d n = Some raw \<longrightarrow> (\<exists>l. unmarshal_lb raw = Ret l \<and> doc_ok n l))"

fun call_name :: "call \<Rightarrow> string" where
  "call_name (Create_call clb) = clb_Name clb"
| "call_name (Add_call atr) = req_LbName atr"
| "call_name (Del_call dtr) = req_LbName dtr"
| "call_name (Delete_call name) = name"

text \<open>The document a call holds.\<close>

fun held :: "phase \<Rightarrow> lb_info option" where
  "held (List_aliases l) = Some l"
| "held (Add_alias l) = Some l"
| "held (Put_new l) = Some l"
| "held (Ask_service l ts) = Some l"
| "held (Make_service l ts) = Some l"
| "held (Make_dest l ts) = Some l"
| "held (Drop_dest l ts i) = Some l"
| "held (Drop_service l t) = Some l"
| "held (Put_doc l) = Some l"
| "held (Drop_services l) = Some l"
| "held (Drop_alias l e) = Some l"
| "held ph = None"

definition held_ok :: "string \<Rightarrow> phase \<Rightarrow> bool" where
  "held_ok n ph \<longleftrightarrow> (\<forall>l. held ph = Some l \<longrightarrow> doc_ok n l)"

lemma held_ok_simps [simp]:
  "held_ok n Start" "held_ok n Choose_ip" "held_ok n (Drop_doc e)" "held_ok n (Reply r)"
  "held_ok n (List_aliases l) = doc_ok n l" "held_ok n (Add_alias l) = doc_ok n l" "held_ok n (Put_new l) = doc_ok n l"
  "held_ok n (Ask_service l ts) = doc_ok n l" "held_ok n (Make_service l ts) = doc_ok n l"
  "held_ok n (Make_dest l ts) = doc_ok n l" "held_ok n (Drop_dest l ts i) = doc_ok n l"
  "held_ok n (Drop_service l t) = doc_ok n l" "held_ok n (Put_doc l) = doc_ok n l"
  "held_ok n (Drop_services l) = doc_ok n l" "held_ok n (Drop_alias l e) = doc_ok n l"
  by (simp_all add: held_ok_def)

lemma held_ok_go_on: "(\<And>a. r = Ret a \<Longrightarrow> held_ok n (k a)) \<Longrightarrow> held_ok n (go_on r k)"
  by (cases r) auto

lemma doc_ok_fresh [simp]: "doc_ok n (fresh_lb n ip)"
  by (simp add: doc_ok_def) (simp add: fresh_lb_def)

lemma doc_ok_set: "doc_ok n l \<Longrightarrow> map_set (lb_Targets l) p ts = Ret m' \<Longrightarrow> doc_ok n (l\<lparr>lb_Targets := m'\<rparr>)"
  using wf_map_set by (auto simp: doc_ok_def)

lemma doc_ok_del: "doc_ok n l \<Longrightarrow> doc_ok n (l\<lparr>lb_Targets := map_del (lb_Targets l) p\<rparr>)"
  using wf_map_del by (auto simp: doc_ok_def)

lemma loaded_ok:
  assumes "db_laws (srv_db srv) m" "docs_ok m (db_st w)" "\<And>l. doc_ok name l \<Longrightarrow> held_ok name (k l)"
  shows "held_ok name (load_doc srv name w k)"
proof (cases "getLB srv name (db_st w)")
  case (Ret l)
  then obtain raw l0 where raw: "db_Get (srv_db srv) name (db_st w) = Inr raw" "unmarshal_lb raw = Ret l0"
    and l: "l = (if lb_Targets l0 = None then l0\<lparr>lb_Targets := Some []\<rparr> else l0)"
    by (auto simp: getLB_def outcome_simps split: sum.splits)
  have "m (db_st w) name = Some raw" using assms(1) raw(1) by (simp add: db_laws_def)
  with assms(2) raw(2) have "doc_ok name l0" unfolding docs_ok_def by (metis outcome.inject(1))
  then have "doc_ok name l" by (auto simp: l doc_ok_def wf_map_def map_entries_def)
  with assms(3) Ret show ?thesis by (simp add: load_doc_def)
qed (simp_all add: load_doc_def)

lemma saved_ok:
  assumes "db_laws (srv_db srv) m" "docs_ok m (db_st w)" "doc_ok n l" "save_doc srv n l ok w = (ph', w')"
  shows "docs_ok m (db_st w') \<and> held_ok n ph'"
proof -
  have "unmarshal_lb (marshal_lb l) = Ret (stored_form l)" "doc_ok n (stored_form l)"
    using assms(3) unmarshal_marshal_text[of l] unmarshal_wf[of "marshal_lb l" "stored_form l"]
    by (auto simp: doc_ok_def stored_form_def split: if_splits)
  note l = this
  have same: "m (db_st w') = m (db_st w) \<or> m (db_st w') = (m (db_st w))(n \<mapsto> marshal_lb l)" and "\<exists>r. ph' = Reply r"
    using assms(1,4) by (auto simp: save_doc_def db_laws_def split: prod.splits option.splits)
  from same have "docs_ok m (db_st w')"
  proof
    assume eq: "m (db_st w') = (m (db_st w))(n \<mapsto> marshal_lb l)"
    show ?thesis unfolding docs_ok_def
    proof (intro allI impI)
      fix n' raw assume "m (db_st w') n' = Some raw"
      then show "\<exists>l. unmarshal_lb raw = Ret l \<and> doc_ok n' l"
        using l assms(2) unfolding eq docs_ok_def by (cases "n' = n") auto
    qed
  qed (use assms(2) in \<open>simp add: docs_ok_def\<close>)
  with \<open>\<exists>r. ph' = Reply r\<close> show ?thesis by auto
qed

section \<open>Steps\<close>

lemma step_docs:
  assumes laws: "db_laws (srv_db srv) m" and docs: "docs_ok m (db_st w)" and ok: "held_ok (call_name c) ph"
    and run: "call_step srv c ph w = (ph', w')"
  shows "docs_ok m (db_st w') \<and> held_ok (call_name c) ph'"
proof (cases c)
  case (Create_call clb)
  then show ?thesis using run docs ok saved_ok[OF laws docs]
    by (cases ph) (auto simp: Let_def intro!: held_ok_go_on split: sum.splits if_splits prod.splits option.splits)
next
  case (Add_call atr)
  have "held_ok (req_LbName atr) (fst (add_step srv atr Start w))"
    unfolding add_step.simps fst_conv Let_def
    by (rule loaded_ok[OF laws docs]) (auto intro!: held_ok_go_on)
  with Add_call show ?thesis using run docs ok saved_ok[OF laws docs]
    by (cases ph) (auto simp: Let_def doc_ok_set intro!: held_ok_go_on split: prod.splits outcome.splits)
next
  case (Del_call dtr)
  have "held_ok (req_LbName dtr) (fst (del_step srv dtr Start w))"
    unfolding del_step.simps fst_conv
    by (rule loaded_ok[OF laws docs]) (auto intro!: held_ok_go_on split: option.splits)
  with Del_call show ?thesis using run docs ok saved_ok[OF laws docs]
    by (cases ph) (auto simp: Let_def doc_ok_set doc_ok_del intro!: held_ok_go_on split: prod.splits outcome.splits)
next
  case (Delete_call name)
  have gone: "docs_ok m d'" if "db_Delete (srv_db srv) name (db_st w) = (e, d')" for e d'
    using that laws docs by (cases e) (auto simp: db_laws_def docs_ok_def)
  have "held_ok name (fst (delete_step srv name Start w))"
    unfolding delete_step.simps fst_conv by (rule loaded_ok[OF laws docs]) simp
  with Delete_call show ?thesis using run docs ok gone
    by (cases ph) (auto intro!: held_ok_go_on split: prod.splits option.splits)
qed

text \<open>\<^verbatim>\<open>Restore\<close> only reads.\<close>

lemma restore_all_db: "db_st (snd (restore_all srv vs w)) = db_st w"
proof (induction vs arbitrary: w)
  case (Cons x vs)
  show ?case
  proof (cases x)
    case (Inr raw)
    show ?thesis
    proof (cases "unmarshal_lb raw")
      case (Ret l)
      obtain r l' where a: "addAddrAlias srv (lb_IpAddr l) (link_st w) = (r, l')" by fastforce
      obtain r2 v' where p: "restore_ports srv l (srv_port_order srv (map_entries (lb_Targets l))) (ipvs_st w) = (r2, v')" by fastforce
      show ?thesis using Cons Inr Ret a p by (cases r; cases r2) auto
    qed (simp_all add: Inr)
  qed simp
qed simp

text \<open>Calls that do not overlap: the states of the server on its own.\<close>

lemma run_alone_docs:
  assumes "db_laws (srv_db srv) m" "docs_ok m (db_st w)" "held_ok (call_name c) ph" "run_alone n srv c ph w = (ph', w')"
  shows "docs_ok m (db_st w')"
  using assms(2-4)
proof (induction n arbitrary: ph w)
  case (Suc n)
  obtain ph1 w1 where "call_step srv c ph w = (ph1, w1)" by fastforce
  with Suc.prems(3) step_docs[OF assms(1) Suc.prems(1,2)] Suc.IH[of w1 ph1] show ?case by simp
qed simp

lemma handler_docs:
  assumes "db_laws (srv_db srv) m" "docs_ok m (db_st w)"
  shows "docs_ok m (db_st (snd (handler srv c w)))"
  using run_alone_docs[OF assms(1,2), of c Start 5] by (cases "handler srv c w") (simp add: handler_alone)

lemma step_keeps_docs:
  assumes laws: "db_laws (srv_db srv) m" and docs: "docs_ok m (db_st w)" and "server_step srv m w w'"
  shows "docs_ok m (db_st w')"
  using assms(3)
proof cases
  case (step_get name g)
  then have "w' = w" by (auto simp: GetLoadBalancer_def split: outcome.splits)
  with docs show ?thesis by simp
next
  case (step_create clb r)
  then show ?thesis using handler_docs[OF laws docs, of "Create_call clb"] by simp
next
  case (step_add atr r)
  then show ?thesis using handler_docs[OF laws docs, of "Add_call atr"] by simp
next
  case (step_del dtr r)
  then show ?thesis using handler_docs[OF laws docs, of "Del_call dtr"] by simp
next
  case (step_delete name e)
  then show ?thesis using handler_docs[OF laws docs, of "Delete_call name"] by simp
next
  case (step_restart v l)
  then show ?thesis
    using docs restore_all_db[of srv "db_Values (srv_db srv) (db_st w)" "w\<lparr>link_st := l, ipvs_st := v\<rparr>"]
    by (simp add: Restore_def)
qed

lemma reachable_docs:
  assumes "db_laws (srv_db srv) m" "reachable srv m w"
  shows "docs_ok m (db_st w)"
  using assms(2)
proof induction
  case (reach_start w)
  then show ?case by (simp add: docs_ok_def)
next
  case (reach_step w w') then show ?case using step_keeps_docs[OF assms(1)] by blast
qed

text \<open>
  C17. No interleaving spoils a document: starting from an empty store, whatever calls arrive, in whatever order their
  steps are taken, and however often the process dies and restores, every stored document can be read, names every port
  once, and is stored under its own name.
\<close>

theorem documents_stay_readable:
  assumes "db_laws (srv_db srv) m" "m (db_st w0) = Map.empty"
    and "(pool_step srv allowed)\<^sup>*\<^sup>* ([], w0) (cs, w)" "m (db_st w) name = Some raw"
  shows "\<exists>l. unmarshal_lb raw = Ret l \<and> wf_map (lb_Targets l) \<and> lb_Name l = name"
proof -
  let ?inv = "\<lambda>s. docs_ok m (db_st (snd s)) \<and> (\<forall>(c, ph) \<in> set (fst s). held_ok (call_name c) ph)"
  from assms(3) have "?inv (cs, w)"
  proof (induction rule: rtranclp_induct)
    case base
    then show ?case using assms(2) by (simp add: docs_ok_def)
  next
    case (step s s')
    from step(2,3) show ?case
    proof cases
      case (move i cs c ph w ph' w')
      then have "held_ok (call_name c) ph" using step(3) nth_mem[OF move(3)] by auto
      with step_docs[OF assms(1) _ this move(5)] step(3) move show ?thesis
        using set_update_subset_insert[of cs i "(c, ph')"] by auto
    next
      case (crash v l w w' cs)
      have "db_st w' = db_st w"
        using restore_all_db[of srv "db_Values (srv_db srv) (db_st w)" "w\<lparr>link_st := l, ipvs_st := v\<rparr>"] crash(3)
        by (simp add: Restore_def)
      then show ?thesis using crash step(3) by simp
    qed auto
  qed
  then show ?thesis using assms(4) by (auto simp: docs_ok_def doc_ok_def)
qed

end
