(* ===== verification/End_To_End.thy ===== *)
theory End_To_End
  imports Ccm_Service Lb_Documents Manager
begin

text \<open>
  From a Kubernetes service to the kernel: \<^verbatim>\<open>EnsureLoadBalancer\<close> of the cloud controller over the server of the load
  balancer manager, its IPVS handle and the kernel behind it.
\<close>

section \<open>What the controller gets and passes on\<close>

lemma wire_lb_parts:
  "lb_Name (wire_lb l) = lb_Name l" "lb_IpAddr (wire_lb l) = lb_IpAddr l" "no_nil_lists (wire_lb l)"
  "wf_map (lb_Targets l) \<Longrightarrow> wf_map (lb_Targets (wire_lb l))"
  by (auto simp: wire_lb_def no_nil_lists_def wf_map_def map_entries_def comp_def case_prod_unfold)

lemma name_not_empty: "GetLoadBalancerName cluster sv \<noteq> []"
  by (simp add: GetLoadBalancerName_def)

lemma getLB_named:
  assumes "db_laws (srv_db srv) m" "reachable srv m w" "getLB srv name (db_st w) = Ret l"
  shows "lb_Name l = name"
proof -
  from assms(3) obtain raw l0 where raw: "db_Get (srv_db srv) name (db_st w) = Inr raw" "unmarshal_lb raw = Ret l0"
    and l: "l = (if lb_Targets l0 = None then l0\<lparr>lb_Targets := Some []\<rparr> else l0)"
    by (auto simp: getLB_def outcome_simps split: sum.splits)
  have "m (db_st w) name = Some raw" using assms(1) raw(1) by (simp add: db_laws_def)
  with reachable_docs[OF assms(1,2)] raw(2) have "doc_ok name l0" unfolding docs_ok_def by (metis outcome.inject(1))
  with l show ?thesis by (simp add: doc_ok_def)
qed

text \<open>The load balancer the controller goes on with: the stored one, or one it has just created.\<close>

lemma ensured_cases:
  assumes env: "server_env srv tbl as m s" and reach: "reachable srv m w"
    and client: "ccm_client c = server_client st srv" and noip: "sv_LoadBalancerIP sv = []"
    and run: "EnsureLoadBalancer c cluster sv nodes w = (Ret status, w')"
  obtains (found) w1 l ports where "reachable srv m w1" "wf_map (lb_Targets l)" "no_nil_lists l"
    "lb_Name l = GetLoadBalancerName cluster sv" "lb_view (m (db_st w1)) (lb_Name l) = Some (contents l)"
    "handleMappings c l sv nodes w1 = (Ret ports, w')" "status = \<lparr>ing_IP = lb_IpAddr l, ing_Ports = ports\<rparr>"
proof -
  let ?n = "GetLoadBalancerName cluster sv"
  let ?req = "\<lparr>clb_Name = ?n, clb_IpAddr = None\<rparr>"
  have fresh_name: "lb_Name (fresh_lb ?n ip) = ?n" for ip by (simp add: fresh_lb_def)
  have created: thesis
    if "(case rpc st wire_lb (Create srv ?req w) of (Inl e, s2) \<Rightarrow> (Err e, s2) | (Inr l', s2) \<Rightarrow> (Ret l', s2)) = (Ret l, w1)"
      "handleMappings c l sv nodes w1 = (Ret ports, w')" "status = \<lparr>ing_IP = lb_IpAddr l, ing_Ports = ports\<rparr>" for l w1 ports
  proof -
    obtain r w2 where cr: "Create srv ?req w = (r, w2)" by fastforce
    with that(1) obtain l0 where l0: "r = Ret l0" "l = wire_lb l0" "w1 = w2" by (cases r) auto
    have "reachable srv m w1"
      by (rule reach_step[OF reach step_create[OF cr[folded l0(3)]]]) simp
    moreover obtain ip where "l0 = fresh_lb ?n ip" "lb_view (m (db_st w1)) = (lb_view (m (db_st w)))(?n \<mapsto> (ip, \<lambda>_. []))"
      using server_envD(3,4)[OF env] cr[unfolded l0(1)] l0(3)
      by (cases rule: Create_cases) (auto simp del: fresh_lb_simps)
    ultimately show thesis
      using that(2,3) l0(2) wire_lb_parts[of l0] fresh_lb_simps[of ?n ip] fresh_name
      by (intro found[of w1 l ports]) (simp_all del: fresh_lb_simps)
  qed
  have new: thesis if "cl_Get (ccm_client c) ?n w = (Inl e, w) \<or> cl_Get (ccm_client c) ?n w = (Inr empty_lb_info, w)" for e
  proof -
    have "sbind (case rpc st wire_lb (Create srv ?req w) of (Inl e, s2) \<Rightarrow> (Err e, s2) | (Inr l', s2) \<Rightarrow> (Ret l', s2))
        (\<lambda>lbinfo s2. sbind (handleMappings c lbinfo sv nodes s2) (\<lambda>ports s3. (Ret \<lparr>ing_IP = lb_IpAddr lbinfo, ing_Ports = ports\<rparr>, s3)))
        = (Ret status, w')"
      using run that noip by (auto simp: EnsureLoadBalancer_def Let_def client empty_lb_info_def)
    then show thesis by (auto simp: sbind_Ret_iff intro: created)
  qed
  show thesis
  proof (cases "getLB srv ?n (db_st w)")
    case (Ret l)
    have name: "lb_Name l = ?n" by (rule getLB_named[OF server_envD(4)[OF env] reach Ret])
    have "sbind (handleMappings c (wire_lb l) sv nodes w)
        (\<lambda>ports s3. (Ret \<lparr>ing_IP = lb_IpAddr (wire_lb l), ing_Ports = ports\<rparr>, s3)) = (Ret status, w')"
      using run Ret name name_not_empty[of cluster sv]
      by (simp add: EnsureLoadBalancer_def Let_def client Lb_Server.GetLoadBalancer_def wire_reply_def wire_lb_parts(1))
    then obtain ports where "handleMappings c (wire_lb l) sv nodes w = (Ret ports, w')"
      "status = \<lparr>ing_IP = lb_IpAddr (wire_lb l), ing_Ports = ports\<rparr>" by (auto simp: sbind_Ret_iff)
    then show thesis
      using getLB_Ret[OF server_envD(4)[OF env] Ret] reach name wire_lb_parts[of l]
      by (intro found[of w "wire_lb l" ports]) auto
  next
    case (Err e)
    then show thesis
      by (cases "e = ErrNoSuchLoadbalancer"; intro new) (simp_all add: client Lb_Server.GetLoadBalancer_def wire_reply_def)
  next
    case Panic
    then show thesis by (intro new) (simp add: client Lb_Server.GetLoadBalancer_def)
  next
    case Stuck
    then show thesis by (intro new) (simp add: client Lb_Server.GetLoadBalancer_def)
  qed
qed

section \<open>A service is served\<close>


text \<open>A controller on the manager of \<open>run_w0\<close>, which has stored nothing yet.\<close>

definition kernel_ccm :: "(addr list, mem_kernel handle, (string \<times> json) list) world LoadBalancer" where
  "kernel_ccm = \<lparr>ccm_client = server_client (\<lambda>e. e) kernel_server, ccm_texts = demo_texts, ccm_key_order = (\<lambda>ks. ks)\<rparr>"

definition ensured :: "(addr list, mem_kernel handle, (string \<times> json) list) world" where
  "ensured = snd (EnsureLoadBalancer kernel_ccm ''kube'' (demo_service [demo_port]) [demo_node ''192.168.50.4''] run_w0)"

lemma ensured_run: "fst (EnsureLoadBalancer kernel_ccm ''kube'' (demo_service [demo_port]) [demo_node ''192.168.50.4''] run_w0) =
    Ret \<lparr>ing_IP = ''192.168.87.200'', ing_Ports = [\<lparr>ps_Port = 80, ps_Protocol = ''TCP'', ps_Error = None\<rparr>]\<rparr>"
  by code_simp


end
