(* ===== verification/Lb_Races.thy ===== *)
theory Lb_Races
  imports Lb_Documents
begin

text \<open>
  What goes wrong when calls of the load balancer server overlap: the handlers read a document, work on the
  kernel and write the document back without a lock, and they take no note of what happened in between.
\<close>

definition other_target :: target where
  "other_target = \<lparr>tgt_Protocol = Protocol_TCP, tgt_DstIP = ''192.168.50.4'', tgt_DstPort = 30080\<rparr>"

definition other_req :: target_req where
  "other_req = \<lparr>req_LbName = ''web'', req_SrcPort = 80, req_Target = Some other_target\<rparr>"

lemma arrivals:
  "(pool_step srv allowed)\<^sup>*\<^sup>* ([], w) (map (\<lambda>c. (c, Start)) cs, w)" if "list_all allowed cs"
  using that
proof (induction cs rule: rev_induct)
  case (snoc c cs)
  then have "pool_step srv allowed (map (\<lambda>c. (c, Start)) cs, w) (map (\<lambda>c. (c, Start)) (cs @ [c]), w)"
    by (simp add: arrive)
  with snoc show ?case by (simp add: rtranclp.rtrancl_into_rtrancl)
qed simp

lemma scheduled:
  assumes "s = run_pool srv is (map (\<lambda>c. (c, Start)) cs, w)" "list_all allowed cs"
  shows "(pool_step srv allowed)\<^sup>*\<^sup>* ([], w) (fst s, snd s)"
  using rtranclp_trans[OF arrivals[OF assms(2)] run_pool_steps] assms(1) by simp

type_synonym demo_pool = "(addr list, mem_tab, (string \<times> json) list) pool"

abbreviation arrived :: "call list \<Rightarrow> demo_world \<Rightarrow> demo_pool" where
  "arrived cs w \<equiv> (map (\<lambda>c. (c, Start)) cs, w)"

abbreviation demo_doc :: "(int32 \<times> target list) list \<Rightarrow> (go_error, lb_info option) outcome" where
  "demo_doc ts \<equiv> Ret (Some \<lparr>lb_Name = ''web'', lb_IpAddr = ''192.168.87.200'',
     lb_Targets = Some (map (\<lambda>(p, ts). (p, Some ts)) ts)\<rparr>)"

abbreviation demo_dests :: "demo_world \<Rightarrow> dst_key set" where
  "demo_dests w \<equiv> dests (mem_view (ipvs_st w)) (svc_of ''192.168.87.200'' 80 Protocol_TCP)"

section \<open>Two additions\<close>

text \<open>Both calls read the document before either stores it: the second store overwrites the first.\<close>

definition two_adds :: demo_pool where
  "two_adds = run_pool demo_srv [0, 1, 0, 0, 0, 0, 1, 1, 1] (arrived [Add_call demo_req, Add_call other_req] demo_w1)"

lemma two_adds_run:
  "map snd (fst two_adds) = [code_reply no_error, code_reply no_error]"
  "fst (GetLoadBalancer demo_srv ''web'' (snd two_adds)) = demo_doc [(80, [other_target])]"
  "dst_of ''192.168.87.200'' demo_target \<in> demo_dests (snd two_adds)"
  "fst (DelTarget demo_srv demo_req (snd two_adds)) = Ret (target_not_mapped demo_srv demo_req '' on port 80'')"
  by code_simp+

text \<open>
  C21. Two \<^verbatim>\<open>AddTarget\<close> calls for one load balancer can both answer success and lose a target: its real server is in
  the IPVS table and gets traffic, the document does not name it, and \<^verbatim>\<open>DelTarget\<close> answers that it is not mapped.
\<close>

theorem concurrent_adds_lose_target:
  "\<exists>cs w. (pool_step demo_srv builds)\<^sup>*\<^sup>* ([], demo_w1) (cs, w) \<and> map snd cs = [code_reply no_error, code_reply no_error] \<and>
     fst (GetLoadBalancer demo_srv ''web'' w) = demo_doc [(80, [other_target])] \<and>
     dst_of ''192.168.87.200'' demo_target \<in> demo_dests w \<and>
     fst (DelTarget demo_srv demo_req w) = Ret (target_not_mapped demo_srv demo_req '' on port 80'')"
proof -
  have "(pool_step demo_srv builds)\<^sup>*\<^sup>* ([], demo_w1) (fst two_adds, snd two_adds)"
    by (rule scheduled[OF two_adds_def]) simp
  then show ?thesis by (intro exI[of _ "fst two_adds"] exI[of _ "snd two_adds"] conjI two_adds_run)
qed

section \<open>An addition and a removal\<close>

definition add_and_del :: demo_pool where
  "add_and_del = run_pool demo_srv [1, 0, 0, 0, 0, 1, 1, 1, 1] (arrived [Del_call demo_req, Add_call other_req] demo_w2)"

definition add_and_delete :: demo_pool where
  "add_and_delete = run_pool demo_srv [1, 0, 0, 0, 0, 1, 1, 1, 1] (arrived [Delete_call ''web'', Add_call other_req] demo_w2)"

lemma add_and_del_run:
  "map snd (fst add_and_del) = [code_reply no_error, code_reply no_error]"
  "fst (GetLoadBalancer demo_srv ''web'' (snd add_and_del)) = demo_doc [(80, [demo_target, other_target])]"
  "dst_of ''192.168.87.200'' demo_target \<notin> demo_dests (snd add_and_del)"
  by code_simp+

lemma add_and_delete_run:
  "map snd (fst add_and_delete) = [code_reply no_error, code_reply no_error]"
  "fst (GetLoadBalancer demo_srv ''web'' (snd add_and_delete)) = demo_doc [(80, [demo_target, other_target])]"
  "link_st (snd add_and_delete) = []"
  by code_simp+

text \<open>
  C23. An \<^verbatim>\<open>AddTarget\<close> that overlaps a removal writes back what was removed, and all calls answer success: after
  \<^verbatim>\<open>DelTarget\<close> the document names a target that is in no IPVS service, and after \<^verbatim>\<open>Delete\<close> the load balancer is
  stored again, without its address on the link. So the restriction to building calls in
  \<open>building_calls_interleave\<close> is needed.
\<close>

theorem removals_are_undone:
  "(\<exists>cs w. (pool_step demo_srv (\<lambda>_. True))\<^sup>*\<^sup>* ([], demo_w2) (cs, w) \<and> map snd cs = [code_reply no_error, code_reply no_error] \<and>
      fst (GetLoadBalancer demo_srv ''web'' w) = demo_doc [(80, [demo_target, other_target])] \<and>
      dst_of ''192.168.87.200'' demo_target \<notin> demo_dests w) \<and>
   (\<exists>cs w. (pool_step demo_srv (\<lambda>_. True))\<^sup>*\<^sup>* ([], demo_w2) (cs, w) \<and> map fst cs = [Delete_call ''web'', Add_call other_req] \<and>
      map snd cs = [code_reply no_error, code_reply no_error] \<and>
      fst (GetLoadBalancer demo_srv ''web'' w) = demo_doc [(80, [demo_target, other_target])] \<and> link_st w = [])"
proof (rule conjI)
  have "(pool_step demo_srv (\<lambda>_. True))\<^sup>*\<^sup>* ([], demo_w2) (fst add_and_del, snd add_and_del)"
    by (rule scheduled[OF add_and_del_def]) simp
  then show "\<exists>cs w. (pool_step demo_srv (\<lambda>_. True))\<^sup>*\<^sup>* ([], demo_w2) (cs, w) \<and>
      map snd cs = [code_reply no_error, code_reply no_error] \<and>
      fst (GetLoadBalancer demo_srv ''web'' w) = demo_doc [(80, [demo_target, other_target])] \<and>
      dst_of ''192.168.87.200'' demo_target \<notin> demo_dests w"
    by (intro exI[of _ "fst add_and_del"] exI[of _ "snd add_and_del"] conjI add_and_del_run)
next
  have "(pool_step demo_srv (\<lambda>_. True))\<^sup>*\<^sup>* ([], demo_w2) (fst add_and_delete, snd add_and_delete)"
    by (rule scheduled[OF add_and_delete_def]) simp
  moreover have "map fst (fst add_and_delete) = [Delete_call ''web'', Add_call other_req]" by code_simp
  ultimately show "\<exists>cs w. (pool_step demo_srv (\<lambda>_. True))\<^sup>*\<^sup>* ([], demo_w2) (cs, w) \<and> map fst cs = [Delete_call ''web'', Add_call other_req] \<and>
      map snd cs = [code_reply no_error, code_reply no_error] \<and>
      fst (GetLoadBalancer demo_srv ''web'' w) = demo_doc [(80, [demo_target, other_target])] \<and> link_st w = []"
    by (intro exI[of _ "fst add_and_delete"] exI[of _ "snd add_and_delete"] conjI add_and_delete_run)
qed

section \<open>Two creations\<close>

definition other_create :: create_req where
  "other_create = \<lparr>clb_Name = ''db'', clb_IpAddr = None\<rparr>"

definition two_creates :: demo_pool where
  "two_creates = run_pool demo_srv [0, 1, 0, 1, 0, 0, 0, 1, 1] (arrived [Create_call demo_create, Create_call other_create] demo_w0)"

lemma two_creates_run:
  "map snd (fst two_creates) =
     [Reply (Ret (Info_reply (fresh_lb ''web'' ''192.168.87.200''))), Reply (Ret (Info_reply (fresh_lb ''db'' ''192.168.87.200'')))]"
  by code_simp

text \<open>
  C40. Two \<^verbatim>\<open>Create\<close> calls that overlap can be given the same address: both allocate it before either has added its
  alias, and the second takes the alias of the first for its own.
\<close>

theorem one_address_twice:
  "\<exists>cs w. (pool_step demo_srv builds)\<^sup>*\<^sup>* ([], demo_w0) (cs, w) \<and>
     map snd cs = [Reply (Ret (Info_reply (fresh_lb ''web'' ''192.168.87.200''))),
                   Reply (Ret (Info_reply (fresh_lb ''db'' ''192.168.87.200'')))]"
proof -
  have "(pool_step demo_srv builds)\<^sup>*\<^sup>* ([], demo_w0) (fst two_creates, snd two_creates)"
    by (rule scheduled[OF two_creates_def]) simp
  then show ?thesis by (intro exI[of _ "fst two_creates"] exI[of _ "snd two_creates"] conjI two_creates_run)
qed

text \<open>The runs start from states the server reaches by itself.\<close>

lemma building_calls_interleave_witness:
  "alias_up demo_srv (link_st (snd two_adds)) ''192.168.87.200'' \<and>
   dst_of ''192.168.87.200'' other_target \<in> demo_dests (snd two_adds)"
proof -
  have r1: "reachable demo_srv map_of demo_w1"
    by (rule reach_step[OF reach_start step_create[OF demo_create_run]]) (simp_all add: demo_w0_def demo_create_def)
  have run: "(pool_step demo_srv builds)\<^sup>*\<^sup>* ([], demo_w1) (fst two_adds, snd two_adds)"
    by (rule scheduled[OF two_adds_def]) simp
  have doc: "getLB demo_srv ''web'' (db_st (snd two_adds)) =
      Ret \<lparr>lb_Name = ''web'', lb_IpAddr = ''192.168.87.200'', lb_Targets = Some [(80, Some [other_target])]\<rparr>"
    by code_simp
  have view: "lb_view (map_of (db_st (snd two_adds))) ''web'' = Some (''192.168.87.200'',
      targets_at \<lparr>lb_Name = ''web'', lb_IpAddr = ''192.168.87.200'', lb_Targets = Some [(80, Some [other_target])]\<rparr>)"
    using getLB_Ret(1)[OF demo_laws(3) doc] by (simp add: contents_def)
  have "other_target \<in> set (targets_at \<lparr>lb_Name = ''web'', lb_IpAddr = ''192.168.87.200'', lb_Targets = Some [(80, Some [other_target])]\<rparr> 80)"
    by (simp add: targets_at_def map_get_def map_entries_def)
  moreover have "tgt_Protocol other_target = Protocol_TCP" by (simp add: other_target_def)
  ultimately show ?thesis using building_calls_interleave[OF demo_env r1 run view] by metis
qed

lemma documents_stay_readable_witness:
  "\<exists>raw l. map_of (db_st (snd two_creates)) ''web'' = Some raw \<and> unmarshal_lb raw = Ret l \<and>
     wf_map (lb_Targets l) \<and> lb_Name l = ''web''"
proof -
  have start: "map_of (db_st demo_w0) = Map.empty" by (simp add: demo_w0_def)
  have run: "(pool_step demo_srv builds)\<^sup>*\<^sup>* ([], demo_w0) (fst two_creates, snd two_creates)"
    by (rule scheduled[OF two_creates_def]) simp
  have doc: "map_of (db_st (snd two_creates)) ''web'' = Some (marshal_lb (fresh_lb ''web'' ''192.168.87.200''))"
    by code_simp
  show ?thesis using documents_stay_readable[OF demo_laws(3) start run doc] doc by blast
qed

end
