(* ===== verification/Ipvs_Overlap.thy ===== *)
theory Ipvs_Overlap
  imports Mem_Kernel
begin

text \<open>
  Two calls of one IPVS handle at the same time. The handlers of the server share the handle and its socket, and
  \<^verbatim>\<open>execute\<close> of \<^verbatim>\<open>internal/ipvs\<close> takes no lock: a call drops the messages that answer another one.
\<close>

text \<open>
  A socket is a queue: a receive takes messages from its front, or times out and leaves it alone, and it times out when
  the queue is empty.
\<close>

definition fifo_socket :: "'v nl_conn \<Rightarrow> ('v \<Rightarrow> nl_message list) \<Rightarrow> bool" where
  "fifo_socket C q \<longleftrightarrow>
     (\<forall>v b u. nc_Receive C v = (Inr b, u) \<longrightarrow> q v = b @ q u) \<and>
     (\<forall>v e u. nc_Receive C v = (Inl e, u) \<longrightarrow> e = EAGAIN \<and> q u = q v) \<and>
     (\<forall>v. nc_GetFd C v \<noteq> -1)"

lemma fifo_socketD:
  assumes "fifo_socket C q"
  shows "nc_Receive C v = (Inr b, u) \<Longrightarrow> q v = b @ q u"
    "nc_Receive C v = (Inl e, u) \<Longrightarrow> e = EAGAIN" "nc_Receive C v = (Inl e, u) \<Longrightarrow> q u = q v" "nc_GetFd C v \<noteq> -1"
  using assms by (auto simp: fifo_socket_def)

lemma scan_foreign: "own req ms = [] \<Longrightarrow> scan_msgs bo req pid rt ms res = Read_on res"
  by (induction ms) auto

text \<open>A call that gets its answer has taken everything that was queued before the answer.\<close>

lemma loop_drains:
  assumes "fifo_socket C q" "execute_loop fuel bo C req pid rt res v = (Ret r, v')" "q v = as @ bs" "own req as = []"
  obtains xs where "bs = xs @ q v'"
  using assms(2-4)
proof (induction fuel arbitrary: res v as bs thesis)
  case (Suc fuel)
  show ?case
  proof (cases "nc_Receive C v")
    case (Pair x u)
    show ?thesis
    proof (cases x)
      case (Inl e)
      with Pair Suc.prems(2) fifo_socketD(2,4)[OF assms(1)] have "execute_loop fuel bo C req pid rt res u = (Ret r, v')" by auto
      moreover have "q u = as @ bs" using fifo_socketD(3)[OF assms(1)] Pair Inl Suc.prems(3) by simp
      ultimately show ?thesis using Suc.IH Suc.prems(1,4) by blast
    next
      case (Inr b)
      have q: "as @ bs = b @ q u" using fifo_socketD(1)[OF assms(1)] Pair Inr Suc.prems(3) by simp
      then consider (early) zs where "as = b @ zs" "q u = zs @ bs" | (late) ys where "b = as @ ys" "bs = ys @ q u"
        by (auto simp: append_eq_append_conv2)
      then show ?thesis
      proof cases
        case early
        with Suc.prems(4) have none: "own req b = []" "own req zs = []" by auto
        with Pair Inr Suc.prems(2) have "execute_loop fuel bo C req pid rt res u = (Ret r, v')" by (simp add: scan_foreign)
        with Suc.IH Suc.prems(1) early(2) none(2) show ?thesis by blast
      next
        case late
        show ?thesis
        proof (cases "scan_msgs bo req pid rt b res")
          case (Read_on res')
          with Pair Inr Suc.prems(2) have "execute_loop fuel bo C req pid rt res' u = (Ret r, v')" by simp
          moreover have "q u = [] @ q u" "own req [] = []" by simp_all
          ultimately obtain xs where "q u = xs @ q v'" using Suc.IH by blast
          with late(2) Suc.prems(1)[of "ys @ xs"] show ?thesis by simp
        next
          case (Leave res')
          with Pair Inr Suc.prems(2) late(2) Suc.prems(1)[of ys] show ?thesis by simp
        next
          case (Fail_with f)
          with Pair Inr Suc.prems(2) late(2) Suc.prems(1)[of ys] show ?thesis by simp
        qed
      qed
    qed
  qed
qed simp

lemma loop_starves:
  assumes "fifo_socket C q" "own req (q v) = []"
  shows "fst (execute_loop fuel bo C req pid rt res v) = Stuck"
  using assms(2)
proof (induction fuel arbitrary: v)
  case (Suc fuel)
  obtain x u where r: "nc_Receive C v = (x, u)" by fastforce
  show ?case
  proof (cases x)
    case (Inl e)
    with r fifo_socketD(2-4)[OF assms(1)] Suc show ?thesis by auto
  next
    case (Inr b)
    then have "q v = b @ q u" using fifo_socketD(1)[OF assms(1)] r by simp
    with Suc r Inr show ?thesis by (simp add: scan_foreign)
  qed
qed simp

text \<open>
  C22. Calls that overlap on one handle can lose their answers: when a call has sent its request and a second call sends
  its own, gets its answer and returns before the first one receives, then the answer to the first, which the
  kernel queued before that of the second, is dropped as foreign, and the first call never returns, however often it
  receives.
\<close>

theorem overlapping_call_starves:
  assumes "fifo_socket C q" "q v1 = as" "own b as = []"
    and "nc_Send C b v1 = (None, v2)" "nc_GetPid C v2 = Inr pid" "q v2 = as @ bs" "own a bs = []"
    and "execute fuel bo C b rt v1 = (Ret r, v3)"
  shows "fst (execute_loop n bo C a pid rt' [] v3) = Stuck"
proof -
  have "execute_loop fuel bo C b pid rt [] v2 = (Ret r, v3)" using assms(4,5,8) by (simp add: execute_def)
  from loop_drains[OF assms(1) this assms(6,3)] obtain xs where "bs = xs @ q v3" .
  then have "own a (q v3) = []" using assms(7) by auto
  then show ?thesis by (rule loop_starves[OF assms(1)])
qed

text \<open>A socket to a kernel that acknowledges every request.\<close>

definition queue_conn :: "nl_message list nl_conn" where
  "queue_conn = \<lparr>
     nc_NewNetlinkRequest = (\<lambda>p f. \<lparr>rq_Type = p, rq_Flags = f OR 1, rq_Seq = 0, rq_Data = []\<rparr>),
     nc_Send = (\<lambda>req v. (None, v @ [mem_reply (rq_Seq req) NLMSG_ERROR (Slice [0, 0, 0, 0] [])])),
     nc_GetPid = (\<lambda>_. Inr 77),
     nc_Receive = (\<lambda>v. if v = [] then (Inl EAGAIN, []) else (Inr v, [])),
     nc_GetFd = (\<lambda>_. 3)\<rparr>"

lemma overlapping_call_starves_witness:
  "execute 1 LittleEndian queue_conn (demo_request\<lparr>rq_Seq := 10\<rparr>) 0 (snd (nc_Send queue_conn demo_request [])) = (Ret [], []) \<and>
   (\<forall>n. fst (execute_loop n LittleEndian queue_conn demo_request 77 0 [] []) = Stuck)"
proof -
  let ?b = "demo_request\<lparr>rq_Seq := 10\<rparr>"
  let ?as = "[mem_reply 9 NLMSG_ERROR (Slice [0, 0, 0, 0] [])]" and ?bs = "[mem_reply 10 NLMSG_ERROR (Slice [0, 0, 0, 0] [])]"
  have f: "fifo_socket queue_conn (\<lambda>v. v)" by (auto simp: fifo_socket_def queue_conn_def split: if_splits)
  have sent: "snd (nc_Send queue_conn demo_request []) = ?as" by code_simp
  have ab: "own ?b ?as = []" "own demo_request ?bs = []" by code_simp+
  have s: "nc_Send queue_conn ?b ?as = (None, ?as @ ?bs)" by code_simp
  have p: "nc_GetPid queue_conn (?as @ ?bs) = Inr 77" by code_simp
  have r: "execute 1 LittleEndian queue_conn ?b 0 ?as = (Ret [], [])" by code_simp
  have "fst (execute_loop n LittleEndian queue_conn demo_request 77 0 [] []) = Stuck" for n
    by (rule overlapping_call_starves[OF f refl ab(1) s p refl ab(2) r])
  with r show ?thesis unfolding sent by blast
qed

end
