(* ===== verification/Ipvs_Setup.thy ===== *)
theory Ipvs_Setup
  imports Lb_Setup Ipvs_Overlap
begin

text \<open>
  What \<^verbatim>\<open>internal/ipvs\<close> does once per process and when a handle is opened: \<^verbatim>\<open>setup\<close>, which finds the netlink family
  of IPVS, and \<^verbatim>\<open>New\<close>, which opens a handle in a namespace given by a path.
\<close>

section \<open>The family of IPVS\<close>

text \<open>The variables of the package: whether \<^verbatim>\<open>ipvsOnce\<close> has run, and \<^verbatim>\<open>ipvsFamily\<close>.\<close>

record ipvs_pkg =
  pk_once :: bool
  pk_family :: uint16

definition ipvs_pkg0 :: ipvs_pkg where
  "ipvs_pkg0 = \<lparr>pk_once = False, pk_family = 0\<rparr>"

text \<open>\<^verbatim>\<open>getIPVSFamily\<close> with the socket it opens for itself.\<close>

definition ask_family :: "nl_lib \<Rightarrow> 'v nl_conn \<Rightarrow> nat \<Rightarrow> go_error + 'v \<Rightarrow> (go_error, uint16) outcome" where
  "ask_family L C fuel sock = (case sock of Inl err \<Rightarrow> Err err | Inr s \<Rightarrow> fst (getIPVSFamily L C fuel s))"

text \<open>
  \<^verbatim>\<open>setup\<close>, given the answer of \<^verbatim>\<open>getIPVSFamily\<close> at that time. What \<^verbatim>\<open>modprobe\<close> says is only logged, and so is an error;
  a panic inside \<^verbatim>\<open>Once.Do\<close> counts as a run.
\<close>

definition setup_once :: "(go_error, uint16) outcome \<Rightarrow> ipvs_pkg \<Rightarrow> (go_error, unit) outcome \<times> ipvs_pkg" where
  "setup_once found pk =
     (if pk_once pk then (Ret (), pk)
      else case found of
             Ret f \<Rightarrow> (Ret (), \<lparr>pk_once = True, pk_family = f\<rparr>)
           | Err e \<Rightarrow> (Ret (), \<lparr>pk_once = True, pk_family = 0\<rparr>)
           | Panic \<Rightarrow> (Panic, pk\<lparr>pk_once := True\<rparr>)
           | Stuck \<Rightarrow> (Stuck, pk))"

text \<open>Opening handles, one after the other, with the answers the kernel would give at each time.\<close>

fun setups :: "(go_error, uint16) outcome list \<Rightarrow> ipvs_pkg \<Rightarrow> ipvs_pkg" where
  "setups [] pk = pk"
| "setups (a # as) pk = setups as (snd (setup_once a pk))"

lemma setups_done: "pk_once pk \<Longrightarrow> setups as pk = pk"
  by (induction as) (simp_all add: setup_once_def)

text \<open>
  The family is asked once: when the kernel cannot tell it to the first handle (IPVS is not loaded yet), every later
  handle of the process sends its requests to the family 0, whatever the kernel would answer by then. Opening a handle
  succeeds all the same.
\<close>

lemma family_is_never_refreshed:
  "setup_once (Err e) ipvs_pkg0 = (Ret (), setups [Err e] ipvs_pkg0) \<and>
   pk_family (setups (Err e # answers) ipvs_pkg0) = 0 \<and>
   rq_Type (newIPVSRequest mem_conn (pk_family (setups (Err e # answers) ipvs_pkg0)) cmd) = 0 \<and>
   pk_family (setups (Ret f # answers) ipvs_pkg0) = f"
  by (simp add: setups_done setup_once_def ipvs_pkg0_def newIPVSRequest_def newGenlRequest_def AddData_def mem_conn_def)

section \<open>Opening a handle\<close>

text \<open>\<^verbatim>\<open>New\<close>: the namespace of a path is open only while the handle is made; without a path there is none to close.\<close>

definition New ::
  "('l, 'v, 'd) libs \<Rightarrow> (string \<Rightarrow> go_error option) \<Rightarrow> string \<Rightarrow> open_handles \<Rightarrow>
   (go_error, 'v ipvs_intf) outcome \<times> open_handles" where
  "New L GetFromPath path hs =
     (if path \<noteq> [] then
        (case GetFromPath path of
           Some err \<Rightarrow> (Err err, hs)
         | None \<Rightarrow> (case NewInNamespace L (acquire Res_namespace hs) of (r, hs) \<Rightarrow> (r, release Res_namespace hs)))
      else NewInNamespace L hs)"

lemma New_opens_one_socket:
  assumes "New L GetFromPath path hs = (Ret v, hs')"
  shows "v = li_ipvs L \<and> hs' = Res_socket # hs"
  using assms by (auto simp: New_def NewInNamespace_def acquire_def release_def Let_def split: if_splits option.splits prod.splits)

end
