(* ===== verification/Ns_Init.thy ===== *)
theory Ns_Init
  imports Prelude Go_Net
begin

text \<open>
  The package \<^verbatim>\<open>internal/ipvs/ns\<close> (\<^verbatim>\<open>init_linux.go\<close>): the namespace and the netlink handle the process starts in, made
  once. The calls of the operating system and of the netlink library are parameters.
\<close>

record 'h ns_libs =
  os_Get :: "int \<times> go_error option"
  os_Set :: "int \<Rightarrow> go_error option"
  os_NewHandle :: "int list \<Rightarrow> 'h option \<times> go_error option"
  os_SetSocketTimeout :: "'h option \<Rightarrow> (go_error, unit) outcome"
  os_Socket :: "int \<Rightarrow> go_error + int"
  os_modprobe :: "string \<Rightarrow> string \<times> go_error option"
  os_Readlink :: "go_error + string"
  os_text :: "go_error \<Rightarrow> string"

record 'h ns_state =
  ns_initNs :: int
  ns_initNl :: "'h option"
  ns_once :: bool

text \<open>Constants of \<^verbatim>\<open>golang.org/x/sys/unix\<close>.\<close>

definition NETLINK_ROUTE :: int where "NETLINK_ROUTE = 0"
definition NETLINK_XFRM :: int where "NETLINK_XFRM = 6"
definition NETLINK_NETFILTER :: int where "NETLINK_NETFILTER = 12"

section \<open>Supported families\<close>

definition checkXfrmSocket :: "'h ns_libs \<Rightarrow> go_error option" where
  "checkXfrmSocket L = (case os_Socket L NETLINK_XFRM of Inl err \<Rightarrow> Some err | Inr fd \<Rightarrow> None)"

definition checkNfSocket :: "'h ns_libs \<Rightarrow> go_error option" where
  "checkNfSocket L = (case os_Socket L NETLINK_NETFILTER of Inl err \<Rightarrow> Some err | Inr fd \<Rightarrow> None)"

definition modprobe_failed :: "'h ns_libs \<Rightarrow> string \<Rightarrow> string \<Rightarrow> go_error \<Rightarrow> go_error" where
  "modprobe_failed L name out err =
     ErrText (''Running modprobe '' @ name @ '' failed with message: `'' @ out @ ''`, error: '' @ os_text L err)"

definition loadNfConntrackModules :: "'h ns_libs \<Rightarrow> go_error option" where
  "loadNfConntrackModules L =
     (case os_modprobe L ''nf_conntrack'' of
        (out, Some err) \<Rightarrow> Some (modprobe_failed L ''nf_conntrack'' out err)
      | (_, None) \<Rightarrow>
          (case os_modprobe L ''nf_conntrack_netlink'' of
             (out, Some err) \<Rightarrow> Some (modprobe_failed L ''nf_conntrack_netlink'' out err)
           | (_, None) \<Rightarrow> None))"

definition getSupportedNlFamilies :: "'h ns_libs \<Rightarrow> int list" where
  "getSupportedNlFamilies L =
     (let fams = [NETLINK_ROUTE];
          fams = (case checkXfrmSocket L of Some err \<Rightarrow> fams | None \<Rightarrow> fams @ [NETLINK_XFRM])
      in case loadNfConntrackModules L of
           Some err \<Rightarrow> if checkNfSocket L \<noteq> None then fams else fams @ [NETLINK_NETFILTER]
         | None \<Rightarrow> fams @ [NETLINK_NETFILTER])"

section \<open>The initial namespace\<close>

text \<open>Errors are only logged; the handle is nil when it could not be made, and gets its timeout all the same.\<close>

definition Init :: "'h ns_libs \<Rightarrow> 'h ns_state \<Rightarrow> (go_error, unit) outcome \<times> 'h ns_state" where
  "Init L st =
     (let st = st\<lparr>ns_initNs := fst (os_Get L)\<rparr>;
          st = st\<lparr>ns_initNl := fst (os_NewHandle L (getSupportedNlFamilies L))\<rparr>
      in case os_SetSocketTimeout L (ns_initNl st) of
           Panic \<Rightarrow> (Panic, st) | Stuck \<Rightarrow> (Stuck, st) | _ \<Rightarrow> (Ret (), st))"

definition init_once :: "'h ns_libs \<Rightarrow> 'h ns_state \<Rightarrow> (go_error, unit) outcome \<times> 'h ns_state" where
  "init_once L st =
     (if ns_once st then (Ret (), st)
      else case Init L st of (r, st) \<Rightarrow> (r, st\<lparr>ns_once := True\<rparr>))"

definition getLink :: "'h ns_libs \<Rightarrow> go_error + string" where
  "getLink L = os_Readlink L"

definition SetNamespace :: "'h ns_libs \<Rightarrow> 'h ns_state \<Rightarrow> (go_error, unit) outcome \<times> 'h ns_state" where
  "SetNamespace L st =
     sbind (init_once L st) (\<lambda>_ st.
       (case os_Set L (ns_initNs st) of
          Some err \<Rightarrow>
            (let linkInfo = (case getLink L of Inl linkErr \<Rightarrow> os_text L linkErr | Inr linkInfo \<Rightarrow> linkInfo)
             in Err (ErrText (''failed to set to initial namespace, '' @ linkInfo @ '', initns fd '' @
                  print_int (ns_initNs st) @ '': '' @ os_text L err)))
        | None \<Rightarrow> Ret (), st))"

definition getHandler :: "'h ns_libs \<Rightarrow> 'h ns_state \<Rightarrow> (go_error, int) outcome \<times> 'h ns_state" where
  "getHandler L st = sbind (init_once L st) (\<lambda>_ st. (Ret (ns_initNs st), st))"

definition ParseHandlerInt :: "'h ns_libs \<Rightarrow> 'h ns_state \<Rightarrow> (go_error, int) outcome \<times> 'h ns_state" where
  "ParseHandlerInt L st = getHandler L st"

definition NlHandle :: "'h ns_libs \<Rightarrow> 'h ns_state \<Rightarrow> (go_error, 'h option) outcome \<times> 'h ns_state" where
  "NlHandle L st = sbind (init_once L st) (\<lambda>_ st. (Ret (ns_initNl st), st))"

section \<open>What holds\<close>

lemma families:
  "distinct (getSupportedNlFamilies L) \<and> hd (getSupportedNlFamilies L) = NETLINK_ROUTE \<and>
   (NETLINK_XFRM \<in> set (getSupportedNlFamilies L) \<longleftrightarrow> checkXfrmSocket L = None) \<and>
   (NETLINK_NETFILTER \<in> set (getSupportedNlFamilies L) \<longleftrightarrow> loadNfConntrackModules L = None \<or> checkNfSocket L = None)"
  by (auto simp: getSupportedNlFamilies_def NETLINK_ROUTE_def NETLINK_XFRM_def NETLINK_NETFILTER_def Let_def split: option.splits)

text \<open>The first caller decides: what any later call sees does not depend on the libraries any more.\<close>

lemma init_once_done:
  assumes "init_once L st = (r, st')" "r \<noteq> Stuck"
  shows "init_once L' st' = (Ret (), st')"
  using assms by (auto simp: init_once_def split: if_splits prod.splits)

lemma handles_stay:
  assumes "getHandler L st = (Ret h, st')"
  shows "getHandler L' st' = (Ret h, st') \<and> fst (NlHandle L' st') = Ret (ns_initNl st')"
proof -
  obtain r st1 where i: "init_once L st = (r, st1)" by fastforce
  with assms have "r = Ret ()" "st1 = st'" "h = ns_initNs st'" by (cases r; simp add: getHandler_def)+
  with i have "init_once L' st' = (Ret (), st')" using init_once_done[of L st r st1 L'] by simp
  then show ?thesis using \<open>h = ns_initNs st'\<close> by (simp add: getHandler_def NlHandle_def)
qed

end
