(* ===== verification/Credentials.thy ===== *)
theory Credentials
  imports Prelude
begin

text \<open>
  The mTLS credentials of the three programs: \<^verbatim>\<open>loadKeypair\<close> of \<^verbatim>\<open>internal/proxmox/provider.go\<close> and of
  \<^verbatim>\<open>cmd/lbctl/main.go\<close>, and \<^verbatim>\<open>newGRPCCreds\<close> of \<^verbatim>\<open>cmd/lbmanager/main.go\<close>. The result is Go's pair of
  credentials (\<^verbatim>\<open>nil\<close> or not) and error (\<^verbatim>\<open>nil\<close> or not). Files and certificates are read by the
  parameter \<open>tls_libs\<close>.
\<close>

record ('c, 'p) tls_libs =
  tl_LoadX509KeyPair :: "string \<Rightarrow> string \<Rightarrow> go_error + 'c"
  tl_ReadFile :: "string \<Rightarrow> go_error + string"
  tl_AppendCertsFromPEM :: "string \<Rightarrow> 'p option"

text \<open>A certificate and a pool that the peer is checked against; \<open>cr_RequireClient\<close> is \<^verbatim>\<open>RequireAndVerifyClientCert\<close>.\<close>

record ('c, 'p) tls_creds =
  cr_Certificate :: 'c
  cr_Pool :: 'p
  cr_RequireClient :: bool

type_synonym ('c, 'p) creds_result = "('c, 'p) tls_creds option \<times> go_error option"

text \<open>The steps the three functions share: the pair, the file of the CA, the pool; the error a failed pool returns is the last one, \<^verbatim>\<open>nil\<close>.\<close>

definition keypair_creds :: "('c, 'p) tls_libs \<Rightarrow> bool \<Rightarrow> string \<Rightarrow> string \<Rightarrow> string \<Rightarrow> ('c, 'p) creds_result" where
  "keypair_creds T server certFile keyFile caFile =
     (case tl_LoadX509KeyPair T certFile keyFile of
        Inl err \<Rightarrow> (None, Some err)
      | Inr cert \<Rightarrow>
          (case tl_ReadFile T caFile of
             Inl err \<Rightarrow> (None, Some err)
           | Inr data \<Rightarrow>
               (case tl_AppendCertsFromPEM T data of
                  None \<Rightarrow> (None, None)
                | Some capool \<Rightarrow>
                    (Some \<lparr>cr_Certificate = cert, cr_Pool = capool, cr_RequireClient = server\<rparr>, None))))"

record security =
  sec_CertFile :: string
  sec_KeyFile :: string
  sec_CAFile :: string

definition loadKeypair :: "('c, 'p) tls_libs \<Rightarrow> security \<Rightarrow> ('c, 'p) creds_result" where
  "loadKeypair T sec =
     keypair_creds T False (sec_CertFile sec) (if sec_KeyFile sec = [] then sec_CertFile sec else sec_KeyFile sec) (sec_CAFile sec)"

definition newGRPCCreds :: "('c, 'p) tls_libs \<Rightarrow> string \<Rightarrow> string \<Rightarrow> string \<Rightarrow> ('c, 'p) creds_result" where
  "newGRPCCreds T certFile keyFile caFile = keypair_creds T True certFile keyFile caFile"

text \<open>The command line of \<^verbatim>\<open>lbctl\<close>; a flag that is not given is read from the configuration.\<close>

record ctl_flags =
  fl_cert :: string
  fl_key :: string
  fl_ca :: string
  fl_addr :: string
  fl_name :: string
  fl_op :: string
  fl_srv :: string
  fl_tcp :: bool
  fl_dport :: int
  fl_sport :: int

definition ctl_loadKeypair :: "('c, 'p) tls_libs \<Rightarrow> (string \<Rightarrow> string) \<Rightarrow> ctl_flags \<Rightarrow> ('c, 'p) creds_result" where
  "ctl_loadKeypair T k f =
     (let key = (if fl_key f = [] then k ''auth.clientKey'' else fl_key f);
          cert = (if fl_cert f = [] then k ''auth.clientCert'' else fl_cert f);
          key = (if key = [] then cert else key);
          ca = (if fl_ca f = [] then k ''auth.caFile'' else fl_ca f)
      in if key = [] \<or> cert = [] \<or> ca = [] then (None, Some (ErrText ''no mTLS configuration found''))
         else keypair_creds T False cert key ca)"

lemma bad_pool:
  assumes "tl_LoadX509KeyPair T cert key = Inr c" "tl_ReadFile T ca = Inr d" "tl_AppendCertsFromPEM T d = None"
  shows "keypair_creds T b cert key ca = (None, None)"
  using assms by (simp add: keypair_creds_def)

end
