(* ===== verification/Commands.thy ===== *)
theory Commands
  imports Credentials Lb_Setup Lb_Client
begin

text \<open>
  The two commands: \<^verbatim>\<open>cmd/lbmanager/main.go\<close>, which starts the server, and \<^verbatim>\<open>cmd/lbctl/main.go\<close>, which makes
  one call of it. \<^verbatim>\<open>log.Fatalf\<close> ends the process; what happens inside the gRPC library after \<^verbatim>\<open>Serve\<close> or
  behind a client is not modelled here.
\<close>

section \<open>The manager\<close>

text \<open>The process ends with a fatal message, panics, or serves with credentials (or none) in a state.\<close>

datatype ('c, 'p, 'l, 'v, 'd) manager_run =
    Fatal string
  | Process_panic
  | Serving "('c, 'p) tls_creds option" "('l, 'v, 'd) lbServer" "('l, 'v, 'd) world"

text \<open>\<^verbatim>\<open>config\<close> is \<^verbatim>\<open>koanf.MustString\<close>, \<^verbatim>\<open>port\<close> is \<^verbatim>\<open>MustInt\<close>, \<^verbatim>\<open>listen\<close> is \<^verbatim>\<open>net.Listen\<close>.\<close>

fun must :: "(go_error, 'a) outcome \<Rightarrow> ('a \<Rightarrow> ('c, 'p, 'l, 'v, 'd) manager_run) \<Rightarrow> ('c, 'p, 'l, 'v, 'd) manager_run" where
  "must (Ret a) f = f a"
| "must _ f = Process_panic"

definition manager_main ::
  "('c, 'p) tls_libs \<Rightarrow> ('l, 'v, 'd) libs \<Rightarrow> config \<Rightarrow> (go_error, int) outcome \<Rightarrow> (string \<Rightarrow> go_error option) \<Rightarrow>
   open_handles \<Rightarrow> ('l, 'v, 'd) world \<Rightarrow> ('c, 'p, 'l, 'v, 'd) manager_run" where
  "manager_main T L config port listen hs w =
     must (config ''grpc.auth.cert'') (\<lambda>cert.
     must (config ''grpc.auth.key'') (\<lambda>key.
     must (config ''grpc.auth.ca'') (\<lambda>ca.
     case newGRPCCreds T cert key ca of
       (_, Some err) \<Rightarrow> Fatal ''error initializing TLS''
     | (creds, None) \<Rightarrow>
         must (config ''grpc.listen'') (\<lambda>host.
         must port (\<lambda>p.
         case listen (host @ '':'' @ print_int p) of
           Some err \<Rightarrow> Fatal ''failed listening''
         | None \<Rightarrow>
             (case NewServer L config hs of
                (Err err, _) \<Rightarrow> Fatal ''failed starting the loadbalancer manager''
              | (Ret lbServer, _) \<Rightarrow>
                  (case Restore lbServer w of
                     (Err err, _) \<Rightarrow> Fatal ''failed restoring the loadbalancer configuration''
                   | (Ret _, w) \<Rightarrow> Serving creds lbServer w
                   | _ \<Rightarrow> Process_panic)
              | _ \<Rightarrow> Process_panic))))))"

text \<open>
  C39. When the CA file of the manager can be read but holds no certificate, \<^verbatim>\<open>newGRPCCreds\<close> returns \<^verbatim>\<open>nil\<close>
  credentials with a \<^verbatim>\<open>nil\<close> error, and the manager goes on and serves without credentials: no TLS, and no
  client is asked for a certificate.
\<close>

theorem manager_without_CA_serves_anyone:
  assumes "config ''grpc.auth.cert'' = Ret cert" "config ''grpc.auth.key'' = Ret key" "config ''grpc.auth.ca'' = Ret ca"
    and "tl_LoadX509KeyPair T cert key = Inr c" "tl_ReadFile T ca = Inr pem" "tl_AppendCertsFromPEM T pem = None"
    and "config ''grpc.listen'' = Ret host" "listen (host @ '':'' @ print_int port) = None"
    and "NewServer L config hs = (Ret srv, hs')" "Restore srv w = (Ret (), w')"
  shows "newGRPCCreds T cert key ca = (None, None) \<and>
    manager_main T L config (Ret port) listen hs w = Serving None srv w'"
  using assms by (simp add: manager_main_def newGRPCCreds_def bad_pool)

text \<open>Everything as in the development configuration, but an empty CA file.\<close>

definition empty_ca :: "(unit, unit) tls_libs" where
  "empty_ca = \<lparr>tl_LoadX509KeyPair = (\<lambda>c k. Inr ()), tl_ReadFile = (\<lambda>f. Inr []),
     tl_AppendCertsFromPEM = (\<lambda>d. if d = [] then None else Some ())\<rparr>"

definition main_config :: config where
  "main_config k =
     (if k = ''grpc.auth.cert'' then Ret ''certs/lbmanager-dev.pem'' else if k = ''grpc.auth.key'' then Ret ''certs/lbmanager-dev.pem''
      else if k = ''grpc.auth.ca'' then Ret ''certs/ca.pem'' else if k = ''grpc.listen'' then Ret ''0.0.0.0''
      else dev_config k)"

lemma main_NewServer:
  "NewServer (dev_libs ipv) main_config hs = (Ret (dev_server ipv), [Res_database, Res_socket, Res_netlink, Res_namespace] @ hs)"
proof -
  have same: "main_config ''loadbalancer.ipam.cidr'' = dev_config ''loadbalancer.ipam.cidr''"
    "main_config ''loadbalancer.namespace'' = dev_config ''loadbalancer.namespace''"
    "main_config ''loadbalancer.externalInterface'' = dev_config ''loadbalancer.externalInterface''"
    "main_config ''dbDir'' = dev_config ''dbDir''" by (simp_all add: main_config_def)
  have "ipam_New main_config = ipam_New dev_config" by (simp add: ipam_New_def main_config_def)
  then show ?thesis using dev_NewServer[of ipv hs] unfolding NewServer_def same by simp
qed

lemma manager_without_CA_serves_anyone_witness:
  "newGRPCCreds empty_ca ''certs/lbmanager-dev.pem'' ''certs/lbmanager-dev.pem'' ''certs/ca.pem'' = (None, None) \<and>
   manager_main empty_ca (dev_libs mem_ipvs) main_config (Ret 9999) (\<lambda>a. None) [] demo_w0 =
     Serving None (dev_server mem_ipvs) demo_w0"
proof -
  have c: "main_config ''grpc.auth.cert'' = Ret ''certs/lbmanager-dev.pem''" "main_config ''grpc.auth.key'' = Ret ''certs/lbmanager-dev.pem''"
    "main_config ''grpc.auth.ca'' = Ret ''certs/ca.pem''" by (simp_all add: main_config_def)
  have t: "tl_LoadX509KeyPair empty_ca ''certs/lbmanager-dev.pem'' ''certs/lbmanager-dev.pem'' = Inr ()"
    "tl_ReadFile empty_ca ''certs/ca.pem'' = Inr []" "tl_AppendCertsFromPEM empty_ca [] = None" by (simp_all add: empty_ca_def)
  have h: "main_config ''grpc.listen'' = Ret ''0.0.0.0''" by (simp add: main_config_def)
  have r: "Restore (dev_server mem_ipvs) demo_w0 = (Ret (), demo_w0)"
    by (simp add: Restore_def dev_server_def demo_w0_def mem_db_def)
  show ?thesis by (rule manager_without_CA_serves_anyone[OF c t h refl main_NewServer r])
qed

section \<open>The command line client\<close>

text \<open>What a run of \<^verbatim>\<open>lbctl\<close> says: nothing but a message, or a fatal one.\<close>

datatype ctl_run = Ctl_fatal string | Ctl_message string | Ctl_success | Ctl_listing "lb_info list"

definition ctl_reply :: "string \<Rightarrow> (go_error + lb_error) \<times> 's \<Rightarrow> ctl_run \<times> 's" where
  "ctl_reply what r =
     (case r of
        (Inl err, s) \<Rightarrow> (Ctl_fatal what, s)
      | (Inr ret, s) \<Rightarrow> (if err_Message ret \<noteq> [] then Ctl_message (err_Message ret) else Ctl_success, s))"

definition ctl_target :: "ctl_flags \<Rightarrow> target_req" where
  "ctl_target f =
     \<lparr>req_LbName = fl_name f, req_SrcPort = word_of_int (fl_sport f),
      req_Target = Some \<lparr>tgt_Protocol = (if fl_tcp f then Protocol_TCP else Protocol_UDP), tgt_DstIP = fl_srv f,
        tgt_DstPort = word_of_int (fl_dport f)\<rparr>\<rparr>"

text \<open>The messages of the list stream, up to its end or its first error.\<close>

fun ctl_list :: "(go_error + lb_info) list \<Rightarrow> lb_info list \<Rightarrow> ctl_run" where
  "ctl_list [] seen = Ctl_listing seen"
| "ctl_list (Inl e # ms) seen = Ctl_fatal ''Error listing load balancers''"
| "ctl_list (Inr l # ms) seen = ctl_list ms (seen @ [l])"

definition ctl_main ::
  "('c, 'p) tls_libs \<Rightarrow> (string \<Rightarrow> string) \<Rightarrow> (string \<Rightarrow> ('c, 'p) tls_creds option \<Rightarrow> go_error option) \<Rightarrow>
   's lb_client \<Rightarrow> ('s \<Rightarrow> go_error + (go_error + lb_info) list) \<Rightarrow> ctl_flags \<Rightarrow> 's \<Rightarrow> ctl_run \<times> 's" where
  "ctl_main T k dial client list_stream f s =
     (if fl_name f = [] \<and> fl_op f \<noteq> ''list'' then (Ctl_fatal ''no loadbalancer name provided.'', s)
      else case ctl_loadKeypair T k f of
        (_, Some err) \<Rightarrow> (Ctl_fatal ''error loading mTLS configuration'', s)
      | (creds, None) \<Rightarrow>
          (case dial (if fl_addr f = [] then k ''addr'' else fl_addr f) creds of
             Some err \<Rightarrow> (Ctl_fatal ''error connecting to lbmanager'', s)
           | None \<Rightarrow>
               if fl_op f = ''addSrv'' then
                 (case cl_Create client \<lparr>clb_Name = fl_name f, clb_IpAddr = Some (fl_srv f)\<rparr> s of
                    (Inl err, s) \<Rightarrow> (Ctl_fatal ''Error during create'', s)
                  | (Inr lbInfo, s) \<Rightarrow> (Ctl_listing [lbInfo], s))
               else if fl_op f = ''delSrv'' then ctl_reply ''Error during delete'' (cl_Delete client (fl_name f) s)
               else if fl_op f = ''addTgt'' then ctl_reply ''Error adding destination'' (cl_AddTarget client (ctl_target f) s)
               else if fl_op f = ''delTgt'' then ctl_reply ''Error deleting destination'' (cl_DelTarget client (ctl_target f) s)
               else if fl_op f = ''list'' then
                 (case list_stream s of
                    Inl err \<Rightarrow> (Ctl_fatal ''Failed to list load balancers'', s)
                  | Inr ms \<Rightarrow> (ctl_list ms [], s))
               else (Ctl_fatal ''Unknown operation'', s)))"

text \<open>A run that does not get past its checks leaves the server alone.\<close>

lemma ctl_refused_calls_nothing:
  assumes "fl_name f = [] \<and> fl_op f \<noteq> ''list'' \<or> snd (ctl_loadKeypair T k f) \<noteq> None"
  shows "\<exists>msg. ctl_main T k dial client stream f s = (Ctl_fatal msg, s)"
  using assms by (auto simp: ctl_main_def split: prod.splits option.splits)

end
