(* ===== verification/Go_Url.thy ===== *)
theory Go_Url
  imports Prelude
begin

text \<open>
  The parts of Go's \<^verbatim>\<open>strings\<close> and \<^verbatim>\<open>net/url\<close> (Go 1.20) the cloud controller uses: splitting, cutting, and
  the path of a parsed URL. Of a URL only its path and whether it is refused are modelled.
\<close>

section \<open>Strings\<close>

fun split_on :: "char \<Rightarrow> string \<Rightarrow> string list" where
  "split_on c [] = [[]]"
| "split_on c (x # xs) =
     (if x = c then [] # split_on c xs
      else (case split_on c xs of [] \<Rightarrow> [[x]] | y # ys \<Rightarrow> (x # y) # ys))"

text \<open>\<^verbatim>\<open>strings.Cut\<close>: what is before and after the first separator, and whether there is one.\<close>

definition cut :: "char \<Rightarrow> string \<Rightarrow> string \<times> string \<times> bool" where
  "cut c s = (takeWhile (\<lambda>x. x \<noteq> c) s, tl (dropWhile (\<lambda>x. x \<noteq> c) s), c \<in> set s)"

definition has_prefix :: "string \<Rightarrow> string \<Rightarrow> bool" where
  "has_prefix p s \<longleftrightarrow> take (length p) s = p"

text \<open>The part before the last separator and the part from it on, if there is one.\<close>

definition cut_last :: "char \<Rightarrow> string \<Rightarrow> (string \<times> string) option" where
  "cut_last c s =
     (if c \<in> set s then
        (let r = takeWhile (\<lambda>x. x \<noteq> c) (rev s) in Some (take (length s - Suc (length r)) s, c # rev r))
      else None)"

text \<open>\<^verbatim>\<open>strconv.Atoi\<close>: a decimal number of 64 bits.\<close>

definition Atoi :: "string \<Rightarrow> int option" where
  "Atoi s = (case parse_int s of None \<Rightarrow> None | Some i \<Rightarrow> if - (2 ^ 63) \<le> i \<and> i < 2 ^ 63 then Some i else None)"

section \<open>URLs\<close>

definition is_letter :: "char \<Rightarrow> bool" where
  "is_letter c = (let k = of_char c :: nat in 97 \<le> k \<and> k \<le> 122 \<or> 65 \<le> k \<and> k \<le> 90)"

text \<open>What unescaping checks depends on the part of the URL.\<close>

datatype url_part = In_path | In_host | In_zone

definition host_char :: "char \<Rightarrow> bool" where
  "host_char c \<longleftrightarrow> is_letter c \<or> is_digit 10 c \<or> c \<in> set ''!$&()*+,;=:[]<>-_.~'' \<or> c = CHR 0x27 \<or> c = CHR 0x22"

fun unescape :: "url_part \<Rightarrow> string \<Rightarrow> string option" where
  "unescape m [] = Some []"
| "unescape m (c # r) =
     (if c = CHR ''%'' then
        (case r of
           a # b # r' \<Rightarrow>
             if \<not> is_digit 16 a \<or> \<not> is_digit 16 b then None
             else let v = char_of (16 * the (digit_val a) + the (digit_val b)) in
               if m = In_host \<and> the (digit_val a) < 8 \<and> \<not> (a = CHR ''2'' \<and> b = CHR ''5'') then None
               else if m = In_zone \<and> \<not> (a = CHR ''2'' \<and> b = CHR ''5'') \<and> v \<noteq> CHR '' '' \<and> \<not> host_char v then None
               else map_option (\<lambda>t. v # t) (unescape m r')
         | _ \<Rightarrow> None)
      else if (m = In_host \<or> m = In_zone) \<and> of_char c < (0x80 :: nat) \<and> \<not> host_char c then None
      else map_option (\<lambda>t. c # t) (unescape m r))"

text \<open>The scheme of a URL and the rest; a URL that starts with a colon is refused.\<close>

fun getScheme :: "string \<Rightarrow> string \<Rightarrow> string \<Rightarrow> (string \<times> string) option" where
  "getScheme raw seen [] = Some ([], raw)"
| "getScheme raw seen (c # s) =
     (if is_letter c then getScheme raw (seen @ [c]) s
      else if is_digit 10 c \<or> c \<in> set ''+-.'' then (if seen = [] then Some ([], raw) else getScheme raw (seen @ [c]) s)
      else if c = CHR '':'' then (if seen = [] then None else Some (seen, s))
      else Some ([], raw))"

definition validOptionalPort :: "string \<Rightarrow> bool" where
  "validOptionalPort p \<longleftrightarrow> p = [] \<or> hd p = CHR '':'' \<and> list_all (is_digit 10) (tl p)"

fun find_zone :: "nat \<Rightarrow> string \<Rightarrow> nat option" where
  "find_zone i [] = None"
| "find_zone i (c # s) = (if has_prefix ''%25'' (c # s) then Some i else find_zone (Suc i) s)"

definition parseHost_ok :: "string \<Rightarrow> bool" where
  "parseHost_ok host \<longleftrightarrow>
     (if has_prefix ''['' host then
        (case cut_last CHR '']'' host of
           None \<Rightarrow> False
         | Some (inner, rest) \<Rightarrow>
             validOptionalPort (tl rest) \<and>
             (case find_zone 0 inner of
                Some z \<Rightarrow> unescape In_host (take z inner) \<noteq> None \<and> unescape In_zone (drop z inner) \<noteq> None \<and>
                  unescape In_host rest \<noteq> None
              | None \<Rightarrow> unescape In_host host \<noteq> None))
      else (case cut_last CHR '':'' host of None \<Rightarrow> True | Some (_, port) \<Rightarrow> validOptionalPort port) \<and>
        unescape In_host host \<noteq> None)"

definition userinfo_char :: "char \<Rightarrow> bool" where
  "userinfo_char c \<longleftrightarrow> is_letter c \<or> is_digit 10 c \<or> c \<in> set ''-._:~!$&()*+,;=%@'' \<or> c = CHR 0x27"

definition parseAuthority_ok :: "string \<Rightarrow> bool" where
  "parseAuthority_ok a \<longleftrightarrow>
     (case cut_last CHR ''@'' a of
        None \<Rightarrow> parseHost_ok a
      | Some (user, host) \<Rightarrow> parseHost_ok (tl host) \<and> list_all userinfo_char user \<and>
          unescape In_path (fst (cut CHR '':'' user)) \<noteq> None \<and> unescape In_path (fst (snd (cut CHR '':'' user))) \<noteq> None)"

definition url_parse :: "string \<Rightarrow> string option" where
  "url_parse raw =
     (if list_ex (\<lambda>c. of_char c < (0x20 :: nat) \<or> c = CHR 0x7F) raw then None
      else if raw = ''*'' then Some ''*''
      else case getScheme raw [] raw of
        None \<Rightarrow> None
      | Some (scheme, rest0) \<Rightarrow>
          (let rest = fst (cut CHR ''?'' rest0) in
           if \<not> has_prefix ''/'' rest \<and> scheme \<noteq> [] then Some []
           else if \<not> has_prefix ''/'' rest \<and> CHR '':'' \<in> set (fst (cut CHR ''/'' rest)) then None
           else if (scheme \<noteq> [] \<or> \<not> has_prefix ''///'' rest) \<and> has_prefix ''//'' rest then
             (let authority = takeWhile (\<lambda>c. c \<noteq> CHR ''/'') (drop 2 rest) in
              if parseAuthority_ok authority then unescape In_path (drop (length authority) (drop 2 rest)) else None)
           else unescape In_path rest))"

text \<open>\<^verbatim>\<open>url.Parse(s)\<close>: the path, or \<^verbatim>\<open>None\<close> for an error.\<close>

definition url_Path :: "string \<Rightarrow> string option" where
  "url_Path s =
     (let (u, frag, found) = cut CHR ''#'' s in
      case url_parse u of
        None \<Rightarrow> None
      | Some p \<Rightarrow> if unescape In_path frag = None then None else Some p)"

section \<open>Facts\<close>

lemma split_on_no: "c \<notin> set s \<Longrightarrow> split_on c s = [s]"
  by (induction s) auto

lemma split_on_append: "c \<notin> set a \<Longrightarrow> split_on c (a @ c # s) = a # split_on c s"
  by (induction a) auto

lemma cut_no: "c \<notin> set s \<Longrightarrow> cut c s = (s, [], False)"
  by (induction s) (auto simp: cut_def)

lemma unescape_plain: "CHR ''%'' \<notin> set s \<Longrightarrow> unescape In_path s = Some s"
  by (induction s) auto

lemma Atoi_print: "- (2 ^ 63) \<le> i \<Longrightarrow> i < 2 ^ 63 \<Longrightarrow> Atoi (print_int i) = Some i"
  by (simp add: Atoi_def)

lemma url_path_samples:
  "url_Path ''proxmox:///pve-1/100'' = Some ''/pve-1/100''" "url_Path ''proxmox://host:80x/a'' = None"
  "url_Path ''aws:///a%2Fb?x#y'' = Some ''/a/b''" "url_Path ''pve-1/100'' = Some ''pve-1/100''"
  "url_Path ''mailto:x'' = Some []" "url_Path '':x'' = None" "url_Path ''//[fe80::1%25eth0]:8/p'' = Some ''/p''"
  by code_simp+

end
