(* ===== verification/Ccm_Instances.thy ===== *)
theory Ccm_Instances
  imports Ccm_LoadBalancer Go_Url Complex_Main "HOL-Library.Multiset"
begin

text \<open>
  \<^verbatim>\<open>internal/proxmox/instance.go\<close>: the cloud controller's view of virtual machines. The Proxmox API client
  is the parameter \<open>px_client\<close>: what it answers while a call runs. An answer is a Go map, here its
  entries in the order an iteration happens to visit them.
\<close>

section \<open>Values of the API\<close>

text \<open>An \<^verbatim>\<open>any\<close> of a decoded JSON document: a string, a (finite) \<^verbatim>\<open>float64\<close> of the range of \<^verbatim>\<open>int\<close>, or something else.\<close>

datatype any = AnyString string | AnyFloat rat | AnyOther

type_synonym vm_map = "(string \<times> any) list"

text \<open>\<open>'r\<close> is the type of VM references of the library.\<close>

record 'r px_client =
  px_NewVmRef :: "int \<Rightarrow> 'r"
  px_GetVmRefByName :: "string \<Rightarrow> go_error + 'r option"
  px_GetVmInfo :: "'r \<Rightarrow> go_error + vm_map"
  px_GetVmConfig :: "'r \<Rightarrow> go_error + vm_map"

record 'r Instances =
  inst_client :: "'r px_client option"

text \<open>A node, as far as it is read, and the metadata reported for it.\<close>

record vm_node =
  nd_Name :: string
  nd_ProviderID :: string

definition NodeHostName :: string where "NodeHostName = ''Hostname''"

lemma address_types [simp]: "NodeHostName \<noteq> NodeInternalIP" "NodeInternalIP \<noteq> NodeHostName"
  by (simp_all add: NodeHostName_def NodeInternalIP_def)

abbreviation node_addr :: "string \<Rightarrow> string \<Rightarrow> node_address" where
  "node_addr ty a \<equiv> \<lparr>na_Type = ty, na_Address = a\<rparr>"

record instance_metadata =
  md_ProviderID :: string
  md_InstanceType :: string
  md_NodeAddresses :: "node_address list"
  md_Zone :: string

section \<open>Provider IDs\<close>

definition as_string :: "any option \<Rightarrow> string" where
  "as_string v = (case v of Some (AnyString s) \<Rightarrow> s | _ \<Rightarrow> [])"

text \<open>\<^verbatim>\<open>int(f)\<close> truncates.\<close>

definition go_int :: "rat \<Rightarrow> int" where
  "go_int r = (if 0 \<le> r then \<lfloor>r\<rfloor> else \<lceil>r\<rceil>)"

definition getProviderID :: "vm_map \<Rightarrow> string" where
  "getProviderID info =
     (let nodeName = as_string (map_of info ''node'');
          vmid = (case map_of info ''vmid'' of Some (AnyFloat f) \<Rightarrow> f | _ \<Rightarrow> 0)
      in ''proxmox://'' @ [] @ ''/'' @ nodeName @ ''/'' @ print_int (go_int vmid))"

definition provider_ref :: "'r px_client \<Rightarrow> string \<Rightarrow> 'r option" where
  "provider_ref c providerID =
     (if providerID = [] then None
      else case url_Path providerID of
        None \<Rightarrow> None
      | Some path \<Rightarrow>
          (let parts = split_on CHR ''/'' path in
           if length parts = 3 then map_option (px_NewVmRef c) (Atoi (parts ! 2)) else None))"

definition getVMRef :: "'r Instances \<Rightarrow> vm_node \<Rightarrow> (go_error, 'r option) outcome" where
  "getVMRef i node =
     (case inst_client i of
        None \<Rightarrow> Err (ErrText ''not connected to any proxmox cluster'')
      | Some c \<Rightarrow>
          (case provider_ref c (nd_ProviderID node) of
             Some r \<Rightarrow> Ret (Some r)
           | None \<Rightarrow> (case px_GetVmRefByName c (nd_Name node) of Inl e \<Rightarrow> Err e | Inr r \<Rightarrow> Ret r)))"

definition getVMInfo :: "'r Instances \<Rightarrow> 'r option \<Rightarrow> (go_error, vm_map) outcome" where
  "getVMInfo i vmRef =
     (case vmRef of
        None \<Rightarrow> Err (ErrText ''empty vmref provided'')
      | Some r \<Rightarrow>
          (case inst_client i of
             None \<Rightarrow> Panic
           | Some c \<Rightarrow> (case px_GetVmInfo c r of Inl e \<Rightarrow> Err e | Inr info \<Rightarrow> Ret info)))"

section \<open>Addresses\<close>

text \<open>The parts of one \<^verbatim>\<open>ipconfig\<close> value; the first \<^verbatim>\<open>ip=\<close> part that is a network in CIDR notation counts.\<close>

fun first_ip :: "string list \<Rightarrow> node_address list" where
  "first_ip [] = []"
| "first_ip (currPart # parts) =
     (let (before, after, found) = cut CHR ''='' currPart in
      if found \<and> before = ''ip'' then
        (case ParseCIDR after of
           Ret (ip, _) \<Rightarrow> [node_addr NodeInternalIP (IP_String ip)]
         | _ \<Rightarrow> first_ip parts)
      else first_ip parts)"

text \<open>One entry of the configuration; asserting that a value is a string panics when it is not.\<close>

definition entry_addresses :: "vm_map \<Rightarrow> string \<times> any \<Rightarrow> (go_error, node_address list) outcome" where
  "entry_addresses config kv =
     (let (k, v) = kv in
      if has_prefix ''ipconfig'' k then
        (if map_of config (''net'' @ drop 8 k) = None then Ret []
         else case v of AnyString s \<Rightarrow> Ret (first_ip (split_on CHR '','' s)) | _ \<Rightarrow> Panic)
      else if k = ''name'' then (case v of AnyString s \<Rightarrow> Ret [node_addr NodeHostName s] | _ \<Rightarrow> Panic)
      else Ret [])"

fun addresses_loop :: "vm_map \<Rightarrow> vm_map \<Rightarrow> node_address list \<Rightarrow> (go_error, node_address list) outcome" where
  "addresses_loop config [] retval = Ret retval"
| "addresses_loop config (kv # kvs) retval =
     obind (entry_addresses config kv) (\<lambda>as. addresses_loop config kvs (retval @ as))"

definition getAddresses :: "vm_map \<Rightarrow> (go_error, node_address list) outcome" where
  "getAddresses config = addresses_loop config config []"

section \<open>The interface of the cloud controller\<close>

definition InstanceExists :: "'r Instances \<Rightarrow> vm_node \<Rightarrow> (go_error, bool) outcome" where
  "InstanceExists i node =
     (case getVMRef i node of
        Ret vmRef \<Rightarrow>
          (case getVMInfo i vmRef of Ret _ \<Rightarrow> Ret True | Err _ \<Rightarrow> Ret False | Panic \<Rightarrow> Panic | Stuck \<Rightarrow> Stuck)
      | Err _ \<Rightarrow> Ret False | Panic \<Rightarrow> Panic | Stuck \<Rightarrow> Stuck)"

definition InstanceShutdown :: "'r Instances \<Rightarrow> vm_node \<Rightarrow> (go_error, bool) outcome" where
  "InstanceShutdown i node =
     obind (getVMRef i node) (\<lambda>vmRef.
     obind (getVMInfo i vmRef) (\<lambda>vmInfo.
     case map_of vmInfo ''status'' of
       Some status \<Rightarrow> Ret (status \<noteq> AnyString ''running'')
     | None \<Rightarrow> Err (ErrText ''unexpected vm info - no status field returned'')))"

definition InstanceMetadata :: "'r Instances \<Rightarrow> vm_node \<Rightarrow> (go_error, instance_metadata) outcome" where
  "InstanceMetadata i node =
     obind (getVMRef i node) (\<lambda>vmRef.
     obind (getVMInfo i vmRef) (\<lambda>vmInfo.
     case (inst_client i, vmRef) of
       (Some c, Some r) \<Rightarrow>
         (case px_GetVmConfig c r of
            Inl e \<Rightarrow> Err e
          | Inr vmConfig \<Rightarrow>
              obind (getAddresses vmConfig) (\<lambda>as.
              Ret \<lparr>md_ProviderID = getProviderID vmInfo, md_InstanceType = as_string (map_of vmInfo ''type''),
                md_NodeAddresses = as, md_Zone = as_string (map_of vmInfo ''node'')\<rparr>))
     | _ \<Rightarrow> Panic))"

section \<open>Provider IDs lead back to the machine\<close>

text \<open>A node name that means nothing to a URL parser, as the DNS labels Proxmox accepts.\<close>

definition plain_char :: "char \<Rightarrow> bool" where
  "plain_char c \<longleftrightarrow> c \<notin> set ''/%#?'' \<and> 0x20 \<le> (of_char c :: nat) \<and> c \<noteq> CHR 0x7F"

lemma dec_plain: "list_all plain_char (dec n)"
proof -
  have "is_digit 10 c \<Longrightarrow> plain_char c" for c
    by (auto simp: is_digit_def digit_val_def plain_char_def Let_def split: if_splits)
  then show ?thesis using numeral_in_digits[of 10 _ n] by (auto simp: list_all_iff)
qed

lemma print_int_plain: "list_all plain_char (print_int i)"
  using dec_plain by (simp add: print_int_def) (simp add: plain_char_def)

lemma plainD:
  "list_all plain_char s \<Longrightarrow> CHR ''/'' \<notin> set s \<and> CHR ''%'' \<notin> set s \<and> CHR ''#'' \<notin> set s \<and> CHR ''?'' \<notin> set s \<and>
    \<not> list_ex (\<lambda>c. of_char c < (0x20 :: nat) \<or> c = CHR 0x7F) s"
  by (induction s) (auto simp: plain_char_def)

lemma url_Path_provider:
  assumes "list_all plain_char a" "list_all plain_char b"
  shows "url_Path (''proxmox:///'' @ a @ ''/'' @ b) = Some (''/'' @ a @ ''/'' @ b)"
proof -
  note ab = plainD[OF assms(1)] plainD[OF assms(2)]
  let ?rest = "''///'' @ a @ ''/'' @ b"
  have scheme: "getScheme raw [] (''proxmox:'' @ r) = Some (''proxmox'', r)" for raw r
    by (simp add: is_letter_def is_digit_def digit_val_def Let_def)
  have "cut CHR ''#'' (''proxmox:///'' @ a @ ''/'' @ b) = (''proxmox:///'' @ a @ ''/'' @ b, [], False)"
    using ab by (intro cut_no) auto
  moreover have "cut CHR ''?'' ?rest = (?rest, [], False)" using ab by (intro cut_no) auto
  moreover have "unescape In_path (''/'' @ a @ ''/'' @ b) = Some (''/'' @ a @ ''/'' @ b)"
    using ab by (intro unescape_plain) auto
  moreover have "parseAuthority_ok []" by code_simp
  ultimately have "url_parse (''proxmox:///'' @ a @ ''/'' @ b) = Some (''/'' @ a @ ''/'' @ b)"
    using ab scheme[of "''proxmox:///'' @ a @ ''/'' @ b" ?rest]
    by (simp add: url_parse_def has_prefix_def Let_def del: getScheme.simps)
  with \<open>cut CHR ''#'' _ = _\<close> show ?thesis by (simp add: url_Path_def)
qed

lemma provider_ref_of_id:
  assumes "as_string (map_of info ''node'') = name" "list_all plain_char name"
    and "map_of info ''vmid'' = Some (AnyFloat (of_int n))" "- (2 ^ 63) \<le> n" "n < 2 ^ 63"
  shows "provider_ref c (getProviderID info) = Some (px_NewVmRef c n)"
proof -
  have "go_int (of_int n) = n" by (simp add: go_int_def)
  then have id: "getProviderID info = ''proxmox:///'' @ name @ ''/'' @ print_int n"
    using assms(1,3) by (simp add: getProviderID_def Let_def)
  have parts: "split_on CHR ''/'' (''/'' @ name @ ''/'' @ print_int n) = [[], name, print_int n]"
    using split_on_append[of "CHR ''/''" name "print_int n"] split_on_no[of "CHR ''/''" "print_int n"]
      plainD[OF assms(2)] plainD[OF print_int_plain[of n]] by simp
  show ?thesis
    unfolding provider_ref_def id url_Path_provider[OF assms(2) print_int_plain]
    by (simp add: parts[simplified] Let_def Atoi_print[OF assms(4,5)])
qed

text \<open>
  C24. The provider ID that \<^verbatim>\<open>InstanceMetadata\<close> reports leads back to the virtual machine: a node registered
  with it is resolved to the VM with the number the API reported, whatever the node's name, as long as
  the Proxmox host name contains nothing special to URLs and the number fits an \<^verbatim>\<open>int\<close>.
\<close>

theorem provider_id_roundtrip:
  assumes "InstanceMetadata i node = Ret md" "inst_client i = Some c"
    and "getVMRef i node = Ret (Some r)" "px_GetVmInfo c r = Inr info"
    and "map_of info ''node'' = Some (AnyString name)" "list_all plain_char name"
    and "map_of info ''vmid'' = Some (AnyFloat (of_int n))" "- (2 ^ 63) \<le> n" "n < 2 ^ 63"
  shows "getVMRef i \<lparr>nd_Name = any_name, nd_ProviderID = md_ProviderID md\<rparr> = Ret (Some (px_NewVmRef c n))"
proof -
  have "md_ProviderID md = getProviderID info"
    using assms(1-4) by (auto simp: InstanceMetadata_def getVMInfo_def outcome_simps split: sum.splits)
  moreover have "provider_ref c (getProviderID info) = Some (px_NewVmRef c n)"
    by (rule provider_ref_of_id[OF _ assms(6-9)]) (simp add: assms(5) as_string_def)
  ultimately show ?thesis using assms(2) by (simp add: getVMRef_def)
qed

section \<open>Errors of the API\<close>

text \<open>
  C37. When the Proxmox API cannot answer (for a node without a usable provider ID: the lookup by name fails;
  otherwise: the VM's state cannot be read), \<^verbatim>\<open>InstanceShutdown\<close> and \<^verbatim>\<open>InstanceMetadata\<close> return the error, but
  \<^verbatim>\<open>InstanceExists\<close> reports, without an error, that the instance does not exist.
\<close>

theorem unreachable_reads_as_gone:
  assumes "inst_client i = Some c"
    and "provider_ref c (nd_ProviderID node) = None \<and> px_GetVmRefByName c (nd_Name node) = Inl e \<or>
      getVMRef i node = Ret (Some r) \<and> px_GetVmInfo c r = Inl e"
  shows "InstanceExists i node = Ret False \<and> InstanceShutdown i node = Err e \<and> InstanceMetadata i node = Err e"
  using assms
  by (auto simp: InstanceExists_def InstanceShutdown_def InstanceMetadata_def getVMInfo_def getVMRef_def)

section \<open>Addresses do not depend on the order of the map\<close>

definition entry_ok :: "vm_map \<Rightarrow> string \<times> any \<Rightarrow> node_address list option" where
  "entry_ok config kv = (case entry_addresses config kv of Ret as \<Rightarrow> Some as | _ \<Rightarrow> None)"

lemma entry_cases: "entry_addresses config kv = Panic \<or> (\<exists>as. entry_addresses config kv = Ret as)"
  by (cases kv) (auto simp: entry_addresses_def split: any.splits)

lemma addresses_loop_eq:
  "addresses_loop config kvs acc =
    (if \<exists>kv \<in> set kvs. entry_addresses config kv = Panic then Panic
     else Ret (acc @ concat (map (\<lambda>kv. the (entry_ok config kv)) kvs)))"
proof (induction kvs arbitrary: acc)
  case (Cons kv kvs)
  then show ?case using entry_cases[of config kv] by (auto simp: entry_ok_def)
qed simp

lemma entry_same_map: "map_of c = map_of c' \<Longrightarrow> entry_addresses c kv = entry_addresses c' kv"
  by (cases kv) (simp add: entry_addresses_def)

lemma mset_concat_map: "mset (concat (map f xs)) = (\<Sum>x \<in># mset xs. mset (f x))"
  by (induction xs) auto

text \<open>
  The addresses reported for a VM do not depend on the order in which Go visits the configuration map: two
  orders either both panic or give the same addresses, as often.
\<close>

lemma addresses_any_order:
  assumes "distinct (map fst c)" "mset c = mset c'"
  shows "(getAddresses c = Panic \<and> getAddresses c' = Panic) \<or>
    (\<exists>as as'. getAddresses c = Ret as \<and> getAddresses c' = Ret as' \<and> mset as = mset as')"
proof -
  have "distinct (map fst c')" using assms by (metis mset_map distinct_remdups_id mset_eq_imp_distinct_iff)
  then have same: "map_of c = map_of c'" using assms by (metis map_of_inject_set set_mset_mset)
  have "entry_addresses c = entry_addresses c'" using entry_same_map[OF same] by blast
  then have e: "entry_ok c = entry_ok c'" "entry_addresses c = entry_addresses c'" by (auto simp: entry_ok_def)
  have "set c = set c'" using assms(2) by (metis set_mset_mset)
  then show ?thesis
    unfolding getAddresses_def addresses_loop_eq e by (simp add: mset_concat_map assms(2))
qed

lemma first_ip_single: "first_ip ps = [] \<or> (\<exists>x. first_ip ps = [node_addr NodeInternalIP x])"
  by (induction ps) (auto simp: Let_def split: prod.splits outcome.splits)

lemma has_prefix_iff: "has_prefix p k \<longleftrightarrow> (\<exists>n. k = p @ n)"
  unfolding has_prefix_def by (metis append_eq_conv_conj append_take_drop_id)

lemma entry_reports:
  "(\<exists>r. entry_addresses config (k, v) = Ret r \<and> node_addr ty a \<in> set r) \<longleftrightarrow>
    k = ''name'' \<and> v = AnyString a \<and> ty = NodeHostName \<or>
    (\<exists>n s. k = ''ipconfig'' @ n \<and> v = AnyString s \<and> map_of config (''net'' @ n) \<noteq> None \<and>
       first_ip (split_on CHR '','' s) = [node_addr NodeInternalIP a] \<and> ty = NodeInternalIP)"
proof (cases "has_prefix ''ipconfig'' k")
  case True
  then obtain n where k: "k = ''ipconfig'' @ n" by (auto simp: has_prefix_iff)
  have pre: "has_prefix ''ipconfig'' (''ipconfig'' @ n)" by (simp add: has_prefix_def)
  show ?thesis
  proof (cases v)
    case (AnyString s)
    have e: "entry_addresses config (k, v) =
        (if map_of config (''net'' @ n) = None then Ret [] else Ret (first_ip (split_on CHR '','' s)))"
      unfolding entry_addresses_def k using pre by (simp add: AnyString)
    consider "first_ip (split_on CHR '','' s) = []" | x where "first_ip (split_on CHR '','' s) = [node_addr NodeInternalIP x]"
      using first_ip_single by blast
    then show ?thesis unfolding e by cases (auto simp: k AnyString)
  qed (auto simp: entry_addresses_def k pre)
next
  case False
  then show ?thesis by (auto simp: entry_addresses_def has_prefix_iff split: any.splits)
qed

text \<open>
  C26. What is reported for a VM: its name as host name, and for every network interface that has both a
  \<^verbatim>\<open>net\<close> and an \<^verbatim>\<open>ipconfig\<close> entry the address of the first \<^verbatim>\<open>ip=\<close> part in CIDR notation, nothing else.
\<close>

theorem addresses_reported:
  assumes "distinct (map fst config)" "getAddresses config = Ret as"
  shows "node_addr ty a \<in> set as \<longleftrightarrow>
    map_of config ''name'' = Some (AnyString a) \<and> ty = NodeHostName \<or>
    (\<exists>n s. map_of config (''ipconfig'' @ n) = Some (AnyString s) \<and> map_of config (''net'' @ n) \<noteq> None \<and>
       first_ip (split_on CHR '','' s) = [node_addr NodeInternalIP a] \<and> ty = NodeInternalIP)"
proof -
  have ok: "\<not> (\<exists>kv \<in> set config. entry_addresses config kv = Panic)"
    and as: "as = concat (map (\<lambda>kv. the (entry_ok config kv)) config)"
    using assms(2) unfolding getAddresses_def addresses_loop_eq by (auto split: if_splits)
  have elem: "kv \<in> set config \<longleftrightarrow> map_of config (fst kv) = Some (snd kv)" for kv
    using map_of_eq_Some_iff[OF assms(1), of "fst kv" "snd kv"] by simp
  have "x \<in> set (the (entry_ok config kv)) \<longleftrightarrow> (\<exists>r. entry_addresses config kv = Ret r \<and> x \<in> set r)"
    if "kv \<in> set config" for x kv
    using ok that entry_cases[of config kv] by (auto simp: entry_ok_def)
  then have "node_addr ty a \<in> set as \<longleftrightarrow> (\<exists>kv \<in> set config. \<exists>r. entry_addresses config kv = Ret r \<and> node_addr ty a \<in> set r)"
    unfolding as by auto
  also have "\<dots> \<longleftrightarrow> (\<exists>k v. map_of config k = Some v \<and> (\<exists>r. entry_addresses config (k, v) = Ret r \<and> node_addr ty a \<in> set r))"
    unfolding Bex_def elem by (metis fst_conv snd_conv surj_pair)
  finally show ?thesis unfolding entry_reports by blast
qed

section \<open>A concrete cluster\<close>

definition demo_vm_info :: vm_map where
  "demo_vm_info = [(''vmid'', AnyFloat 100), (''node'', AnyString ''pve-1''), (''status'', AnyString ''running''), (''type'', AnyString ''qemu'')]"

definition demo_vm_config :: vm_map where
  "demo_vm_config = [(''ipconfig0'', AnyString ''gw=10.0.0.1,ip=10.0.0.7/24''), (''name'', AnyString ''web-0''), (''cores'', AnyFloat 4),
     (''net0'', AnyString ''virtio''), (''ipconfig1'', AnyString ''ip=10.0.1.7/24'')]"

definition demo_addresses :: "node_address list" where
  "demo_addresses = [node_addr NodeInternalIP ''10.0.0.7'', node_addr NodeHostName ''web-0'']"

text \<open>One VM, number 100, named \<^verbatim>\<open>web-0\<close>; every other lookup fails.\<close>

definition demo_api :: "int px_client" where
  "demo_api = \<lparr>px_NewVmRef = (\<lambda>n. n),
     px_GetVmRefByName = (\<lambda>s. if s = ''web-0'' then Inr (Some 100) else Inl (Errno 110)),
     px_GetVmInfo = (\<lambda>n. if n = 100 then Inr demo_vm_info else Inl (Errno 110)),
     px_GetVmConfig = (\<lambda>n. Inr demo_vm_config)\<rparr>"

definition demo_instances :: "int Instances" where
  "demo_instances = \<lparr>inst_client = Some demo_api\<rparr>"

definition demo_metadata :: instance_metadata where
  "demo_metadata = \<lparr>md_ProviderID = ''proxmox:///pve-1/100'', md_InstanceType = ''qemu'',
     md_NodeAddresses = demo_addresses, md_Zone = ''pve-1''\<rparr>"

lemma demo_getAddresses: "getAddresses demo_vm_config = Ret demo_addresses"
  by code_simp

lemma provider_id_roundtrip_witness:
  "getVMRef demo_instances \<lparr>nd_Name = ''renamed'', nd_ProviderID = md_ProviderID demo_metadata\<rparr> = Ret (Some 100)"
proof -
  have a: "InstanceMetadata demo_instances \<lparr>nd_Name = ''web-0'', nd_ProviderID = []\<rparr> = Ret demo_metadata" by code_simp
  have b: "inst_client demo_instances = Some demo_api" by (simp add: demo_instances_def)
  have c: "getVMRef demo_instances \<lparr>nd_Name = ''web-0'', nd_ProviderID = []\<rparr> = Ret (Some 100)" by code_simp
  have d: "px_GetVmInfo demo_api 100 = Inr demo_vm_info" by (simp add: demo_api_def)
  have e: "map_of demo_vm_info ''node'' = Some (AnyString ''pve-1'')" "list_all plain_char ''pve-1''" by code_simp+
  have f: "map_of demo_vm_info ''vmid'' = Some (AnyFloat (of_int 100))" by (simp add: demo_vm_info_def)
  have "getVMRef demo_instances \<lparr>nd_Name = ''renamed'', nd_ProviderID = md_ProviderID demo_metadata\<rparr> = Ret (Some (px_NewVmRef demo_api 100))"
    by (rule provider_id_roundtrip[OF a b c d e f]) simp_all
  then show ?thesis by (simp add: demo_api_def)
qed

lemma unreachable_reads_as_gone_witness:
  "InstanceExists demo_instances \<lparr>nd_Name = ''web-1'', nd_ProviderID = []\<rparr> = Ret False \<and>
   InstanceShutdown demo_instances \<lparr>nd_Name = ''web-1'', nd_ProviderID = []\<rparr> = Err (Errno 110)"
proof -
  have a: "inst_client demo_instances = Some demo_api" by (simp add: demo_instances_def)
  have b: "provider_ref demo_api (nd_ProviderID \<lparr>nd_Name = ''web-1'', nd_ProviderID = []\<rparr>) = None \<and>
    px_GetVmRefByName demo_api (nd_Name \<lparr>nd_Name = ''web-1'', nd_ProviderID = []\<rparr>) = Inl (Errno 110)" by code_simp
  show ?thesis using unreachable_reads_as_gone[OF a disjI1[OF b]] by blast
qed

lemma addresses_any_order_witness:
  "mset demo_addresses = mset [node_addr NodeHostName ''web-0'', node_addr NodeInternalIP ''10.0.0.7''] \<and>
   getAddresses (rev demo_vm_config) = Ret [node_addr NodeHostName ''web-0'', node_addr NodeInternalIP ''10.0.0.7'']"
proof -
  have a: "distinct (map fst demo_vm_config)" by code_simp
  have b: "mset demo_vm_config = mset (rev demo_vm_config)" by simp
  have c: "getAddresses (rev demo_vm_config) = Ret [node_addr NodeHostName ''web-0'', node_addr NodeInternalIP ''10.0.0.7'']" by code_simp
  show ?thesis using addresses_any_order[OF a b] demo_getAddresses c by auto
qed

lemma addresses_reported_witness:
  "\<exists>n s. map_of demo_vm_config (''ipconfig'' @ n) = Some (AnyString s) \<and> map_of demo_vm_config (''net'' @ n) \<noteq> None \<and>
     first_ip (split_on CHR '','' s) = [node_addr NodeInternalIP ''10.0.0.7'']"
proof -
  have a: "distinct (map fst demo_vm_config)" by code_simp
  have b: "node_addr NodeInternalIP ''10.0.0.7'' \<in> set demo_addresses" by (simp add: demo_addresses_def)
  show ?thesis using addresses_reported[OF a demo_getAddresses, of NodeInternalIP "''10.0.0.7''"] b by auto
qed

text \<open>
  C38. The load balancer maps a service to the first internal address of a node. For a VM with two
  interfaces that address depends on the order in which Go visits the configuration map: two orders of
  the same configuration give node addresses for which the controller picks different targets.
\<close>

theorem first_address_depends_on_order:
  "\<exists>c c' as as'. distinct (map fst c) \<and> mset c = mset c' \<and> getAddresses c = Ret as \<and> getAddresses c' = Ret as' \<and>
     internal_ip as = ''10.0.0.7'' \<and> internal_ip as' = ''10.0.1.7''"
proof -
  let ?c = "[(''net0'', AnyString ''virtio''), (''net1'', AnyString ''virtio''),
    (''ipconfig0'', AnyString ''ip=10.0.0.7/24''), (''ipconfig1'', AnyString ''ip=10.0.1.7/24'')]"
  let ?as = "[node_addr NodeInternalIP ''10.0.0.7'', node_addr NodeInternalIP ''10.0.1.7'']"
  have "distinct (map fst ?c)" "getAddresses ?c = Ret ?as" "getAddresses (rev ?c) = Ret (rev ?as)"
    "internal_ip ?as = ''10.0.0.7''" "internal_ip (rev ?as) = ''10.0.1.7''" by code_simp+
  moreover have "mset ?c = mset (rev ?c)" by simp
  ultimately show ?thesis by blast
qed

end
