(* ===== verification/Ccm_Provider.thy ===== *)
theory Ccm_Provider
  imports Ccm_Instances Credentials
begin

text \<open>
  \<^verbatim>\<open>internal/proxmox/provider.go\<close>, and \<^verbatim>\<open>newInstances\<close> of \<^verbatim>\<open>instance.go\<close>: the object the cloud controller asks for
  its parts, made from a configuration and connected by \<^verbatim>\<open>Initialize\<close>. What the Proxmox and gRPC libraries
  answer is a parameter.
\<close>

section \<open>Configuration\<close>

record cluster_config =
  cc_URL :: string
  cc_Timeout :: int
  cc_APIToken :: string
  cc_Username :: string
  cc_InsecureTLS :: bool
  cc_CACert :: string
  cc_Debug :: bool

record provider_config =
  pc_Security :: security
  pc_ManagerHost :: string
  pc_ManagerPort :: int
  pc_ClusterConfig :: cluster_config

record ('r, 's) Provider =
  pv_config :: provider_config
  pv_lbManager :: "'s lb_client option"
  pv_instances :: "'r Instances option"

text \<open>\<^verbatim>\<open>New\<close>: read all of the configuration and decode it; \<open>decode\<close> is \<^verbatim>\<open>yaml.Unmarshal\<close> into the empty configuration.\<close>

definition provider_New ::
  "(string \<Rightarrow> go_error + provider_config) \<Rightarrow> go_error + string \<Rightarrow> (go_error, ('r, 's) Provider) outcome" where
  "provider_New decode config =
     (case config of
        Inl err \<Rightarrow> Err err
      | Inr c \<Rightarrow> (case decode c of
            Inl err \<Rightarrow> Err err
          | Inr providerConfig \<Rightarrow> Ret \<lparr>pv_config = providerConfig, pv_lbManager = None, pv_instances = None\<rparr>))"

section \<open>The Proxmox client\<close>

text \<open>
  How a server certificate is checked: not at all, by a pool, or by the pool of the system. A client is made
  from URL, check and timeout; \<open>pl_Login\<close> is the check with \<^verbatim>\<open>GetVersion\<close> after \<^verbatim>\<open>SetAPIToken\<close>.
\<close>

datatype 'p tls_check = No_check | Pool 'p | System_pool

record ('r, 'p) px_libs =
  pl_NewClient :: "string \<Rightarrow> 'p tls_check \<Rightarrow> int \<Rightarrow> go_error + 'r px_client"
  pl_Login :: "'r px_client \<Rightarrow> string \<Rightarrow> string \<Rightarrow> go_error option"

definition trim :: "string \<Rightarrow> string" where
  "trim s = (let sp = (\<lambda>c. c \<in> set [CHR 0x0A, CHR 0x0D, CHR '' '', CHR 0x09])
     in rev (dropWhile sp (rev (dropWhile sp s))))"

definition cluster_check :: "('c, 'p) tls_libs \<Rightarrow> cluster_config \<Rightarrow> (go_error, 'p tls_check) outcome" where
  "cluster_check T config =
     (if cc_InsecureTLS config then Ret No_check
      else if cc_CACert config \<noteq> [] then
        (case tl_ReadFile T (cc_CACert config) of
           Inl err \<Rightarrow> Err err
         | Inr data \<Rightarrow>
             (case tl_AppendCertsFromPEM T data of
                None \<Rightarrow> Err (ErrText ''Failed to load ca certificate'')
              | Some capool \<Rightarrow> Ret (Pool capool)))
      else Ret System_pool)"

definition newInstances ::
  "('c, 'p) tls_libs \<Rightarrow> ('r, 'p) px_libs \<Rightarrow> cluster_config \<Rightarrow> (go_error, 'r Instances) outcome" where
  "newInstances T P config =
     obind (cluster_check T config) (\<lambda>chk.
     case pl_NewClient P (cc_URL config) chk (cc_Timeout config) of
       Inl err \<Rightarrow> Err err
     | Inr c \<Rightarrow>
         (case tl_ReadFile T (cc_Username config) of
            Inl err \<Rightarrow> Err err
          | Inr username \<Rightarrow>
              (case tl_ReadFile T (cc_APIToken config) of
                 Inl err \<Rightarrow> Err err
               | Inr apiToken \<Rightarrow>
                   (case pl_Login P c (trim username) (trim apiToken) of
                      Some err \<Rightarrow> Err (ErrText ''bad username password'')
                    | None \<Rightarrow> Ret \<lparr>inst_client = Some c\<rparr>))))"

section \<open>The provider\<close>

text \<open>\<^verbatim>\<open>log.Fatalf\<close> ends the process.\<close>

datatype ('r, 's) init_run = Init_fatal string | Init_panic | Initialized "('r, 's) Provider"

definition Initialize ::
  "('c, 'p) tls_libs \<Rightarrow> ('r, 'p) px_libs \<Rightarrow> (string \<Rightarrow> ('c, 'p) tls_creds option \<Rightarrow> go_error + 's lb_client) \<Rightarrow>
   ('r, 's) Provider \<Rightarrow> ('r, 's) init_run" where
  "Initialize T P dial p =
     (case newInstances T P (pc_ClusterConfig (pv_config p)) of
        Err err \<Rightarrow> Init_fatal ''failed to connect to proxmox''
      | Ret instances \<Rightarrow>
          (let p = p\<lparr>pv_instances := Some instances\<rparr> in
           case loadKeypair T (pc_Security (pv_config p)) of
             (_, Some err) \<Rightarrow> Init_fatal ''failed to load the lbmanager credentials''
           | (creds, None) \<Rightarrow>
               (case dial (pc_ManagerHost (pv_config p) @ '':'' @ print_int (pc_ManagerPort (pv_config p))) creds of
                  Inl err \<Rightarrow> Init_fatal ''failed to connect to the lbmanager''
                | Inr client \<Rightarrow> Initialized (p\<lparr>pv_lbManager := Some client\<rparr>)))
      | _ \<Rightarrow> Init_panic)"

text \<open>The parts of the interface; the second component says whether a part is supported.\<close>

definition provider_LoadBalancer :: "('r, 's) Provider \<Rightarrow> 's lb_client option \<times> bool" where
  "provider_LoadBalancer p = (pv_lbManager p, True)"

definition provider_InstancesV2 :: "('r, 's) Provider \<Rightarrow> 'r Instances option \<times> bool" where
  "provider_InstancesV2 p = (pv_instances p, True)"

definition provider_Instances :: "('r, 's) Provider \<Rightarrow> unit option \<times> bool" where
  "provider_Instances p = (None, False)"

definition provider_Zones :: "('r, 's) Provider \<Rightarrow> unit option \<times> bool" where
  "provider_Zones p = (None, False)"

definition provider_Clusters :: "('r, 's) Provider \<Rightarrow> unit option \<times> bool" where
  "provider_Clusters p = (None, False)"

definition provider_Routes :: "('r, 's) Provider \<Rightarrow> unit option \<times> bool" where
  "provider_Routes p = (None, False)"

definition ProviderName :: string where "ProviderName = ''proxmox''"
definition HasClusterID :: bool where "HasClusterID = True"

text \<open>
  A provider that came through \<^verbatim>\<open>Initialize\<close> has both parts it says it supports, an instances part with a
  client whose login was accepted, and its configuration as before.
\<close>

lemma Initialize_connects:
  assumes "Initialize T P dial p = Initialized q"
  obtains c l u t where "provider_LoadBalancer q = (Some l, True)" "provider_InstancesV2 q = (Some \<lparr>inst_client = Some c\<rparr>, True)"
    "pl_Login P c u t = None" "pv_config q = pv_config p"
  using assms
  by (auto simp: Initialize_def newInstances_def provider_LoadBalancer_def provider_InstancesV2_def outcome_simps Let_def
      split: outcome.splits prod.splits option.splits sum.splits)

text \<open>Files that end in a line break give the same login as files that do not.\<close>

lemma trim_append_newline: "s \<noteq> [] \<Longrightarrow> last s \<notin> set [CHR 0x0A, CHR 0x0D, CHR '' '', CHR 0x09] \<Longrightarrow> trim (s @ [CHR 0x0A]) = trim s"
proof -
  assume s: "s \<noteq> []" "last s \<notin> set [CHR 0x0A, CHR 0x0D, CHR '' '', CHR 0x09]"
  let ?sp = "\<lambda>c. c \<in> set [CHR 0x0A, CHR 0x0D, CHR '' '', CHR 0x09]"
  have "dropWhile ?sp (s @ [CHR 0x0A]) = dropWhile ?sp s @ [CHR 0x0A]"
    using s by (subst dropWhile_append1[where x = "last s"]) auto
  then show ?thesis by (simp add: trim_def Let_def)
qed

end
