(* ===== verification/Startup.thy ===== *)
theory Startup
  imports Commands Ccm_Provider
begin

text \<open>
  What runs before the commands and the controller: the loading and reloading of configuration files in
  \<^verbatim>\<open>cmd/lbmanager/main.go\<close> and \<^verbatim>\<open>cmd/lbctl/main.go\<close>, and the choice of the cloud provider in \<^verbatim>\<open>main.go\<close>.
\<close>

section \<open>Configuration files\<close>

text \<open>The koanf library: loading a file into a configuration, an empty one, and the merge of two.\<close>

record 'k koanf =
  ko_New :: 'k
  ko_Load :: "string \<Rightarrow> 'k \<Rightarrow> go_error option \<times> 'k"
  ko_Merge :: "'k \<Rightarrow> 'k \<Rightarrow> 'k"
  os_IsNotExist :: "go_error \<Rightarrow> bool"

text \<open>The configuration of the process and the files that are watched.\<close>

type_synonym 'k loaded = "'k \<times> string list"

definition loadConfigFile :: "'k koanf \<Rightarrow> string \<Rightarrow> 'k loaded \<Rightarrow> go_error option \<times> 'k loaded" where
  "loadConfigFile K file s =
     (case ko_Load K file (fst s) of
        (Some err, k) \<Rightarrow> (Some err, (k, snd s))
      | (None, k) \<Rightarrow> (None, (k, snd s @ [file])))"

text \<open>The callback of the watch: a file that cannot be read again leaves the configuration alone.\<close>

definition on_change :: "'k koanf \<Rightarrow> string \<Rightarrow> go_error option \<Rightarrow> 'k \<Rightarrow> 'k" where
  "on_change K file err k =
     (if err \<noteq> None then k
      else case ko_Load K file (ko_New K) of
             (Some err, tmpK) \<Rightarrow> k
           | (None, tmpK) \<Rightarrow> ko_Merge K k tmpK)"

text \<open>\<^verbatim>\<open>init\<close> of the manager, up to its fatal messages.\<close>

definition manager_init :: "'k koanf \<Rightarrow> 'k \<Rightarrow> string + 'k loaded" where
  "manager_init K k =
     (case loadConfigFile K ''/etc/lbmanager/lbmanager.yaml'' (k, []) of
        (err1, s) \<Rightarrow>
          if err1 \<noteq> None \<and> \<not> os_IsNotExist K (the err1) then Inl ''error loading config''
          else
            (case loadConfigFile K ''lbmanager.yaml'' s of
               (err2, s) \<Rightarrow>
                 if err2 \<noteq> None \<and> \<not> os_IsNotExist K (the err2) then Inl ''error loading local config''
                 else if err1 \<noteq> None \<and> err2 \<noteq> None then Inl ''No configuration found. Cowardly refusing to continue.''
                 else Inr s))"

text \<open>\<^verbatim>\<open>init\<close> of the command: a missing file is no error, and nothing is watched.\<close>

definition ctl_init :: "'k koanf \<Rightarrow> 'k \<Rightarrow> string + 'k" where
  "ctl_init K k =
     (case ko_Load K ''/etc/lbmanager/lbctl.yaml'' k of
        (err, k) \<Rightarrow> if err \<noteq> None \<and> \<not> os_IsNotExist K (the err) then Inl ''failed loading config'' else Inr k)"

text \<open>
  A manager that gets past \<^verbatim>\<open>init\<close> has loaded at least one of its two files, watches exactly the files it loaded, in
  the order system file, local file; a file it did not load does not exist.
\<close>

lemma manager_init_loads:
  assumes "manager_init K k = Inr (k', fs)"
  shows "fs \<noteq> [] \<and> (fs = [''/etc/lbmanager/lbmanager.yaml''] \<or> fs = [''lbmanager.yaml''] \<or>
      fs = [''/etc/lbmanager/lbmanager.yaml'', ''lbmanager.yaml'']) \<and>
    (''/etc/lbmanager/lbmanager.yaml'' \<notin> set fs \<longrightarrow>
       (\<exists>e. fst (ko_Load K ''/etc/lbmanager/lbmanager.yaml'' k) = Some e \<and> os_IsNotExist K e))"
  using assms
  by (auto simp: manager_init_def loadConfigFile_def split: prod.splits option.splits if_splits)

text \<open>A reload can only add or replace settings: what a merge keeps of the old ones stays.\<close>

lemma on_change_cases: "on_change K file err k = k \<or> (\<exists>tmpK. on_change K file err k = ko_Merge K k tmpK)"
  by (auto simp: on_change_def split: prod.splits option.splits)

section \<open>The cloud provider\<close>

datatype 'c cloud_run = Cloud_fatal string | Cloud 'c

text \<open>\<^verbatim>\<open>cloudInitializer\<close>; \<^verbatim>\<open>cloudprovider.InitCloudProvider\<close> and the two settings of the configuration are parameters.\<close>

definition cloudInitializer ::
  "(string \<Rightarrow> string \<Rightarrow> go_error + 'c option) \<Rightarrow> ('c \<Rightarrow> bool) \<Rightarrow> string \<Rightarrow> string \<Rightarrow> bool \<Rightarrow> 'c cloud_run" where
  "cloudInitializer InitCloudProvider has_id name file AllowUntaggedCloud =
     (case InitCloudProvider name file of
        Inl err \<Rightarrow> Cloud_fatal ''Cloud provider could not be initialized''
      | Inr None \<Rightarrow> Cloud_fatal ''Cloud provider is nil''
      | Inr (Some cloud) \<Rightarrow>
          if \<not> has_id cloud \<and> \<not> AllowUntaggedCloud then Cloud_fatal ''no ClusterID found'' else Cloud cloud)"

text \<open>The provider of this repository always passes the check of the cluster ID.\<close>

lemma proxmox_is_accepted:
  "InitCloudProvider name file = Inr (Some p) \<Longrightarrow>
   cloudInitializer InitCloudProvider (\<lambda>_. HasClusterID) name file allow = Cloud p"
  by (simp add: cloudInitializer_def HasClusterID_def)

end
