(* ===== verification/Spec2Isabelle.thy ===== *)
theory Spec2Isabelle
  imports Ip_Trie Simple_Ipam Lb_Messages Ipvs_Config Mem_Kernel Manager End_To_End Lb_Races Ipvs_Setup Ns_Init Startup
begin

text \<open>
  A verification development for the Proxmox cloud provider: the load balancer manager that programs the
  Linux virtual server (IPVS), and the cloud controller that drives it for a Kubernetes cluster.

  \<^bold>\<open>The program.\<close> \<^verbatim>\<open>cmd/lbmanager\<close> serves the gRPC service of \<^verbatim>\<open>internal/loadbalancer\<close>. A call of it changes three
  things: a key-value store with one JSON document per load balancer, the addresses of a network link (one alias
  per load balancer), and the IPVS table of the kernel (a virtual service per port and protocol, a real server
  per target). Addresses come from \<^verbatim>\<open>internal/ipam\<close>; the IPVS table is reached through \<^verbatim>\<open>internal/ipvs\<close>, which
  speaks netlink. \<^verbatim>\<open>internal/proxmox\<close> is the cloud controller: it compares the ports and nodes of a Kubernetes
  service with the stored targets and calls the manager to add and remove the difference, and it reports virtual
  machines as nodes. \<^verbatim>\<open>cmd/lbctl\<close> is a client for the command line.

  \<^bold>\<open>Conventions.\<close> A Go call that can fail is an \<open>outcome\<close> (\<open>Prelude\<close>): a value, an error, a panic, or \<open>Stuck\<close> for a
  loop that has used up its fuel. State is threaded explicitly; \<open>world\<close> (\<open>Lb_Server\<close>) is link, IPVS table and store.
  Integers of fixed width are words; Go maps are association lists with a nil case, and the order in which Go
  visits a map is a parameter. A byte slice carries the bytes behind its end, since Go lets a slice grow over them.

  \<^bold>\<open>Theories and code.\<close>

  \<^item> \<open>Prelude\<close>, \<open>Go_Net\<close>, \<open>Go_Url\<close>: outcomes, numerals, and the parts of the Go library the source uses (addresses and
    networks of package \<^verbatim>\<open>net\<close>, splitting, URLs). \<open>Externals\<close>: link, store and configuration as records of functions
    with their documented behaviour (\<open>link_laws\<close>, \<open>db_laws\<close>), and instances in memory.
  \<^item> \<open>Ip_Trie\<close>, \<open>Simple_Ipam\<close>: \<^verbatim>\<open>internal/ipam/simple.go\<close>. The trie refines a set of addresses (locale \<open>address_index\<close>);
    \<open>Allocate\<close> returns the lowest free address of the range. The search gets one unit of fuel more than there are
    addresses on the link, which is enough because each unit it uses passes one of them.
  \<^item> \<open>Ipvs_Types\<close>, \<open>Ipvs_Codec\<close>, \<open>Ipvs_Handle\<close>, \<open>Ipvs_Config\<close>, \<open>Ipvs_Setup\<close>: \<^verbatim>\<open>constants_linux.go\<close>, \<^verbatim>\<open>ipvs_linux.go\<close> and
    \<^verbatim>\<open>netlink_linux.go\<close> of \<^verbatim>\<open>internal/ipvs\<close>: types, messages, the receive loop \<open>execute\<close> and the operations on a
    handle, the timeouts with the rounding of \<^verbatim>\<open>float64\<close>, and what happens once per process. \<open>Ipvs_Roundtrip\<close>
    reads back what is written, over any netlink library with \<open>nl_laws\<close> (\<open>Nl_Memory\<close> is one). \<open>Ns_Init\<close> is
    \<^verbatim>\<open>internal/ipvs/ns\<close>.
  \<^item> \<open>Ipvs_Table\<close> is the abstract specification of a handle: a table of services and real servers (locales \<open>ipvs_table\<close>
    and \<open>ipvs_exact_table\<close>). \<open>Ipvs_Kernel\<close> proves that the handle implements it against any kernel that keeps the
    netlink protocol, stale messages and timeouts included, and when the receive loop returns: the fuel a call needs
    is the number of receives the kernel takes to complete its answer. \<open>Mem_Kernel\<close> is a kernel that keeps the
    protocol. \<open>Ipvs_Overlap\<close>: two calls on one socket at the same time.
  \<^item> \<open>Lb_Messages\<close> (the messages and their JSON documents), \<open>Lb_Server\<close> (every handler of \<^verbatim>\<open>impl.go\<close>), \<open>Lb_Setup\<close>
    (\<^verbatim>\<open>NewServer\<close> and the handles it holds), \<open>Lb_Client\<close> (the generated client over the server).
  \<^item> \<open>Lb_Targets\<close>, \<open>Lb_Lifecycle\<close>: what each handler does on each branch. \<open>Lb_Invariant\<close>: the server as a state machine
    of calls and restarts, and its invariant. \<open>Manager\<close> puts \<open>NewServer\<close>, the handlers, the handle, the codec and the
    kernel together. \<open>Lb_Demo\<close> is the concrete server of the witnesses.
  \<^item> \<open>Lb_Concurrent\<close>, \<open>Lb_Documents\<close>, \<open>Lb_Races\<close>: the handlers cut into steps at every use of an external, and calls that
    overlap. A call alone is its handler and takes at most five steps.
  \<^item> \<open>Ccm_LoadBalancer\<close>, \<open>Ccm_Mappings\<close>, \<open>Ccm_Backend\<close>, \<open>Ccm_Service\<close>: \<^verbatim>\<open>internal/proxmox/loadbalancer.go\<close>; the calls that
    \<open>handleMappings\<close> makes as a plan, and what the plan achieves over any service with the contract of locale
    \<open>lb_backend\<close>, which the server of this development keeps. \<open>End_To_End\<close> follows a service from
    \<^verbatim>\<open>EnsureLoadBalancer\<close> through the server and the handle to the table of the kernel. \<open>Ccm_Instances\<close>, \<open>Ccm_Provider\<close>: \<^verbatim>\<open>instance.go\<close> and
    \<^verbatim>\<open>provider.go\<close>.
  \<^item> \<open>Credentials\<close>, \<open>Commands\<close>, \<open>Startup\<close>: TLS credentials, the two commands, and what runs before them.

  \<^bold>\<open>What is proved.\<close> In every state that calls and restarts reach, every stored load balancer has its address and every
  stored target its real server, and no two targets share one, down to the table of the kernel; \<open>Restore\<close> rebuilds
  exactly what is stored; additions may overlap in any way without breaking this, and no overlap spoils a document.
  Successful calls do what they answer, and refused ones change nothing. The receive loop returns when the answer is complete.
  The controller converges for services with one port: when it reports no error, the stored mappings
  are exactly those to the nodes it was given, and the kernel serves each of them on the address it reports.

  \<^bold>\<open>What is proved to go wrong.\<close> Overlapping calls lose targets, undo removals, hand out one address twice, and drop each
  other's netlink answers. A second service port is unmapped by the next synchronisation. Deleting a load
  balancer takes the alias of another one with its address; targets of two protocols on one port leave a service
  behind; ports and IPv6 targets are cut to the width of an IPVS service of IPv4; a full range at the end of the
  address space wraps. A node whose API cannot be reached reads as gone, and the address of a node with two
  interfaces depends on map order. A CA file without certificates turns TLS off.

  \<^bold>\<open>Not modelled.\<close> The generated protobuf reflection code, the service descriptor and the gRPC transport (the effect of the
  transport on errors is a parameter); logging and the functions that only log (\<^verbatim>\<open>printToLog\<close>); the parsing of flags
  and YAML; the command line of the controller framework in \<^verbatim>\<open>main.go\<close>; the goroutine of \<^verbatim>\<open>Initialize\<close> that closes the
  connection when the process stops. \<^verbatim>\<open>Delete\<close> removes the services of a load balancer in one step of \<open>Lb_Concurrent\<close>, so
  calls that come in between are not considered there; the other handlers are cut at each call of an external.
\<close>

end
